(* ===== verification/Prelude.thy ===== *)
theory Prelude
  imports Main "HOL-Library.Word" "HOL-Library.Sublist"
begin

text \<open>
  Shared types, fact collections and list lemmas of the development.

  \<^item> JavaScript strings are sequences of UTF-16 code units, so a string of the
    program is a list of 16-bit words (\<open>jsstring\<close>). \<open>js\<close> embeds an ASCII
    literal of the theory into that type; code units beyond ASCII (the accented
    letters of the error messages, the Unicode white space that \<open>trim\<close>
    removes) are written as numerals.
  \<^item> The named collections gather the unfolding equations of each layer, so
    that a component proof names the layer it opens and nothing else.
  \<^item> The list lemmas are the facts about \<open>dropWhile\<close>, \<open>rev\<close> and
    \<open>prefix\<close> that the string primitives and the number recogniser share.
\<close>

section \<open>Fact collections\<close>

named_theorems js_defs "unfolding equations of the modelled ECMAScript primitives"
named_theorems zod_defs "unfolding equations of the validation combinators"
named_theorems schema_defs "unfolding equations of the form's schema"
named_theorems form_defs "unfolding equations of the form component"

section \<open>Strings of UTF-16 code units\<close>

type_synonym code_unit = "16 word"
type_synonym jsstring = "code_unit list"

definition js :: "string \<Rightarrow> jsstring" where
  "js s = map of_char s"

lemma js_Nil [simp]: "js [] = []"
  by (simp add: js_def)

lemma js_Cons [simp]: "js (c # cs) = of_char c # js cs"
  by (simp add: js_def)

lemma js_append: "js (s @ t) = js s @ js t"
  by (simp add: js_def)

lemma length_js [simp]: "length (js s) = length s"
  by (simp add: js_def)

lemma of_char_less_256: "(of_char c :: nat) < 256"
  by simp

lemma unat_of_char16: "unat (of_char c :: code_unit) = of_char c"
proof -
  have "(of_char c :: code_unit) = of_nat (of_char c)"
    by (simp only: of_nat_of_char)
  moreover have "(of_char c :: nat) < 2 ^ 16"
    by (rule less_trans [OF of_char_less_256]) simp
  ultimately show ?thesis
    by (simp add: unat_of_nat)
qed

lemma of_char16_eq_iff [simp]: "(of_char c :: code_unit) = of_char d \<longleftrightarrow> c = d"
proof
  assume "(of_char c :: code_unit) = of_char d"
  then have "unat (of_char c :: code_unit) = unat (of_char d :: code_unit)"
    by simp
  then show "c = d"
    by (simp only: unat_of_char16 of_char_eq_iff)
qed simp

lemma js_eq_iff: "js s = js t \<longleftrightarrow> s = t"
proof (induction s arbitrary: t)
  case Nil
  show ?case by (cases t) simp_all
next
  case (Cons c cs)
  then show ?case by (cases t) simp_all
qed

lemma js_eq_Nil_iff [simp]: "js s = [] \<longleftrightarrow> s = []"
  by (simp add: js_def)

section \<open>Lists: stripping a class of elements at both ends\<close>

definition strip_end :: "('a \<Rightarrow> bool) \<Rightarrow> 'a list \<Rightarrow> 'a list" where
  "strip_end P xs = rev (dropWhile P (rev xs))"

lemma strip_end_Nil [simp]: "strip_end P [] = []"
  by (simp add: strip_end_def)

lemma strip_end_snoc:
  "strip_end P (xs @ [x]) = (if P x then strip_end P xs else xs @ [x])"
  by (simp add: strip_end_def)

lemma strip_end_eq_Nil_iff [simp]: "strip_end P xs = [] \<longleftrightarrow> (\<forall>x\<in>set xs. P x)"
  by (simp add: strip_end_def)

lemma strip_end_prefix: "prefix (strip_end P xs) xs"
proof (induction xs rule: rev_induct)
  case Nil
  show ?case by simp
next
  case (snoc x xs)
  then show ?case
    by (auto simp: strip_end_snoc intro: prefix_order.trans)
qed

lemma strip_end_decomp: "\<exists>r. xs = strip_end P xs @ r \<and> (\<forall>x\<in>set r. P x)"
proof (induction xs rule: rev_induct)
  case Nil
  show ?case by simp
next
  case (snoc x xs)
  then obtain r where r: "xs = strip_end P xs @ r" "\<forall>y\<in>set r. P y"
    by blast
  show ?case
  proof (cases "P x")
    case True
    with r have "xs @ [x] = strip_end P (xs @ [x]) @ (r @ [x])" "\<forall>y\<in>set (r @ [x]). P y"
      by (simp_all add: strip_end_snoc)
    then show ?thesis by blast
  next
    case False
    then show ?thesis by (simp add: strip_end_snoc)
  qed
qed

lemma strip_end_last: "strip_end P xs \<noteq> [] \<Longrightarrow> \<not> P (last (strip_end P xs))"
  by (induction xs rule: rev_induct) (auto simp: strip_end_snoc)

lemma strip_end_idem [simp]: "strip_end P (strip_end P xs) = strip_end P xs"
  by (induction xs rule: rev_induct) (auto simp: strip_end_snoc)

lemma strip_end_id: "xs \<noteq> [] \<Longrightarrow> \<not> P (last xs) \<Longrightarrow> strip_end P xs = xs"
  by (cases xs rule: rev_cases) (auto simp: strip_end_snoc)

lemma strip_end_Cons:
  "strip_end P (x # xs) = (if (\<forall>y\<in>set xs. P y) then (if P x then [] else [x]) else x # strip_end P xs)"
proof (induction xs rule: rev_induct)
  case Nil
  show ?case using strip_end_snoc [of P "[]" x] by simp
next
  case (snoc y ys)
  show ?case
    using snoc strip_end_snoc [of P "x # ys" y]
    by (auto simp: strip_end_snoc)
qed

lemma dropWhile_decomp: "\<exists>l. xs = l @ dropWhile P xs \<and> (\<forall>x\<in>set l. P x)"
proof -
  have "xs = takeWhile P xs @ dropWhile P xs" by simp
  moreover have "\<forall>x\<in>set (takeWhile P xs). P x"
    by (auto dest: set_takeWhileD)
  ultimately show ?thesis by blast
qed

lemma dropWhile_all_iff: "(\<forall>x\<in>set (dropWhile P xs). P x) \<longleftrightarrow> (\<forall>x\<in>set xs. P x)"
  by (induction xs) auto

lemma dropWhile_append_nonempty:
  "dropWhile P xs \<noteq> [] \<Longrightarrow> dropWhile P (xs @ ys) = dropWhile P xs @ ys"
  by (induction xs) auto

lemma dropWhile_hd: "dropWhile P xs \<noteq> [] \<Longrightarrow> \<not> P (hd (dropWhile P xs))"
  by (rule hd_dropWhile)

lemma dropWhile_strip_end_commute:
  "dropWhile P (strip_end P xs) = strip_end P (dropWhile P xs)"
proof (induction xs)
  case Nil
  show ?case by simp
next
  case (Cons x xs)
  show ?case
  proof (cases "P x")
    case True
    with Cons show ?thesis
      by (auto simp: strip_end_Cons dropWhile_eq_Nil_conv [THEN iffD2])
  next
    case False
    then show ?thesis
      by (simp add: strip_end_Cons)
  qed
qed

section \<open>Lists: prefixes\<close>

lemma prefix_Cons_iff: "prefix p (x # xs) \<longleftrightarrow> p = [] \<or> (\<exists>q. p = x # q \<and> prefix q xs)"
  by (cases p) auto

lemma prefix_nonempty_hd: "prefix p xs \<Longrightarrow> p \<noteq> [] \<Longrightarrow> xs \<noteq> [] \<and> hd p = hd xs"
  by (cases p; cases xs) auto

lemma find_append:
  "find P (xs @ ys) = (case find P xs of None \<Rightarrow> find P ys | Some x \<Rightarrow> Some x)"
  by (induction xs) simp_all

end
