(* ===== verification/ECMAScript.thy ===== *)
theory ECMAScript
  imports Prelude
begin

text \<open>
  The ECMAScript values and built-ins that \<^verbatim>\<open>src/pages/New/index.jsx\<close> calls, directly or
  through its validation schema: \<^verbatim>\<open>String.prototype.trim\<close> (behind
  \<^verbatim>\<open>z.string().trim()\<close>), \<^verbatim>\<open>Array.prototype.includes\<close>, \<^verbatim>\<open>parseFloat\<close> and
  \<^verbatim>\<open>isNaN\<close>. They are not code of the repository; they are modelled after the
  language standard so that the schema above them can be evaluated.

  \<^item> White space is the standard's \<open>StrWhiteSpaceChar\<close>: \<open>WhiteSpace\<close> (TAB, VT,
    FF, ZWNBSP and the Unicode space separators) and \<open>LineTerminator\<close>.
  \<^item> \<open>parseFloat\<close> skips leading white space and reads the longest prefix that
    is a \<open>StrDecimalLiteral\<close>; with no such prefix the result is \<open>NaN\<close>. A
    finite result is kept as sign, decimal mantissa and decimal exponent, the
    mathematical value before rounding to binary64, which is all that
    \<open>isNaN\<close> can observe.
  \<^item> The grammar \<open>StrDecimalLiteral\<close> is stated separately, as inductive
    predicates, and the recogniser is proved against it.
\<close>

section \<open>Values\<close>

text \<open>
  The values the form handles: \<^verbatim>\<open>null\<close>, \<^verbatim>\<open>undefined\<close>, strings and
  \<^verbatim>\<open>File\<close> objects. Of a \<^verbatim>\<open>File\<close> the program reads \<^verbatim>\<open>size\<close> (a byte count) and
  \<^verbatim>\<open>type\<close> (a MIME type string); \<open>fname\<close> stands for the rest of its identity.
\<close>

record jsfile =
  fname :: jsstring
  fsize :: nat
  ftype :: jsstring

datatype jsval = Null | Undefined | Str jsstring | File jsfile

definition truthy :: "jsval \<Rightarrow> bool" where
  "truthy v = (case v of Null \<Rightarrow> False | Undefined \<Rightarrow> False | Str s \<Rightarrow> s \<noteq> [] | File _ \<Rightarrow> True)"

definition isFile :: "jsval \<Rightarrow> bool" where
  "isFile v = (case v of File _ \<Rightarrow> True | _ \<Rightarrow> False)"

definition ToString :: "jsval \<Rightarrow> jsstring" where
  "ToString v =
     (case v of
        Null \<Rightarrow> js ''null''
      | Undefined \<Rightarrow> js ''undefined''
      | Str s \<Rightarrow> s
      | File _ \<Rightarrow> js ''[object File]'')"

lemmas value_defs = truthy_def isFile_def ToString_def

declare value_defs [js_defs]

lemma isFile_iff: "isFile v \<longleftrightarrow> (\<exists>f. v = File f)"
  by (cases v) (simp_all add: isFile_def)

section \<open>White space and trimming\<close>

definition isWhiteSpace :: "code_unit \<Rightarrow> bool" where
  "isWhiteSpace c \<longleftrightarrow>
     c \<in> {0x0009, 0x000B, 0x000C, 0xFEFF, 0x0020, 0x00A0, 0x1680, 0x202F, 0x205F, 0x3000}
     \<or> (0x2000 \<le> c \<and> c \<le> 0x200A)"

definition isLineTerminator :: "code_unit \<Rightarrow> bool" where
  "isLineTerminator c \<longleftrightarrow> c \<in> {0x000A, 0x000D, 0x2028, 0x2029}"

definition isStrWhiteSpaceChar :: "code_unit \<Rightarrow> bool" where
  "isStrWhiteSpaceChar c \<longleftrightarrow> isWhiteSpace c \<or> isLineTerminator c"

definition trimStart :: "jsstring \<Rightarrow> jsstring" where
  "trimStart s = dropWhile isStrWhiteSpaceChar s"

definition trimEnd :: "jsstring \<Rightarrow> jsstring" where
  "trimEnd s = strip_end isStrWhiteSpaceChar s"

definition trim :: "jsstring \<Rightarrow> jsstring" where
  "trim s = trimEnd (trimStart s)"

definition array_includes :: "'a list \<Rightarrow> 'a \<Rightarrow> bool" where
  "array_includes xs x \<longleftrightarrow> x \<in> set xs"

lemmas ws_defs = isStrWhiteSpaceChar_def isWhiteSpace_def isLineTerminator_def
lemmas trim_defs = trim_def trimStart_def trimEnd_def strip_end_def

declare ws_defs [js_defs] trim_defs [js_defs] array_includes_def [js_defs]

section \<open>Numbers read by \<open>parseFloat\<close>\<close>

datatype number = NaN | Infinity bool | Decimal bool nat int

definition isNaN :: "number \<Rightarrow> bool" where
  "isNaN n \<longleftrightarrow> n = NaN"

definition isDecimalDigit :: "code_unit \<Rightarrow> bool" where
  "isDecimalDigit c \<longleftrightarrow> 0x30 \<le> c \<and> c \<le> 0x39"

definition digitsValue :: "jsstring \<Rightarrow> nat" where
  "digitsValue ds = foldl (\<lambda>n c. 10 * n + unat (c - 0x30)) 0 ds"

definition strip_sign :: "jsstring \<Rightarrow> bool \<times> jsstring" where
  "strip_sign s =
     (case s of
        [] \<Rightarrow> (False, [])
      | c # cs \<Rightarrow> if c = 0x2D then (True, cs) else if c = 0x2B then (False, cs) else (False, s))"

definition parseExponent :: "jsstring \<Rightarrow> int" where
  "parseExponent r =
     (case r of
        [] \<Rightarrow> 0
      | c # cs \<Rightarrow>
          if c = 0x65 \<or> c = 0x45 then
            (let (neg, ds0) = strip_sign cs;
                 ds = takeWhile isDecimalDigit ds0
             in if ds = [] then 0
                else if neg then - int (digitsValue ds) else int (digitsValue ds))
          else 0)"

definition parseUnsigned :: "bool \<Rightarrow> jsstring \<Rightarrow> number" where
  "parseUnsigned neg u =
     (if prefix (js ''Infinity'') u then Infinity neg
      else
        let ip = takeWhile isDecimalDigit u;
            r1 = dropWhile isDecimalDigit u
        in (case r1 of
              [] \<Rightarrow> if ip = [] then NaN else Decimal neg (digitsValue ip) 0
            | c # r2 \<Rightarrow>
                if c = 0x2E then
                  (let fp = takeWhile isDecimalDigit r2;
                       r3 = dropWhile isDecimalDigit r2
                   in if ip = [] \<and> fp = [] then NaN
                      else Decimal neg (digitsValue (ip @ fp))
                             (parseExponent r3 - int (length fp)))
                else if ip = [] then NaN
                else Decimal neg (digitsValue ip) (parseExponent r1)))"

definition parseFloat :: "jsstring \<Rightarrow> number" where
  "parseFloat s = (let (neg, u) = strip_sign (trimStart s) in parseUnsigned neg u)"

lemmas parseFloat_defs =
  parseFloat_def parseUnsigned_def parseExponent_def strip_sign_def digitsValue_def
  isDecimalDigit_def isNaN_def

declare parseFloat_defs [js_defs]

section \<open>The grammar \<open>StrDecimalLiteral\<close>\<close>

definition DecimalDigits :: "jsstring \<Rightarrow> bool" where
  "DecimalDigits ds \<longleftrightarrow> ds \<noteq> [] \<and> (\<forall>c\<in>set ds. isDecimalDigit c)"

inductive SignedInteger :: "jsstring \<Rightarrow> bool" where
  unsigned: "DecimalDigits ds \<Longrightarrow> SignedInteger ds"
| plus: "DecimalDigits ds \<Longrightarrow> SignedInteger (0x2B # ds)"
| minus: "DecimalDigits ds \<Longrightarrow> SignedInteger (0x2D # ds)"

inductive ExponentPart_opt :: "jsstring \<Rightarrow> bool" where
  absent: "ExponentPart_opt []"
| present: "c = 0x65 \<or> c = 0x45 \<Longrightarrow> SignedInteger si \<Longrightarrow> ExponentPart_opt (c # si)"

inductive StrUnsignedDecimalLiteral :: "jsstring \<Rightarrow> bool" where
  infinity: "StrUnsignedDecimalLiteral (js ''Infinity'')"
| int_dot: "DecimalDigits ip \<Longrightarrow> fp = [] \<or> DecimalDigits fp \<Longrightarrow> ExponentPart_opt e \<Longrightarrow>
     StrUnsignedDecimalLiteral (ip @ 0x2E # fp @ e)"
| dot_frac: "DecimalDigits fp \<Longrightarrow> ExponentPart_opt e \<Longrightarrow>
     StrUnsignedDecimalLiteral (0x2E # fp @ e)"
| int_only: "DecimalDigits ip \<Longrightarrow> ExponentPart_opt e \<Longrightarrow>
     StrUnsignedDecimalLiteral (ip @ e)"

inductive StrDecimalLiteral :: "jsstring \<Rightarrow> bool" where
  unsigned: "StrUnsignedDecimalLiteral u \<Longrightarrow> StrDecimalLiteral u"
| plus: "StrUnsignedDecimalLiteral u \<Longrightarrow> StrDecimalLiteral (0x2B # u)"
| minus: "StrUnsignedDecimalLiteral u \<Longrightarrow> StrDecimalLiteral (0x2D # u)"

inductive_cases StrDecimalLiteralE: "StrDecimalLiteral p"
inductive_cases ExponentPart_optE: "ExponentPart_opt e"

section \<open>Trimming: what it removes and what it leaves\<close>

lemma isStrWhiteSpaceChar_of_char:
  "isStrWhiteSpaceChar (of_char c) \<longleftrightarrow>
     c \<in> {CHR 0x09, CHR 0x0A, CHR 0x0B, CHR 0x0C, CHR 0x0D, CHR 0x20, CHR 0xA0}"
proof -
  have lt: "unat (of_char c :: code_unit) < 256"
    by (simp add: unat_of_char16)
  have eq: "(of_char c :: code_unit) = of_char d \<longleftrightarrow> c = d" for d
    by simp
  have big: "\<not> (0x2000 \<le> (of_char c :: code_unit))"
    using lt by (simp add: word_le_nat_alt)
  have ne: "(of_char c :: code_unit) \<noteq> k" if "256 \<le> unat k" for k
    using lt that by auto
  show ?thesis
    using eq [of "CHR 0x09"] eq [of "CHR 0x0A"] eq [of "CHR 0x0B"] eq [of "CHR 0x0C"]
      eq [of "CHR 0x0D"] eq [of "CHR 0x20"] eq [of "CHR 0xA0"] big
      ne [of "0xFEFF"] ne [of "0x1680"] ne [of "0x202F"] ne [of "0x205F"] ne [of "0x3000"]
      ne [of "0x2028"] ne [of "0x2029"]
    by (simp add: ws_defs) blast
qed

lemma trim_Nil [simp]: "trim [] = []"
  by (simp add: trim_defs)

lemma trim_eq_Nil_iff: "trim s = [] \<longleftrightarrow> (\<forall>c\<in>set s. isStrWhiteSpaceChar c)"
  by (simp add: trim_def trimEnd_def trimStart_def dropWhile_all_iff)

lemma trim_decomp:
  "\<exists>l r. s = l @ trim s @ r \<and> (\<forall>c\<in>set l. isStrWhiteSpaceChar c) \<and> (\<forall>c\<in>set r. isStrWhiteSpaceChar c)"
proof -
  obtain l where l: "s = l @ trimStart s" "\<forall>c\<in>set l. isStrWhiteSpaceChar c"
    using dropWhile_decomp [of s isStrWhiteSpaceChar] by (auto simp: trimStart_def)
  obtain r where r: "trimStart s = trim s @ r" "\<forall>c\<in>set r. isStrWhiteSpaceChar c"
    using strip_end_decomp [of "trimStart s" isStrWhiteSpaceChar]
    by (auto simp: trim_def trimEnd_def)
  from l(1) r(1) have "s = l @ trim s @ r" by simp
  with l(2) r(2) show ?thesis by blast
qed

lemma trim_ends:
  assumes "trim s \<noteq> []"
  shows "\<not> isStrWhiteSpaceChar (hd (trim s))" and "\<not> isStrWhiteSpaceChar (last (trim s))"
proof -
  have comm: "trim s = dropWhile isStrWhiteSpaceChar (strip_end isStrWhiteSpaceChar s)"
    by (simp add: trim_def trimEnd_def trimStart_def dropWhile_strip_end_commute)
  from assms show "\<not> isStrWhiteSpaceChar (hd (trim s))"
    unfolding comm by (rule hd_dropWhile)
  from assms show "\<not> isStrWhiteSpaceChar (last (trim s))"
    unfolding trim_def trimEnd_def by (rule strip_end_last)
qed

lemma trim_id:
  assumes "s \<noteq> []" "\<not> isStrWhiteSpaceChar (hd s)" "\<not> isStrWhiteSpaceChar (last s)"
  shows "trim s = s"
proof -
  from assms(1,2) have "trimStart s = s"
    by (cases s) (simp_all add: trimStart_def)
  with assms(1,3) show ?thesis
    by (simp add: trim_def trimEnd_def strip_end_id)
qed

lemma trim_idem [simp]: "trim (trim s) = trim s"
proof (cases "trim s = []")
  case True
  then show ?thesis by simp
next
  case False
  then show ?thesis
    by (intro trim_id trim_ends)
qed

lemma length_trim_le: "length (trim s) \<le> length s"
proof -
  obtain l r where "s = l @ trim s @ r"
    using trim_decomp by blast
  then have "length s = length (l @ trim s @ r)"
    by (rule arg_cong)
  then show ?thesis by simp
qed

section \<open>The recogniser against the grammar\<close>

definition starts_number :: "jsstring \<Rightarrow> bool" where
  "starts_number u \<longleftrightarrow>
     prefix (js ''Infinity'') u
     \<or> (case u of [] \<Rightarrow> False
         | c # r \<Rightarrow> isDecimalDigit c \<or> (c = 0x2E \<and> (case r of [] \<Rightarrow> False | d # _ \<Rightarrow> isDecimalDigit d)))"

lemma not_digit_dot [simp]: "\<not> isDecimalDigit 0x2E"
  and not_digit_plus [simp]: "\<not> isDecimalDigit 0x2B"
  and not_digit_minus [simp]: "\<not> isDecimalDigit 0x2D"
  and not_digit_I [simp]: "\<not> isDecimalDigit 0x49"
  by (simp_all add: isDecimalDigit_def)

lemma takeWhile_digit_Nil_iff:
  "takeWhile isDecimalDigit u = [] \<longleftrightarrow> (case u of [] \<Rightarrow> True | c # _ \<Rightarrow> \<not> isDecimalDigit c)"
  by (cases u) simp_all

lemma parseUnsigned_NaN_iff: "parseUnsigned neg u = NaN \<longleftrightarrow> \<not> starts_number u"
proof (cases "prefix (js ''Infinity'') u")
  case True
  then show ?thesis by (simp add: parseUnsigned_def starts_number_def)
next
  case False
  show ?thesis
  proof (cases u)
    case Nil
    then show ?thesis by (simp add: parseUnsigned_def starts_number_def)
  next
    case (Cons c r)
    show ?thesis
    proof (cases "isDecimalDigit c")
      case True
      with Cons False show ?thesis
        by (simp add: parseUnsigned_def starts_number_def Let_def split: list.split)
    next
      case nd: False
      with Cons False show ?thesis
        by (cases r) (simp_all add: parseUnsigned_def starts_number_def Let_def)
    qed
  qed
qed

lemma DecimalDigits_hd: "DecimalDigits ds \<Longrightarrow> \<exists>d r. ds = d # r \<and> isDecimalDigit d"
  by (cases ds) (simp_all add: DecimalDigits_def)

lemma DecimalDigits_single: "isDecimalDigit d \<Longrightarrow> DecimalDigits [d]"
  by (simp add: DecimalDigits_def)

lemma StrUnsignedDecimalLiteral_nonempty: "StrUnsignedDecimalLiteral p \<Longrightarrow> p \<noteq> []"
  by (induction rule: StrUnsignedDecimalLiteral.induct) (auto simp: DecimalDigits_def)

lemma StrDecimalLiteral_nonempty: "StrDecimalLiteral p \<Longrightarrow> p \<noteq> []"
  by (induction rule: StrDecimalLiteral.induct) (auto dest: StrUnsignedDecimalLiteral_nonempty)

lemma StrUnsignedDecimalLiteral_starts:
  "StrUnsignedDecimalLiteral p \<Longrightarrow> prefix p u \<Longrightarrow> starts_number u"
proof (induction rule: StrUnsignedDecimalLiteral.induct)
  case infinity
  then show ?case by (simp add: starts_number_def)
next
  case (int_dot ip fp e)
  from \<open>DecimalDigits ip\<close> obtain d r where "ip = d # r" "isDecimalDigit d"
    using DecimalDigits_hd by blast
  with int_dot.prems show ?case
    by (cases u) (auto simp: starts_number_def)
next
  case (dot_frac fp e)
  from \<open>DecimalDigits fp\<close> obtain d r where "fp = d # r" "isDecimalDigit d"
    using DecimalDigits_hd by blast
  with dot_frac.prems show ?case
    by (cases u; cases "tl u") (auto simp: starts_number_def)
next
  case (int_only ip e)
  from \<open>DecimalDigits ip\<close> obtain d r where "ip = d # r" "isDecimalDigit d"
    using DecimalDigits_hd by blast
  with int_only.prems show ?case
    by (cases u) (auto simp: starts_number_def)
qed

lemma starts_number_literal:
  assumes "starts_number u"
  shows "\<exists>p. prefix p u \<and> StrUnsignedDecimalLiteral p"
proof (cases "prefix (js ''Infinity'') u")
  case True
  then show ?thesis
    using StrUnsignedDecimalLiteral.infinity by blast
next
  case False
  with assms obtain c r where u: "u = c # r"
    and c: "isDecimalDigit c \<or> (c = 0x2E \<and> (case r of [] \<Rightarrow> False | d # _ \<Rightarrow> isDecimalDigit d))"
    by (cases u) (auto simp: starts_number_def)
  show ?thesis
  proof (cases "isDecimalDigit c")
    case True
    then have "StrUnsignedDecimalLiteral ([c] @ [])"
      by (intro StrUnsignedDecimalLiteral.int_only DecimalDigits_single ExponentPart_opt.absent)
    with u show ?thesis
      by (intro exI [of _ "[c]"]) simp
  next
    case nd: False
    with c obtain d r' where r: "r = d # r'" and d: "isDecimalDigit d" and dot: "c = 0x2E"
      by (cases r) auto
    from d have "StrUnsignedDecimalLiteral (0x2E # [d] @ [])"
      by (intro StrUnsignedDecimalLiteral.dot_frac DecimalDigits_single ExponentPart_opt.absent)
    with u r dot show ?thesis
      by (intro exI [of _ "[0x2E, d]"]) simp
  qed
qed

lemma starts_number_iff:
  "starts_number u \<longleftrightarrow> (\<exists>p. prefix p u \<and> StrUnsignedDecimalLiteral p)"
  using StrUnsignedDecimalLiteral_starts starts_number_literal by blast

lemma starts_number_no_sign:
  "starts_number (c # u) \<Longrightarrow> c \<noteq> 0x2B \<and> c \<noteq> 0x2D"
  by (auto simp: starts_number_def)

lemma StrDecimalLiteral_starts:
  assumes "StrDecimalLiteral p" and "prefix p t"
  shows "starts_number (snd (strip_sign t))"
  using assms(1)
proof cases
  case unsigned
  with assms(2) have sn: "starts_number t"
    by (simp add: StrUnsignedDecimalLiteral_starts)
  then obtain c r where "t = c # r"
    by (cases t) (auto simp: starts_number_def)
  with sn starts_number_no_sign [of c r] show ?thesis
    by (simp add: strip_sign_def)
next
  case (plus u)
  with assms(2) obtain r where "t = 0x2B # r" "prefix u r"
    by (cases t) auto
  with plus show ?thesis
    by (simp add: strip_sign_def StrUnsignedDecimalLiteral_starts)
next
  case (minus u)
  with assms(2) obtain r where "t = 0x2D # r" "prefix u r"
    by (cases t) auto
  with minus show ?thesis
    by (simp add: strip_sign_def StrUnsignedDecimalLiteral_starts)
qed

lemma starts_number_signed_literal:
  assumes "starts_number (snd (strip_sign t))"
  shows "\<exists>p. prefix p t \<and> StrDecimalLiteral p"
proof -
  from assms obtain q where q: "prefix q (snd (strip_sign t))" "StrUnsignedDecimalLiteral q"
    using starts_number_literal by blast
  show ?thesis
  proof (cases t)
    case Nil
    with q show ?thesis
      by (auto simp: strip_sign_def intro: StrDecimalLiteral.unsigned)
  next
    case (Cons c r)
    consider "c = 0x2D" | "c = 0x2B" | "c \<noteq> 0x2D" "c \<noteq> 0x2B"
      by blast
    then show ?thesis
    proof cases
      case 1
      with Cons q have "prefix (0x2D # q) t" "StrDecimalLiteral (0x2D # q)"
        by (auto simp: strip_sign_def intro: StrDecimalLiteral.minus)
      then show ?thesis by blast
    next
      case 2
      with Cons q have "prefix (0x2B # q) t" "StrDecimalLiteral (0x2B # q)"
        by (auto simp: strip_sign_def intro: StrDecimalLiteral.plus)
      then show ?thesis by blast
    next
      case 3
      with Cons q have "prefix q t" "StrDecimalLiteral q"
        by (auto simp: strip_sign_def intro: StrDecimalLiteral.unsigned)
      then show ?thesis by blast
    qed
  qed
qed

lemma parseFloat_NaN_iff:
  "isNaN (parseFloat s) \<longleftrightarrow> \<not> (\<exists>p. prefix p (trimStart s) \<and> StrDecimalLiteral p)"
proof -
  have "isNaN (parseFloat s) \<longleftrightarrow> \<not> starts_number (snd (strip_sign (trimStart s)))"
    by (simp add: isNaN_def parseFloat_def parseUnsigned_NaN_iff split: prod.split)
  then show ?thesis
    using StrDecimalLiteral_starts starts_number_signed_literal by blast
qed

lemma parseFloat_examples:
  "parseFloat (js ''12.50'') = Decimal False 1250 (- 2)"
  "parseFloat (js ''  -3e2xyz'') = Decimal True 3 2"
  "parseFloat (js ''abc'') = NaN"
  "parseFloat (js ''.5'') = Decimal False 5 (- 1)"
  "parseFloat (js ''5.'') = Decimal False 5 0"
  "parseFloat (js ''1e'') = Decimal False 1 0"
  "parseFloat (js ''-Infinityx'') = Infinity True"
  "parseFloat (js ''.'') = NaN"
  "parseFloat (js ''+-1'') = NaN"
  by (simp_all add: parseFloat_defs trimStart_def ws_defs)

end
