(* ===== verification/Zod.thy ===== *)
theory Zod
  imports ECMAScript
begin

text \<open>
  The validation combinators that the form's schema is written with
  (\<^verbatim>\<open>import { z } from 'zod'\<close>). The library is not code of the repository; the
  combinators are modelled after its synchronous parser, as far as the schema
  of \<^verbatim>\<open>src/pages/New/index.jsx\<close> uses it:

  \<^item> a schema maps a value to a parse result: a status with the parsed value
    (\<open>OK\<close>, \<open>DIRTY\<close>, or \<open>INVALID\<close> when parsing was aborted) and the issues
    raised, in the order the library pushes them to its context;
  \<^item> \<open>z_instanceof\<close> raises a fatal issue, so the checks chained after it do
    not run on a value that failed it; \<open>z_refine\<close> raises a non-fatal issue,
    so later refinements still run and may add their own message;
  \<^item> \<open>z_string\<close> carries its checks (\<open>Trim\<close>, \<open>Min\<close>) as a list and runs them
    in order, each on the value the previous ones left;
  \<^item> \<open>z_object\<close> parses every key of its shape, prefixes the key to the path
    of the issues of that key, and merges the statuses;
  \<^item> \<open>safeParse\<close> succeeds on status \<open>OK\<close> only; \<open>flatten\<close> groups the
    messages of the issues by the first element of their path.

  The keys of objects are a type parameter \<open>'k\<close>; the schema theory supplies
  the form's four field names.
\<close>

section \<open>Issues and parse results\<close>

record 'k issue =
  path :: "'k list"
  message :: jsstring

datatype 'a parse_return = OK 'a | DIRTY 'a | INVALID

type_synonym ('k, 'a) parsed = "'a parse_return \<times> 'k issue list"
type_synonym 'k schema = "jsval \<Rightarrow> ('k, jsval) parsed"
type_synonym 'k jsobject = "('k \<times> jsval) list"

definition custom_issue :: "jsstring \<Rightarrow> 'k issue" where
  "custom_issue msg = \<lparr>path = [], message = msg\<rparr>"

definition is_OK :: "'a parse_return \<Rightarrow> bool" where
  "is_OK r = (case r of OK _ \<Rightarrow> True | _ \<Rightarrow> False)"

definition wf_parsed :: "('k, 'a) parsed \<Rightarrow> bool" where
  "wf_parsed p \<longleftrightarrow> (is_OK (fst p) \<longleftrightarrow> snd p = [])"

section \<open>Leaf schemas and refinements\<close>

definition z_instanceof :: "(jsval \<Rightarrow> bool) \<Rightarrow> jsstring \<Rightarrow> 'k schema" where
  "z_instanceof cls msg v = (if cls v then (OK v, []) else (INVALID, [custom_issue msg]))"

definition z_refine :: "'k schema \<Rightarrow> (jsval \<Rightarrow> bool) \<Rightarrow> jsstring \<Rightarrow> 'k schema" where
  "z_refine inner check msg v =
     (case inner v of
        (INVALID, iss) \<Rightarrow> (INVALID, iss)
      | (OK x, iss) \<Rightarrow> if check x then (OK x, iss) else (DIRTY x, iss @ [custom_issue msg])
      | (DIRTY x, iss) \<Rightarrow> if check x then (DIRTY x, iss) else (DIRTY x, iss @ [custom_issue msg]))"

definition z_nullable :: "'k schema \<Rightarrow> 'k schema" where
  "z_nullable inner v = (if v = Null then (OK Null, []) else inner v)"

section \<open>Strings and their checks\<close>

datatype string_check = Trim | Min nat jsstring

definition invalid_type_message :: "jsval \<Rightarrow> jsstring" where
  "invalid_type_message v =
     (case v of
        Undefined \<Rightarrow> js ''Required''
      | Null \<Rightarrow> js ''Expected string, received null''
      | File _ \<Rightarrow> js ''Expected string, received object''
      | Str _ \<Rightarrow> js ''Expected string, received string'')"

fun apply_check :: "string_check \<Rightarrow> jsstring \<times> bool \<times> 'k issue list \<Rightarrow> jsstring \<times> bool \<times> 'k issue list" where
  "apply_check Trim (s, dirty, iss) = (trim s, dirty, iss)"
| "apply_check (Min n msg) (s, dirty, iss) =
     (if length s < n then (s, True, iss @ [custom_issue msg]) else (s, dirty, iss))"

definition z_string :: "string_check list \<Rightarrow> 'k schema" where
  "z_string checks v =
     (case v of
        Str s \<Rightarrow>
          (let (s', dirty, iss) = fold apply_check checks (s, False, [])
           in (if dirty then DIRTY (Str s') else OK (Str s'), iss))
      | _ \<Rightarrow> (INVALID, [custom_issue (invalid_type_message v)]))"

section \<open>Objects\<close>

definition get :: "'k jsobject \<Rightarrow> 'k \<Rightarrow> jsval" where
  "get obj k = (case map_of obj k of None \<Rightarrow> Undefined | Some v \<Rightarrow> v)"

definition under :: "'k \<Rightarrow> 'k issue \<Rightarrow> 'k issue" where
  "under k i = i\<lparr>path := k # path i\<rparr>"

fun mergeObjectSync :: "('k \<times> bool \<times> jsval parse_return) list \<Rightarrow> 'k jsobject parse_return" where
  "mergeObjectSync [] = OK []"
| "mergeObjectSync ((k, alwaysSet, r) # ps) =
     (case r of
        INVALID \<Rightarrow> INVALID
      | OK v \<Rightarrow>
          (case mergeObjectSync ps of
             INVALID \<Rightarrow> INVALID
           | OK obj \<Rightarrow> OK (if v \<noteq> Undefined \<or> alwaysSet then (k, v) # obj else obj)
           | DIRTY obj \<Rightarrow> DIRTY (if v \<noteq> Undefined \<or> alwaysSet then (k, v) # obj else obj))
      | DIRTY v \<Rightarrow>
          (case mergeObjectSync ps of
             INVALID \<Rightarrow> INVALID
           | OK obj \<Rightarrow> DIRTY (if v \<noteq> Undefined \<or> alwaysSet then (k, v) # obj else obj)
           | DIRTY obj \<Rightarrow> DIRTY (if v \<noteq> Undefined \<or> alwaysSet then (k, v) # obj else obj)))"

definition z_object :: "('k \<times> 'k schema) list \<Rightarrow> 'k jsobject \<Rightarrow> ('k, 'k jsobject) parsed" where
  "z_object shape obj =
     (let pairs = map (\<lambda>(k, sch). (k, k \<in> fst ` set obj, sch (get obj k))) shape
      in (mergeObjectSync (map (\<lambda>(k, a, r, iss). (k, a, r)) pairs),
          concat (map (\<lambda>(k, a, r, iss). map (under k) iss) pairs)))"

section \<open>Results for the caller\<close>

datatype ('k, 'a) safe_parse = Success 'a | Failure "'k issue list"

definition safeParse :: "('i \<Rightarrow> ('k, 'a) parsed) \<Rightarrow> 'i \<Rightarrow> ('k, 'a) safe_parse" where
  "safeParse schema x = (case schema x of (OK v, iss) \<Rightarrow> Success v | (_, iss) \<Rightarrow> Failure iss)"

record 'k flattened =
  formErrors :: "jsstring list"
  fieldErrors :: "('k \<times> jsstring list) list"

fun push_field :: "'k \<Rightarrow> jsstring \<Rightarrow> ('k \<times> jsstring list) list \<Rightarrow> ('k \<times> jsstring list) list" where
  "push_field k m [] = [(k, [m])]"
| "push_field k m ((k', ms) # rest) =
     (if k = k' then (k', ms @ [m]) # rest else (k', ms) # push_field k m rest)"

definition flatten_step :: "'k flattened \<Rightarrow> 'k issue \<Rightarrow> 'k flattened" where
  "flatten_step acc sub =
     (case path sub of
        [] \<Rightarrow> acc\<lparr>formErrors := formErrors acc @ [message sub]\<rparr>
      | k # _ \<Rightarrow> acc\<lparr>fieldErrors := push_field k (message sub) (fieldErrors acc)\<rparr>)"

definition flatten :: "'k issue list \<Rightarrow> 'k flattened" where
  "flatten iss = foldl flatten_step \<lparr>formErrors = [], fieldErrors = []\<rparr> iss"

lemmas zod_leaf_defs = z_instanceof_def z_refine_def z_nullable_def z_string_def custom_issue_def
lemmas zod_object_defs = z_object_def get_def under_def
lemmas zod_result_defs = safeParse_def flatten_def flatten_step_def

declare zod_leaf_defs [zod_defs] zod_object_defs [zod_defs] zod_result_defs [zod_defs]

section \<open>Every schema reports a failure with an issue\<close>

lemma is_OK_simps [simp]:
  "is_OK (OK x)" "\<not> is_OK (DIRTY x)" "\<not> is_OK INVALID"
  by (simp_all add: is_OK_def)

lemma wf_parsed_simps [simp]:
  "wf_parsed (OK x, iss) \<longleftrightarrow> iss = []"
  "wf_parsed (DIRTY x, iss) \<longleftrightarrow> iss \<noteq> []"
  "wf_parsed (INVALID, iss) \<longleftrightarrow> iss \<noteq> []"
  by (simp_all add: wf_parsed_def)

lemma wf_instanceof: "wf_parsed (z_instanceof cls msg v)"
  by (simp add: z_instanceof_def)

lemma wf_refine: "wf_parsed (inner v) \<Longrightarrow> wf_parsed (z_refine inner check msg v)"
  by (cases "inner v"; cases "fst (inner v)") (auto simp: z_refine_def)

lemma wf_nullable: "wf_parsed (inner v) \<Longrightarrow> wf_parsed (z_nullable inner v)"
  by (simp add: z_nullable_def)

lemma fold_apply_check_wf:
  "fold apply_check checks (s, dirty, iss) = (s', dirty', iss') \<Longrightarrow>
   (dirty \<longleftrightarrow> iss \<noteq> []) \<Longrightarrow> (dirty' \<longleftrightarrow> iss' \<noteq> [])"
proof (induction checks arbitrary: s dirty iss)
  case Nil
  then show ?case by auto
next
  case (Cons c checks)
  obtain s1 d1 i1 where step: "apply_check c (s, dirty, iss) = (s1, d1, i1)"
    by (cases "apply_check c (s, dirty, iss)") auto
  with Cons.prems(2) have "d1 \<longleftrightarrow> i1 \<noteq> []"
    by (cases c) (auto split: if_splits)
  with Cons.IH [of s1 d1 i1] Cons.prems(1) step show ?case
    by simp
qed

lemma wf_string: "wf_parsed (z_string checks v :: ('k, jsval) parsed)"
proof (cases v)
  case (Str s)
  obtain s' dirty and iss :: "'k issue list"
    where f: "fold apply_check checks (s, False, []) = (s', dirty, iss)"
    by (cases "fold apply_check checks (s, False, [] :: 'k issue list)") auto
  from fold_apply_check_wf [OF f] have "dirty \<longleftrightarrow> iss \<noteq> []"
    by simp
  with Str f show ?thesis
    by (simp add: z_string_def)
qed (simp_all add: z_string_def)

section \<open>Refinements: when the check runs and what it adds\<close>

lemma z_refine_INVALID:
  "fst (inner v) = INVALID \<Longrightarrow> z_refine inner check msg v = inner v"
  by (cases "inner v") (simp add: z_refine_def)

lemma z_refine_pass:
  "fst (inner v) = OK x \<Longrightarrow> check x \<Longrightarrow> z_refine inner check msg v = inner v"
  "fst (inner v) = DIRTY x \<Longrightarrow> check x \<Longrightarrow> z_refine inner check msg v = inner v"
  by (cases "inner v"; simp add: z_refine_def)+

lemma z_refine_fail:
  "fst (inner v) = OK x \<or> fst (inner v) = DIRTY x \<Longrightarrow> \<not> check x \<Longrightarrow>
   z_refine inner check msg v = (DIRTY x, snd (inner v) @ [custom_issue msg])"
  by (cases "inner v") (auto simp: z_refine_def)

lemma z_refine_issues_prefix: "prefix (snd (inner v)) (snd (z_refine inner check msg v))"
  by (cases "inner v"; cases "fst (inner v)") (auto simp: z_refine_def)

section \<open>Objects: status and issues\<close>

lemma mergeObjectSync_INVALID_iff:
  "mergeObjectSync ps = INVALID \<longleftrightarrow> (\<exists>(k, a, r)\<in>set ps. r = INVALID)"
  by (induction ps rule: mergeObjectSync.induct)
     (auto split: parse_return.splits)

lemma mergeObjectSync_OK_iff:
  "is_OK (mergeObjectSync ps) \<longleftrightarrow> (\<forall>(k, a, r)\<in>set ps. is_OK r)"
  by (induction ps rule: mergeObjectSync.induct)
     (auto split: parse_return.splits)

lemma z_object_issues:
  "snd (z_object shape obj) = concat (map (\<lambda>(k, sch). map (under k) (snd (sch (get obj k)))) shape)"
  by (simp add: z_object_def Let_def split_def comp_def)

lemma z_object_OK_iff:
  "is_OK (fst (z_object shape obj)) \<longleftrightarrow> (\<forall>(k, sch)\<in>set shape. is_OK (fst (sch (get obj k))))"
  by (auto simp: z_object_def Let_def mergeObjectSync_OK_iff split_def)

lemma wf_object:
  assumes "\<And>k sch. (k, sch) \<in> set shape \<Longrightarrow> wf_parsed (sch (get obj k))"
  shows "wf_parsed (z_object shape obj)"
proof -
  have "snd (z_object shape obj) = [] \<longleftrightarrow> (\<forall>(k, sch)\<in>set shape. snd (sch (get obj k)) = [])"
    by (auto simp: z_object_issues)
  also have "\<dots> \<longleftrightarrow> (\<forall>(k, sch)\<in>set shape. is_OK (fst (sch (get obj k))))"
    using assms by (auto simp: wf_parsed_def)
  finally show ?thesis
    by (simp add: wf_parsed_def z_object_OK_iff)
qed

section \<open>\<open>safeParse\<close> and \<open>flatten\<close>\<close>

lemma safeParse_Success_iff: "(\<exists>x. safeParse schema v = Success x) \<longleftrightarrow> is_OK (fst (schema v))"
  by (cases "schema v"; cases "fst (schema v)") (auto simp: safeParse_def)

lemma safeParse_Failure:
  "\<not> is_OK (fst (schema v)) \<Longrightarrow> safeParse schema v = Failure (snd (schema v))"
  by (cases "schema v"; cases "fst (schema v)") (auto simp: safeParse_def)

lemma safeParse_Failure_nonempty:
  "wf_parsed (schema v) \<Longrightarrow> safeParse schema v = Failure iss \<Longrightarrow> iss \<noteq> []"
  by (cases "schema v"; cases "fst (schema v)") (auto simp: safeParse_def)

definition messages_at :: "'k \<Rightarrow> 'k issue list \<Rightarrow> jsstring list" where
  "messages_at k iss = map message (filter (\<lambda>i. path i \<noteq> [] \<and> hd (path i) = k) iss)"

lemma map_of_push_field:
  "map_of (push_field k m fe) k' =
     (if k' = k then Some ((case map_of fe k of None \<Rightarrow> [] | Some ms \<Rightarrow> ms) @ [m]) else map_of fe k')"
  by (induction fe rule: push_field.induct) auto

lemma map_of_flatten_step:
  "map_of (fieldErrors (flatten_step acc sub)) k =
     (if path sub \<noteq> [] \<and> hd (path sub) = k
      then Some ((case map_of (fieldErrors acc) k of None \<Rightarrow> [] | Some ms \<Rightarrow> ms) @ [message sub])
      else map_of (fieldErrors acc) k)"
  by (cases "path sub") (simp_all add: flatten_step_def map_of_push_field)

lemma map_of_foldl_flatten_step:
  "map_of (fieldErrors (foldl flatten_step acc iss)) k =
     (if messages_at k iss = [] then map_of (fieldErrors acc) k
      else Some ((case map_of (fieldErrors acc) k of None \<Rightarrow> [] | Some ms \<Rightarrow> ms) @ messages_at k iss))"
proof (induction iss arbitrary: acc)
  case Nil
  show ?case by (simp add: messages_at_def)
next
  case (Cons sub iss)
  show ?case
    by (simp add: Cons.IH map_of_flatten_step) (simp add: messages_at_def)
qed

lemma fieldErrors_flatten:
  "map_of (fieldErrors (flatten iss)) k =
     (if messages_at k iss = [] then None else Some (messages_at k iss))"
  by (simp add: flatten_def map_of_foldl_flatten_step)

lemma messages_at_append [simp]:
  "messages_at k (xs @ ys) = messages_at k xs @ messages_at k ys"
  by (simp add: messages_at_def)

lemma messages_at_under:
  "messages_at k (map (under k') iss) = (if k = k' then map message iss else [])"
  by (induction iss) (auto simp: messages_at_def under_def)

section \<open>The flattened error map as a list\<close>

text \<open>
  An object schema raises its issues key by key, in the order of its shape.
  On such a list \<open>flatten\<close> never finds the key of a new issue among the
  keys before the last one, so the map it builds is the list of the keys that
  have issues, each with its messages (\<open>entries\<close>).
\<close>

lemma push_field_new: "k \<notin> fst ` set fe \<Longrightarrow> push_field k m fe = fe @ [(k, [m])]"
  by (induction fe) auto

lemma push_field_last:
  "k \<notin> fst ` set fe \<Longrightarrow> push_field k m (fe @ [(k, ms)]) = fe @ [(k, ms @ [m])]"
  by (induction fe) auto

lemma flatten_step_under:
  "flatten_step acc (under k i) =
     acc\<lparr>fieldErrors := push_field k (message i) (fieldErrors acc)\<rparr>"
  by (simp add: flatten_step_def under_def)

lemma foldl_flatten_step_last:
  assumes "k \<notin> fst ` set fe"
  shows "foldl flatten_step (acc\<lparr>fieldErrors := fe @ [(k, ms)]\<rparr>) (map (under k) iss) =
    acc\<lparr>fieldErrors := fe @ [(k, ms @ map message iss)]\<rparr>"
  using assms
  by (induction iss arbitrary: ms) (simp_all add: flatten_step_under push_field_last)

lemma foldl_flatten_step_block:
  assumes "k \<notin> fst ` set (fieldErrors acc)"
  shows "foldl flatten_step acc (map (under k) iss) =
    acc\<lparr>fieldErrors := fieldErrors acc @ (if iss = [] then [] else [(k, map message iss)])\<rparr>"
proof (cases iss)
  case Nil
  then show ?thesis by simp
next
  case (Cons i iss')
  with assms foldl_flatten_step_last [OF assms, where acc = acc and ms = "[message i]" and iss = iss'] show ?thesis
    by (simp add: flatten_step_under push_field_new)
qed

definition entries :: "('k \<Rightarrow> jsstring list) \<Rightarrow> 'k list \<Rightarrow> ('k \<times> jsstring list) list" where
  "entries M ks = map (\<lambda>k. (k, M k)) (filter (\<lambda>k. M k \<noteq> []) ks)"

lemma entries_simps [simp]:
  "entries M [] = []"
  "entries M (k # ks) = (if M k = [] then entries M ks else (k, M k) # entries M ks)"
  by (simp_all add: entries_def)

lemma foldl_flatten_step_blocks:
  assumes "distinct ks" "set ks \<inter> fst ` set (fieldErrors acc) = {}"
  shows "foldl flatten_step acc (concat (map (\<lambda>k. map (under k) (I k)) ks)) =
    acc\<lparr>fieldErrors := fieldErrors acc @ entries (\<lambda>k. map message (I k)) ks\<rparr>"
  using assms
proof (induction ks arbitrary: acc)
  case Nil
  then show ?case by simp
next
  case (Cons k ks)
  let ?acc = "acc\<lparr>fieldErrors :=
      fieldErrors acc @ (if I k = [] then [] else [(k, map message (I k))])\<rparr>"
  from Cons.prems have "k \<notin> fst ` set (fieldErrors acc)"
    by auto
  then have "foldl flatten_step acc (map (under k) (I k)) = ?acc"
    by (rule foldl_flatten_step_block)
  moreover from Cons.prems have "distinct ks" "set ks \<inter> fst ` set (fieldErrors ?acc) = {}"
    by auto
  ultimately show ?case
    by (simp add: Cons.IH)
qed

lemma flatten_blocks:
  assumes "distinct ks"
  shows "flatten (concat (map (\<lambda>k. map (under k) (I k)) ks)) =
    \<lparr>formErrors = [], fieldErrors = entries (\<lambda>k. map message (I k)) ks\<rparr>"
  using foldl_flatten_step_blocks [OF assms, of "\<lparr>formErrors = [], fieldErrors = []\<rparr>" I]
  by (simp add: flatten_def)

section \<open>Well-formed error maps\<close>

text \<open>
  An error map made by \<open>flatten\<close> from the issues of an object schema has
  its keys in the order of the schema, each once, and no empty list of
  messages (\<open>errors_wf\<close>). Such a map is determined by what it holds for
  each key (\<open>entry_of\<close>).
\<close>

definition errors_wf :: "('k::linorder \<times> jsstring list) list \<Rightarrow> bool" where
  "errors_wf fe \<longleftrightarrow> sorted_wrt (<) (map fst fe) \<and> list_all (\<lambda>(k, ms). ms \<noteq> []) fe"

definition entry_of :: "('k \<times> jsstring list) list \<Rightarrow> 'k \<Rightarrow> jsstring list" where
  "entry_of fe k = (case map_of fe k of None \<Rightarrow> [] | Some ms \<Rightarrow> ms)"

lemma map_fst_entries: "map fst (entries M ks) = filter (\<lambda>k. M k \<noteq> []) ks"
  by (simp add: entries_def comp_def)

lemma errors_wf_entries: "sorted_wrt (<) ks \<Longrightarrow> errors_wf (entries M ks)"
  by (simp add: errors_wf_def map_fst_entries sorted_wrt_filter)
     (simp add: entries_def list_all_iff)

lemma errors_wf_distinct: "errors_wf fe \<Longrightarrow> distinct (map fst fe)"
  by (simp add: errors_wf_def strict_sorted_iff)

lemma entry_of_wf:
  assumes "errors_wf fe"
  shows "(k, ms) \<in> set fe \<Longrightarrow> entry_of fe k = ms" "entry_of fe k \<noteq> [] \<longleftrightarrow> k \<in> fst ` set fe"
proof -
  note d = errors_wf_distinct [OF assms]
  show "entry_of fe k = ms" if "(k, ms) \<in> set fe"
    using that d by (simp add: entry_of_def)
  show "entry_of fe k \<noteq> [] \<longleftrightarrow> k \<in> fst ` set fe"
  proof (cases "map_of fe k")
    case None
    then show ?thesis
      by (simp add: entry_of_def map_of_eq_None_iff [symmetric])
  next
    case (Some ms)
    then have "(k, ms) \<in> set fe"
      by (rule map_of_SomeD)
    with assms Some show ?thesis
      by (force simp: entry_of_def errors_wf_def list_all_iff)
  qed
qed

lemma errors_wf_entries_eq:
  assumes "errors_wf fe" "sorted_wrt (<) ks" "fst ` set fe \<subseteq> set ks"
  shows "fe = entries (entry_of fe) ks"
proof -
  have "map fst fe = filter (\<lambda>k. entry_of fe k \<noteq> []) ks"
  proof (rule sorted_distinct_set_unique)
    from assms(1) show "sorted (map fst fe)" "distinct (map fst fe)"
      by (simp_all add: errors_wf_def strict_sorted_iff)
    from assms(2) show "sorted (filter (\<lambda>k. entry_of fe k \<noteq> []) ks)"
      "distinct (filter (\<lambda>k. entry_of fe k \<noteq> []) ks)"
      by (simp_all add: strict_sorted_iff sorted_wrt_filter)
    from assms(3) show "set (map fst fe) = set (filter (\<lambda>k. entry_of fe k \<noteq> []) ks)"
      by (auto simp: entry_of_wf(2) [OF assms(1)])
  qed
  moreover have "map (\<lambda>k. (k, entry_of fe k)) (map fst fe) = fe"
    by (simp add: comp_def) (rule map_idI, auto simp: entry_of_wf(1) [OF assms(1)])
  ultimately show ?thesis
    by (simp add: entries_def)
qed

lemma errors_wf_Nil [simp]: "errors_wf []"
  by (simp add: errors_wf_def)

lemma map_of_entries:
  "k \<in> set ks \<Longrightarrow> map_of (entries M ks) k = (if M k = [] then None else Some (M k))"
  by (induction ks) (auto simp: entries_def map_of_eq_None_iff image_iff)

end
