(* ===== verification/Schema.thy ===== *)
theory Schema
  imports Zod
begin

text \<open>
  The validation schema of the form, \<^verbatim>\<open>spotSchema\<close> of
  \<^verbatim>\<open>src/pages/New/index.jsx\<close> (lines 10 to 27): the two constants, the four
  field schemas composed from the combinators of theory \<open>Zod\<close> in the order
  the code chains them, the predicates passed to \<^verbatim>\<open>refine\<close>, and the six error
  messages as the code units of the source's literals. The keys of the schema
  are linearly ordered by their position in the object literal.

  The lemmas give the result of each field schema on every input (which
  status, which messages, in which order), and of the whole object schema and
  its flattened error map in terms of the fields.
\<close>

section \<open>Constants and messages\<close>

datatype field = Thumbnail | Company | Techs | Price

text \<open>
  The keys are ordered as the object literal of lines 15 to 24 lists them;
  this is the order in which the object schema visits them and in which an
  error map holds its entries.
\<close>

fun field_index :: "field \<Rightarrow> nat" where
  "field_index Thumbnail = 0"
| "field_index Company = 1"
| "field_index Techs = 2"
| "field_index Price = 3"

lemma field_index_inj: "field_index a = field_index b \<longleftrightarrow> a = b"
  by (cases a; cases b) simp_all

instantiation field :: linorder
begin

definition less_eq_field :: "field \<Rightarrow> field \<Rightarrow> bool" where
  "less_eq_field a b \<longleftrightarrow> field_index a \<le> field_index b"

definition less_field :: "field \<Rightarrow> field \<Rightarrow> bool" where
  "less_field a b \<longleftrightarrow> field_index a < field_index b"

instance
  by standard (auto simp: less_eq_field_def less_field_def field_index_inj)

end

definition MAX_FILE_SIZE :: nat where
  "MAX_FILE_SIZE = 5 * 1024 * 1024"

definition ACCEPTED_IMAGE_TYPES :: "jsstring list" where
  "ACCEPTED_IMAGE_TYPES = [js ''image/jpeg'', js ''image/jpg'', js ''image/png'', js ''image/webp'']"

definition msg_thumbnail_required :: jsstring where
  "msg_thumbnail_required = js ''A imagem do spot '' @ 0xE9 # js '' obrigat'' @ 0xF3 # js ''ria.''"

definition msg_thumbnail_size :: jsstring where
  "msg_thumbnail_size = js ''O tamanho m'' @ 0xE1 # js ''ximo da imagem '' @ 0xE9 # js '' 5MB.''"

definition msg_thumbnail_type :: jsstring where
  "msg_thumbnail_type = js ''Apenas os formatos .jpg, .jpeg, .png e .webp s'' @ 0xE3 # js ''o aceitos.''"

definition msg_company_required :: jsstring where
  "msg_company_required = js ''O nome da empresa '' @ 0xE9 # js '' obrigat'' @ 0xF3 # js ''rio.''"

definition msg_techs_required :: jsstring where
  "msg_techs_required = js ''Informe ao menos uma tecnologia.''"

definition msg_price_invalid :: jsstring where
  "msg_price_invalid =
     js ''O valor da di'' @ 0xE1 # js ''ria deve ser um n'' @ 0xFA # js ''mero v'' @ 0xE1 # js ''lido.''"

lemmas message_defs =
  msg_thumbnail_required_def msg_thumbnail_size_def msg_thumbnail_type_def
  msg_company_required_def msg_techs_required_def msg_price_invalid_def

text \<open>The six messages are pairwise different texts.\<close>

lemma messages_distinct:
  "distinct [msg_thumbnail_required, msg_thumbnail_size, msg_thumbnail_type,
     msg_company_required, msg_techs_required, msg_price_invalid]"
  by (simp add: message_defs)

section \<open>The predicates passed to \<open>refine\<close>\<close>

text \<open>
  The two thumbnail predicates read a property of their argument. The schema
  applies them only to values that passed \<^verbatim>\<open>instanceof(File)\<close> (lemma
  \<open>thumbnail_schema_not_File\<close>), so their value on anything else is never
  observed; it is \<open>False\<close> here. The price predicate is total in the source
  as well: \<^verbatim>\<open>parseFloat\<close> converts its argument to a string first.
\<close>

definition size_within_limit :: "jsval \<Rightarrow> bool" where
  "size_within_limit v = (case v of File f \<Rightarrow> fsize f \<le> MAX_FILE_SIZE | _ \<Rightarrow> False)"

definition type_accepted :: "jsval \<Rightarrow> bool" where
  "type_accepted v = (case v of File f \<Rightarrow> array_includes ACCEPTED_IMAGE_TYPES (ftype f) | _ \<Rightarrow> False)"

definition price_is_number :: "jsval \<Rightarrow> bool" where
  "price_is_number val \<longleftrightarrow> val = Str [] \<or> \<not> isNaN (parseFloat (ToString val))"

section \<open>The field schemas and the object schema\<close>

definition thumbnail_schema :: "field schema" where
  "thumbnail_schema =
     z_nullable
       (z_refine
          (z_refine (z_instanceof isFile msg_thumbnail_required)
             size_within_limit msg_thumbnail_size)
          type_accepted msg_thumbnail_type)"

definition company_schema :: "field schema" where
  "company_schema = z_string [Trim, Min 1 msg_company_required]"

definition techs_schema :: "field schema" where
  "techs_schema = z_string [Trim, Min 1 msg_techs_required]"

definition price_schema :: "field schema" where
  "price_schema = z_refine (z_string []) price_is_number msg_price_invalid"

definition spotSchema :: "field jsobject \<Rightarrow> (field, field jsobject) parsed" where
  "spotSchema =
     z_object
       [(Thumbnail, thumbnail_schema),
        (Company, company_schema),
        (Techs, techs_schema),
        (Price, price_schema)]"

lemmas predicate_defs = size_within_limit_def type_accepted_def price_is_number_def
lemmas field_schema_defs = thumbnail_schema_def company_schema_def techs_schema_def price_schema_def

declare predicate_defs [schema_defs] field_schema_defs [schema_defs] spotSchema_def [schema_defs]

section \<open>What the thumbnail schema returns\<close>

definition thumbnail_messages :: "jsfile \<Rightarrow> jsstring list" where
  "thumbnail_messages f =
     (if fsize f \<le> MAX_FILE_SIZE then [] else [msg_thumbnail_size]) @
     (if ftype f \<in> set ACCEPTED_IMAGE_TYPES then [] else [msg_thumbnail_type])"

lemma thumbnail_schema_Null: "thumbnail_schema Null = (OK Null, [])"
  by (simp add: thumbnail_schema_def z_nullable_def)

lemma thumbnail_schema_not_File:
  "v \<noteq> Null \<Longrightarrow> \<not> isFile v \<Longrightarrow>
   thumbnail_schema v = (INVALID, [custom_issue msg_thumbnail_required])"
  by (simp add: thumbnail_schema_def z_nullable_def z_refine_def z_instanceof_def)

lemma thumbnail_schema_File:
  "thumbnail_schema (File f) =
     (if thumbnail_messages f = [] then OK (File f) else DIRTY (File f),
      map custom_issue (thumbnail_messages f))"
  by (simp add: thumbnail_schema_def z_nullable_def z_refine_def z_instanceof_def isFile_def
      predicate_defs thumbnail_messages_def array_includes_def)

lemma thumbnail_messages_Nil_iff:
  "thumbnail_messages f = [] \<longleftrightarrow> fsize f \<le> MAX_FILE_SIZE \<and> ftype f \<in> set ACCEPTED_IMAGE_TYPES"
  by (simp add: thumbnail_messages_def)

lemma wf_thumbnail_schema: "wf_parsed (thumbnail_schema v)"
  unfolding thumbnail_schema_def
  by (intro wf_nullable wf_refine wf_instanceof)

section \<open>What the text schemas return\<close>

lemma required_text_schema:
  "z_string [Trim, Min 1 msg] (Str s) =
     (if trim s = [] then (DIRTY (Str []), [custom_issue msg]) else (OK (Str (trim s)), []))"
  by (cases "trim s") (simp_all add: z_string_def)

lemma company_schema_Str:
  "company_schema (Str s) =
     (if trim s = [] then (DIRTY (Str []), [custom_issue msg_company_required])
      else (OK (Str (trim s)), []))"
  unfolding company_schema_def by (rule required_text_schema)

lemma techs_schema_Str:
  "techs_schema (Str s) =
     (if trim s = [] then (DIRTY (Str []), [custom_issue msg_techs_required])
      else (OK (Str (trim s)), []))"
  unfolding techs_schema_def by (rule required_text_schema)

lemma price_schema_Str:
  "price_schema (Str s) =
     (if s = [] \<or> \<not> isNaN (parseFloat s) then (OK (Str s), [])
      else (DIRTY (Str s), [custom_issue msg_price_invalid]))"
  by (simp add: price_schema_def z_refine_def z_string_def price_is_number_def ToString_def)

lemma wf_field_schemas:
  "wf_parsed (company_schema v)" "wf_parsed (techs_schema v)" "wf_parsed (price_schema v)"
  unfolding company_schema_def techs_schema_def price_schema_def
  by (intro wf_string wf_refine)+

section \<open>Properties of the field schemas\<close>

text \<open>Two files for the witnesses: too large and of a type that is not accepted, and small but of that type.\<close>

definition big_gif :: jsfile where
  "big_gif = \<lparr>fname = js ''spot.gif'', fsize = 6000000, ftype = js ''image/gif''\<rparr>"

definition small_gif :: jsfile where
  "small_gif = \<lparr>fname = js ''spot.gif'', fsize = 1024, ftype = js ''image/gif''\<rparr>"

text \<open>
  C4. The thumbnail schema on every input: \<^verbatim>\<open>null\<close> is accepted as it is; a
  \<^verbatim>\<open>File\<close> is accepted when it raises no message and is otherwise dirty with the
  size message, the type message, or both in this order; any other value
  (\<^verbatim>\<open>undefined\<close> after a cancelled file dialog) aborts with the single message
  that the image is required.
\<close>

theorem thumbnail_schema_result:
  "thumbnail_schema v =
     (case v of
        Null \<Rightarrow> (OK Null, [])
      | File f \<Rightarrow>
          (if thumbnail_messages f = [] then OK (File f) else DIRTY (File f),
           map custom_issue (thumbnail_messages f))
      | _ \<Rightarrow> (INVALID, [custom_issue msg_thumbnail_required]))"
  by (cases v)
     (simp_all add: thumbnail_schema_Null thumbnail_schema_File thumbnail_schema_not_File
        isFile_def)

text \<open>
  A file larger than 5 MiB always gets the size message first, whatever
  its type; the type message follows it exactly when the type is not accepted
  either, so the error list of the thumbnail can hold two messages.
\<close>

theorem oversized_thumbnail:
  assumes "MAX_FILE_SIZE < fsize f"
  shows "map message (snd (thumbnail_schema (File f))) =
     msg_thumbnail_size # (if ftype f \<in> set ACCEPTED_IMAGE_TYPES then [] else [msg_thumbnail_type])"
  using assms
  by (simp add: thumbnail_schema_File thumbnail_messages_def custom_issue_def)

theorem oversized_thumbnail_witness:
  "MAX_FILE_SIZE < fsize big_gif \<and>
   map message (snd (thumbnail_schema (File big_gif))) = [msg_thumbnail_size, msg_thumbnail_type]"
proof -
  have big: "MAX_FILE_SIZE < fsize big_gif"
    by (simp add: big_gif_def MAX_FILE_SIZE_def)
  from oversized_thumbnail [OF big] big show ?thesis
    by (simp add: big_gif_def ACCEPTED_IMAGE_TYPES_def)
qed

text \<open>
  A file within the size limit whose type is not one of the four accepted
  MIME types is rejected with exactly the type message.
\<close>

theorem unsupported_thumbnail_type:
  assumes "fsize f \<le> MAX_FILE_SIZE" and "ftype f \<notin> set ACCEPTED_IMAGE_TYPES"
  shows "thumbnail_schema (File f) = (DIRTY (File f), [custom_issue msg_thumbnail_type])"
  using assms by (simp add: thumbnail_schema_File thumbnail_messages_def)

theorem unsupported_thumbnail_type_witness:
  "thumbnail_schema (File small_gif) = (DIRTY (File small_gif), [custom_issue msg_thumbnail_type])"
  by (rule unsupported_thumbnail_type)
     (simp_all add: small_gif_def MAX_FILE_SIZE_def ACCEPTED_IMAGE_TYPES_def)

text \<open>
  The size limit is inclusive: an accepted image of exactly 5 MiB
  (5242880 bytes) passes, and one byte more is rejected with the size
  message.
\<close>

theorem size_limit_boundary:
  assumes "ftype f \<in> set ACCEPTED_IMAGE_TYPES"
  shows "thumbnail_schema (File (f\<lparr>fsize := 5242880\<rparr>)) = (OK (File (f\<lparr>fsize := 5242880\<rparr>)), []) \<and>
    thumbnail_schema (File (f\<lparr>fsize := 5242881\<rparr>)) =
      (DIRTY (File (f\<lparr>fsize := 5242881\<rparr>)), [custom_issue msg_thumbnail_size])"
  using assms by (simp add: thumbnail_schema_File thumbnail_messages_def MAX_FILE_SIZE_def)

theorem size_limit_boundary_witness:
  "thumbnail_schema (File (small_gif\<lparr>ftype := js ''image/png'', fsize := 5242881\<rparr>)) =
     (DIRTY (File (small_gif\<lparr>ftype := js ''image/png'', fsize := 5242881\<rparr>)),
      [custom_issue msg_thumbnail_size])"
  using size_limit_boundary [of "small_gif\<lparr>ftype := js ''image/png''\<rparr>"]
  by (simp add: ACCEPTED_IMAGE_TYPES_def)

text \<open>
  C11. The result of the company and of the technologies schema on every
  text, in closed form over the characters of the text: a text of white space
  only (the empty text included) is rejected with the field's one message and
  the empty value the trim check left; every other text is accepted, with no
  issue, as its trimmed value. So a text is rejected exactly when it is
  blank, and one visible character is enough to be accepted.
\<close>

theorem blank_text_rejected:
  "company_schema (Str s) =
     (if \<forall>c\<in>set s. isStrWhiteSpaceChar c
      then (DIRTY (Str []), [custom_issue msg_company_required])
      else (OK (Str (trim s)), [])) \<and>
   techs_schema (Str s) =
     (if \<forall>c\<in>set s. isStrWhiteSpaceChar c
      then (DIRTY (Str []), [custom_issue msg_techs_required])
      else (OK (Str (trim s)), []))"
  by (simp add: company_schema_Str techs_schema_Str trim_eq_Nil_iff)

theorem blank_text_rejected_witness:
  "company_schema (Str (js ''   '')) = (DIRTY (Str []), [custom_issue msg_company_required]) \<and>
   techs_schema (Str (js ''   '')) = (DIRTY (Str []), [custom_issue msg_techs_required]) \<and>
   company_schema (Str (js '' a'')) = (OK (Str (js ''a'')), []) \<and>
   techs_schema (Str (js ''b '')) = (OK (Str (js ''b'')), [])"
  using blank_text_rejected [of "js ''   ''"] blank_text_rejected [of "js '' a''"]
    blank_text_rejected [of "js ''b ''"]
  by (simp add: ws_defs trim_defs)

text \<open>
  C34. An accepted company text is returned trimmed: the parsed value is the
  input without a white-space prefix and suffix, it neither starts nor ends
  with white space, and parsing it again returns it unchanged.
\<close>

theorem accepted_text_trimmed:
  assumes "fst (company_schema (Str s)) = OK v"
  shows "\<exists>t l r. v = Str t \<and> s = l @ t @ r \<and> t \<noteq> [] \<and>
    list_all isStrWhiteSpaceChar l \<and> list_all isStrWhiteSpaceChar r \<and>
    \<not> isStrWhiteSpaceChar (hd t) \<and> \<not> isStrWhiteSpaceChar (last t) \<and>
    company_schema (Str t) = (OK (Str t), [])"
proof -
  from assms have ne: "trim s \<noteq> []" and v: "v = Str (trim s)"
    by (auto simp: company_schema_Str split: if_splits)
  obtain l r where lr: "s = l @ trim s @ r" "\<forall>c\<in>set l. isStrWhiteSpaceChar c"
      "\<forall>c\<in>set r. isStrWhiteSpaceChar c"
    using trim_decomp by blast
  from ne have "company_schema (Str (trim s)) = (OK (Str (trim s)), [])"
    by (simp add: company_schema_Str)
  with ne v lr trim_ends [OF ne] show ?thesis
    by (auto simp: list_all_iff)
qed

theorem accepted_text_trimmed_witness:
  "\<exists>t l r. Str (js ''Acme'') = Str t \<and> js ''  Acme '' = l @ t @ r \<and> t \<noteq> [] \<and>
    list_all isStrWhiteSpaceChar l \<and> list_all isStrWhiteSpaceChar r \<and>
    \<not> isStrWhiteSpaceChar (hd t) \<and> \<not> isStrWhiteSpaceChar (last t) \<and>
    company_schema (Str t) = (OK (Str t), [])"
proof -
  have "fst (company_schema (Str (js ''  Acme ''))) = OK (Str (js ''Acme''))"
    by (simp add: company_schema_Str trim_defs ws_defs)
  then show ?thesis
    by (rule accepted_text_trimmed)
qed

text \<open>
  C12. The price is accepted exactly when it is empty or, after leading white
  space, starts with a decimal literal of the language's numeric string
  grammar: the recogniser behind \<^verbatim>\<open>parseFloat\<close> agrees with the grammar.
\<close>

theorem price_accepted_iff_literal_prefix:
  "fst (price_schema (Str s)) = OK (Str s) \<longleftrightarrow>
     s = [] \<or> (\<exists>p. prefix p (trimStart s) \<and> StrDecimalLiteral p)"
  by (simp add: price_schema_Str parseFloat_NaN_iff)

text \<open>
  The price examples of the specification: the empty price and \<^verbatim>\<open>12.50\<close> are
  accepted as they are, and \<^verbatim>\<open>abc\<close> is rejected with the one price message.
\<close>

theorem price_examples:
  "price_schema (Str []) = (OK (Str []), []) \<and>
   price_schema (Str (js ''12.50'')) = (OK (Str (js ''12.50'')), []) \<and>
   price_schema (Str (js ''abc'')) = (DIRTY (Str (js ''abc'')), [custom_issue msg_price_invalid])"
  by (simp add: price_schema_Str parseFloat_defs trimStart_def ws_defs)

text \<open>
  C35. Text after a number does not make a price invalid: once a non-empty
  price is accepted, so is every extension of it.
\<close>

theorem price_accepts_trailing_text:
  assumes "price_is_number (Str s)" and "s \<noteq> []"
  shows "price_is_number (Str (s @ t))"
proof -
  from assms obtain p where p: "prefix p (trimStart s)" "StrDecimalLiteral p"
    by (auto simp: price_is_number_def ToString_def parseFloat_NaN_iff)
  from p(2) have "p \<noteq> []"
    by (rule StrDecimalLiteral_nonempty)
  with p(1) have "trimStart s \<noteq> []"
    by auto
  then have "trimStart (s @ t) = trimStart s @ t"
    by (simp add: trimStart_def dropWhile_append_nonempty)
  with p(1) have "prefix p (trimStart (s @ t))"
    by simp
  with p(2) show ?thesis
    by (auto simp: price_is_number_def ToString_def parseFloat_NaN_iff)
qed

theorem price_accepts_trailing_text_witness:
  "price_is_number (Str (js ''12'' @ js ''abc''))"
  by (rule price_accepts_trailing_text)
     (simp_all add: price_is_number_def ToString_def parseFloat_defs trimStart_def ws_defs)

section \<open>The value of an accepted price\<close>

lemma parseFloat_minus_digit:
  assumes "isDecimalDigit c"
  shows "\<exists>m e. parseFloat (0x2D # c # s) = Decimal True m e"
proof -
  from assms have c: "c \<noteq> 0x2D" "c \<noteq> 0x2B" "\<not> isStrWhiteSpaceChar c" "c \<noteq> 0x49"
    by (auto simp: isDecimalDigit_def ws_defs word_le_nat_alt)
  have "\<not> isStrWhiteSpaceChar 0x2D"
    by (simp add: ws_defs)
  then have "parseFloat (0x2D # c # s) = parseUnsigned True (c # s)"
    by (simp add: parseFloat_def trimStart_def strip_sign_def)
  moreover from assms c(4) have "\<exists>m e. parseUnsigned True (c # s) = Decimal True m e"
    by (simp add: parseUnsigned_def Let_def split: list.split)
  ultimately show ?thesis by simp
qed

lemma parseFloat_Infinity: "parseFloat (js ''Infinity'' @ s) = Infinity False"
  by (simp add: parseFloat_def trimStart_def strip_sign_def parseUnsigned_def ws_defs)

text \<open>
  C33. The schema checks that the price is a number and nothing about its
  value: every text that starts with a minus sign and a digit is accepted and
  read as a negative number or minus zero, and every text that starts with
  \<^verbatim>\<open>Infinity\<close> is accepted.
\<close>

theorem price_value_unchecked:
  assumes "isDecimalDigit c"
  shows "price_schema (Str (0x2D # c # s)) = (OK (Str (0x2D # c # s)), []) \<and>
    (\<exists>m e. parseFloat (0x2D # c # s) = Decimal True m e) \<and>
    price_schema (Str (js ''Infinity'' @ t)) = (OK (Str (js ''Infinity'' @ t)), [])"
  using parseFloat_minus_digit [OF assms, of s] parseFloat_Infinity [of t]
  by (auto simp: price_schema_Str isNaN_def simp del: js_Cons)

theorem price_value_unchecked_witness:
  "price_schema (Str (js ''-5'')) = (OK (Str (js ''-5'')), []) \<and>
   parseFloat (js ''-5'') = Decimal True 5 0 \<and>
   price_schema (Str (js ''Infinity'')) = (OK (Str (js ''Infinity'')), [])"
  using price_value_unchecked [of "0x35" "[]" "[]"]
  by (simp add: parseFloat_defs trimStart_def ws_defs)

end
