(* ===== verification/Form.thy ===== *)
theory Form
  imports Schema
begin

text \<open>
  The component \<^verbatim>\<open>New\<close> of \<^verbatim>\<open>src/pages/New/index.jsx\<close> (lines 30 to 73 and the
  event handlers of the returned form): its five state cells as a record, the
  setter of each cell, the \<^verbatim>\<open>onChange\<close> handlers as calls of the setters, and
  \<^verbatim>\<open>handleSubmit\<close>.

  \<^verbatim>\<open>handleSubmit\<close> is an \<^verbatim>\<open>async\<close> function with one \<^verbatim>\<open>await\<close>. It is modelled in two
  parts: \<open>handleSubmit\<close> is the synchronous part, from the event to the call
  of \<^verbatim>\<open>api.post\<close>, and returns the calls it makes on its surroundings, in order,
  as a list of effects; \<open>handleSubmit_resume\<close> is the part that runs when the
  awaited request settles. The value read from \<^verbatim>\<open>localStorage\<close> is an argument.
  A request body is the list of entries of the \<^verbatim>\<open>FormData\<close> object, in append
  order.
\<close>

section \<open>State cells and change handlers\<close>

record form_state =
  thumbnail :: jsval
  company :: jsstring
  techs :: jsstring
  price :: jsstring
  errors :: "(field \<times> jsstring list) list"

definition initial_state :: form_state where
  "initial_state = \<lparr>thumbnail = Null, company = [], techs = [], price = [], errors = []\<rparr>"

definition first_file :: "jsfile list \<Rightarrow> jsval" where
  "first_file files = (case files of [] \<Rightarrow> Undefined | f # _ \<Rightarrow> File f)"

definition setThumbnail :: "jsval \<Rightarrow> form_state \<Rightarrow> form_state" where
  "setThumbnail v s = s\<lparr>thumbnail := v\<rparr>"

definition setCompany :: "jsstring \<Rightarrow> form_state \<Rightarrow> form_state" where
  "setCompany v s = s\<lparr>company := v\<rparr>"

definition setTechs :: "jsstring \<Rightarrow> form_state \<Rightarrow> form_state" where
  "setTechs v s = s\<lparr>techs := v\<rparr>"

definition setPrice :: "jsstring \<Rightarrow> form_state \<Rightarrow> form_state" where
  "setPrice v s = s\<lparr>price := v\<rparr>"

definition setErrors :: "(field \<times> jsstring list) list \<Rightarrow> form_state \<Rightarrow> form_state" where
  "setErrors fe s = s\<lparr>errors := fe\<rparr>"

lemmas setter_defs = setThumbnail_def setCompany_def setTechs_def setPrice_def setErrors_def

declare setter_defs [simp]

definition onChange_thumbnail :: "jsfile list \<Rightarrow> form_state \<Rightarrow> form_state" where
  "onChange_thumbnail files s = setThumbnail (first_file files) s"

definition onChange_company :: "jsstring \<Rightarrow> form_state \<Rightarrow> form_state" where
  "onChange_company v s = setCompany v s"

definition onChange_techs :: "jsstring \<Rightarrow> form_state \<Rightarrow> form_state" where
  "onChange_techs v s = setTechs v s"

definition onChange_price :: "jsstring \<Rightarrow> form_state \<Rightarrow> form_state" where
  "onChange_price v s = setPrice v s"

lemmas onChange_defs =
  onChange_thumbnail_def onChange_company_def onChange_techs_def onChange_price_def first_file_def

section \<open>Requests\<close>

datatype part = FilePart jsfile | TextPart jsstring

type_synonym form_data = "(jsstring \<times> part) list"

definition append_entry :: "jsstring \<Rightarrow> jsval \<Rightarrow> form_data \<Rightarrow> form_data" where
  "append_entry name v data =
     data @ [(name, case v of File f \<Rightarrow> FilePart f | _ \<Rightarrow> TextPart (ToString v))]"

record request =
  url :: jsstring
  body :: form_data
  headers :: "(jsstring \<times> jsstring option) list"

datatype effect =
    PreventDefault
  | SetErrors "(field \<times> jsstring list) list"
  | Post request
  | Navigate jsstring

section \<open>The submit handler\<close>

definition formData :: "form_state \<Rightarrow> field jsobject" where
  "formData s =
     [(Thumbnail, thumbnail s), (Company, Str (company s)),
      (Techs, Str (techs s)), (Price, Str (price s))]"

definition validation :: "form_state \<Rightarrow> (field, field jsobject) safe_parse" where
  "validation s = safeParse spotSchema (formData s)"

definition build_data :: "form_state \<Rightarrow> form_data" where
  "build_data s =
     append_entry (js ''price'') (Str (price s))
       (append_entry (js ''techs'') (Str (techs s))
          (append_entry (js ''company'') (Str (company s))
             (append_entry (js ''thumbnail'') (thumbnail s) [])))"

definition spot_request :: "jsstring option \<Rightarrow> form_state \<Rightarrow> request" where
  "spot_request user_id s =
     \<lparr>url = js ''/spots'', body = build_data s, headers = [(js ''user_id'', user_id)]\<rparr>"

definition handleSubmit :: "jsstring option \<Rightarrow> form_state \<Rightarrow> effect list" where
  "handleSubmit user s =
     PreventDefault #
     (case validation s of
        Failure iss \<Rightarrow> [SetErrors (fieldErrors (flatten iss))]
      | Success _ \<Rightarrow> [SetErrors [], Post (spot_request user s)])"

definition handleSubmit_resume :: "bool \<Rightarrow> effect list" where
  "handleSubmit_resume fulfilled = (if fulfilled then [Navigate (js ''/dashboard'')] else [])"

lemmas submit_defs =
  handleSubmit_def handleSubmit_resume_def validation_def formData_def spot_request_def
  build_data_def append_entry_def

declare onChange_defs [form_defs] submit_defs [form_defs] initial_state_def [form_defs]

section \<open>Validation in terms of the four fields\<close>

definition thumbnail_ok :: "jsval \<Rightarrow> bool" where
  "thumbnail_ok v \<longleftrightarrow>
     v = Null \<or> (\<exists>f. v = File f \<and> fsize f \<le> MAX_FILE_SIZE \<and> ftype f \<in> set ACCEPTED_IMAGE_TYPES)"

definition text_ok :: "jsstring \<Rightarrow> bool" where
  "text_ok s \<longleftrightarrow> trim s \<noteq> []"

definition price_ok :: "jsstring \<Rightarrow> bool" where
  "price_ok s \<longleftrightarrow> s = [] \<or> \<not> isNaN (parseFloat s)"

definition field_messages :: "form_state \<Rightarrow> field \<Rightarrow> jsstring list" where
  "field_messages s k =
     (case k of
        Thumbnail \<Rightarrow>
          (case thumbnail s of
             Null \<Rightarrow> []
           | File f \<Rightarrow> thumbnail_messages f
           | _ \<Rightarrow> [msg_thumbnail_required])
      | Company \<Rightarrow> if text_ok (company s) then [] else [msg_company_required]
      | Techs \<Rightarrow> if text_ok (techs s) then [] else [msg_techs_required]
      | Price \<Rightarrow> if price_ok (price s) then [] else [msg_price_invalid])"

lemmas field_ok_defs = thumbnail_ok_def text_ok_def price_ok_def

lemma get_formData [simp]:
  "get (formData s) Thumbnail = thumbnail s"
  "get (formData s) Company = Str (company s)"
  "get (formData s) Techs = Str (techs s)"
  "get (formData s) Price = Str (price s)"
  by (simp_all add: get_def formData_def)

lemma thumbnail_schema_issues:
  "map message (snd (thumbnail_schema (thumbnail s))) = field_messages s Thumbnail"
  by (cases "thumbnail s")
     (simp_all add: field_messages_def thumbnail_schema_Null thumbnail_schema_File
        thumbnail_schema_not_File isFile_def custom_issue_def comp_def)

lemma text_schema_issues:
  "map message (snd (company_schema (Str (company s)))) = field_messages s Company"
  "map message (snd (techs_schema (Str (techs s)))) = field_messages s Techs"
  "map message (snd (price_schema (Str (price s)))) = field_messages s Price"
  by (simp_all add: field_messages_def company_schema_Str techs_schema_Str price_schema_Str
      field_ok_defs custom_issue_def)

lemma spotSchema_issues:
  "messages_at k (snd (spotSchema (formData s))) = field_messages s k"
  by (cases k)
     (simp_all add: spotSchema_def z_object_issues messages_at_under
        thumbnail_schema_issues text_schema_issues)

lemma field_messages_Nil_iff:
  "field_messages s Thumbnail = [] \<longleftrightarrow> thumbnail_ok (thumbnail s)"
  "field_messages s Company = [] \<longleftrightarrow> text_ok (company s)"
  "field_messages s Techs = [] \<longleftrightarrow> text_ok (techs s)"
  "field_messages s Price = [] \<longleftrightarrow> price_ok (price s)"
  by (auto simp: field_messages_def thumbnail_ok_def thumbnail_messages_Nil_iff
      split: jsval.splits)

lemma wf_spotSchema: "wf_parsed (spotSchema obj)"
  unfolding spotSchema_def
  by (rule wf_object) (auto simp: wf_thumbnail_schema wf_field_schemas)

lemma spotSchema_issues_Nil_iff:
  "snd (spotSchema (formData s)) = [] \<longleftrightarrow> (\<forall>k. field_messages s k = [])"
proof -
  have "snd (spotSchema (formData s)) = [] \<longleftrightarrow>
      snd (thumbnail_schema (thumbnail s)) = [] \<and> snd (company_schema (Str (company s))) = []
      \<and> snd (techs_schema (Str (techs s))) = [] \<and> snd (price_schema (Str (price s))) = []"
    by (simp add: spotSchema_def z_object_issues)
  also have "\<dots> \<longleftrightarrow> field_messages s Thumbnail = [] \<and> field_messages s Company = []
      \<and> field_messages s Techs = [] \<and> field_messages s Price = []"
    by (simp add: thumbnail_schema_issues [symmetric] text_schema_issues [symmetric])
  also have "\<dots> \<longleftrightarrow> (\<forall>k. field_messages s k = [])"
    by (metis field.exhaust)
  finally show ?thesis .
qed

lemma validation_Success_iff:
  "(\<exists>d. validation s = Success d) \<longleftrightarrow> (\<forall>k. field_messages s k = [])"
proof -
  have "(\<exists>d. validation s = Success d) \<longleftrightarrow> is_OK (fst (spotSchema (formData s)))"
    by (simp add: validation_def safeParse_Success_iff)
  also have "\<dots> \<longleftrightarrow> snd (spotSchema (formData s)) = []"
    using wf_spotSchema [of "formData s"] by (simp add: wf_parsed_def)
  finally show ?thesis
    by (simp add: spotSchema_issues_Nil_iff)
qed

lemma validation_Failure:
  assumes "validation s = Failure iss"
  shows "messages_at k iss = field_messages s k" and "\<exists>k. field_messages s k \<noteq> []"
proof -
  from assms have nok: "\<not> is_OK (fst (spotSchema (formData s)))"
    by (auto simp: validation_def safeParse_def split: prod.splits parse_return.splits)
  with assms have "iss = snd (spotSchema (formData s))"
    by (simp add: validation_def safeParse_Failure)
  then show "messages_at k iss = field_messages s k"
    by (simp add: spotSchema_issues)
  from nok have "snd (spotSchema (formData s)) \<noteq> []"
    using wf_spotSchema [of "formData s"] by (simp add: wf_parsed_def)
  then show "\<exists>k. field_messages s k \<noteq> []"
    by (simp add: spotSchema_issues_Nil_iff)
qed

lemma validation_cases:
  obtains (valid) d where "validation s = Success d" "\<forall>k. field_messages s k = []"
  | (invalid) iss where "validation s = Failure iss" "\<forall>k. messages_at k iss = field_messages s k"
      "\<exists>k. field_messages s k \<noteq> []"
proof (cases "validation s")
  case (Success d)
  with validation_Success_iff [of s] valid show ?thesis by blast
next
  case (Failure iss)
  with validation_Failure [of s iss] invalid show ?thesis by blast
qed

lemma key_in_formData [simp]: "k \<in> fst ` set (formData s)"
  by (cases k) (simp_all add: formData_def)

lemma fields_ok_iff:
  "(\<forall>k. field_messages s k = []) \<longleftrightarrow>
   thumbnail_ok (thumbnail s) \<and> text_ok (company s) \<and> text_ok (techs s) \<and> price_ok (price s)"
  using field_messages_Nil_iff [of s] by (metis field.exhaust)

section \<open>The error map in closed form\<close>

text \<open>
  The flattened error map of a failed validation, as a list: the fields in the
  order of the schema, each failing field with its messages, the passing
  fields left out.
\<close>

definition all_fields :: "field list" where
  "all_fields = [Thumbnail, Company, Techs, Price]"

definition error_entries :: "form_state \<Rightarrow> (field \<times> jsstring list) list" where
  "error_entries s = entries (field_messages s) all_fields"

lemma spotSchema_blocks:
  "snd (spotSchema (formData s)) =
     concat (map (\<lambda>k. map (under k)
       (case k of
          Thumbnail \<Rightarrow> snd (thumbnail_schema (thumbnail s))
        | Company \<Rightarrow> snd (company_schema (Str (company s)))
        | Techs \<Rightarrow> snd (techs_schema (Str (techs s)))
        | Price \<Rightarrow> snd (price_schema (Str (price s))))) all_fields)"
  by (simp add: spotSchema_def z_object_issues all_fields_def)

lemma flatten_spotSchema:
  "fieldErrors (flatten (snd (spotSchema (formData s)))) = error_entries s"
proof -
  let ?I = "\<lambda>k. case k of
      Thumbnail \<Rightarrow> snd (thumbnail_schema (thumbnail s))
    | Company \<Rightarrow> snd (company_schema (Str (company s)))
    | Techs \<Rightarrow> snd (techs_schema (Str (techs s)))
    | Price \<Rightarrow> snd (price_schema (Str (price s)))"
  have d: "distinct all_fields"
    by (simp add: all_fields_def)
  have m: "(\<lambda>k. map message (?I k)) = field_messages s"
    by (rule ext) (simp add: thumbnail_schema_issues text_schema_issues split: field.split)
  have "fieldErrors (flatten (snd (spotSchema (formData s)))) =
      fieldErrors \<lparr>formErrors = [], fieldErrors = entries (\<lambda>k. map message (?I k)) all_fields\<rparr>"
    unfolding spotSchema_blocks by (rule arg_cong [OF flatten_blocks [OF d]])
  then show ?thesis
    by (simp only: m flattened.select_convs error_entries_def)
qed

lemma error_entries_Nil_iff: "error_entries s = [] \<longleftrightarrow> (\<forall>k. field_messages s k = [])"
proof -
  have "error_entries s = [] \<longleftrightarrow> (\<forall>k\<in>set all_fields. field_messages s k = [])"
    by (simp add: error_entries_def entries_def filter_empty_conv)
  also have "\<dots> \<longleftrightarrow> (\<forall>k. field_messages s k = [])"
    by (auto simp: all_fields_def intro: field.exhaust) (metis field.exhaust)
  finally show ?thesis .
qed

lemma all_fields_sorted: "sorted_wrt (<) all_fields" "set all_fields = UNIV"
proof -
  show "sorted_wrt (<) all_fields"
    by (simp add: all_fields_def less_field_def)
  show "set all_fields = UNIV"
  proof -
    have "k \<in> set all_fields" for k
      by (cases k) (simp_all add: all_fields_def)
    then show ?thesis by blast
  qed
qed

lemma errors_wf_error_entries: "errors_wf (error_entries f)"
  by (simp add: error_entries_def errors_wf_entries all_fields_sorted)

lemma validation_error_entries:
  "validation s = Success d \<Longrightarrow> error_entries s = []"
  "validation s = Failure iss \<Longrightarrow>
     fieldErrors (flatten iss) = error_entries s \<and> error_entries s \<noteq> []"
proof -
  assume "validation s = Success d"
  with validation_Success_iff [of s] show "error_entries s = []"
    by (simp add: error_entries_Nil_iff)
next
  assume f: "validation s = Failure iss"
  then have "iss = snd (spotSchema (formData s))"
    by (auto simp: validation_def safeParse_def split: prod.splits parse_return.splits)
  moreover from f validation_Success_iff [of s] have "error_entries s \<noteq> []"
    by (simp add: error_entries_Nil_iff)
  ultimately show "fieldErrors (flatten iss) = error_entries s \<and> error_entries s \<noteq> []"
    by (simp add: flatten_spotSchema)
qed

section \<open>The value of a successful validation\<close>

definition parsed_data :: "form_state \<Rightarrow> field jsobject" where
  "parsed_data s =
     [(Thumbnail, thumbnail s), (Company, Str (trim (company s))),
      (Techs, Str (trim (techs s))), (Price, Str (price s))]"

lemma thumbnail_schema_ok: "thumbnail_ok v \<Longrightarrow> thumbnail_schema v = (OK v, [])"
  by (auto simp: thumbnail_ok_def thumbnail_schema_Null thumbnail_schema_File
      thumbnail_messages_Nil_iff)

lemma text_schema_ok:
  "text_ok s \<Longrightarrow> company_schema (Str s) = (OK (Str (trim s)), [])"
  "text_ok s \<Longrightarrow> techs_schema (Str s) = (OK (Str (trim s)), [])"
  by (simp_all add: text_ok_def company_schema_Str techs_schema_Str)

lemma price_schema_ok: "price_ok s \<Longrightarrow> price_schema (Str s) = (OK (Str s), [])"
  by (simp add: price_ok_def price_schema_Str)

lemma validation_valid:
  assumes "thumbnail_ok (thumbnail s)" "text_ok (company s)" "text_ok (techs s)" "price_ok (price s)"
  shows "validation s = Success (parsed_data s)"
  using assms
  by (simp add: validation_def safeParse_def spotSchema_def z_object_def thumbnail_schema_ok
      text_schema_ok price_schema_ok parsed_data_def)

section \<open>Scenarios\<close>

text \<open>
  The two drafts of the specification's end-to-end scenarios: a complete draft
  with a 1 MiB JPEG and no price, and a draft with no thumbnail, empty texts
  and the price \<^verbatim>\<open>xyz\<close>. \<open>padded_draft\<close> is the first one with white space
  around the company name.
\<close>

definition valid_jpeg :: jsfile where
  "valid_jpeg = \<lparr>fname = js ''spot.jpg'', fsize = 1048576, ftype = js ''image/jpeg''\<rparr>"

definition acme_draft :: form_state where
  "acme_draft =
     \<lparr>thumbnail = File valid_jpeg, company = js ''Acme'', techs = js ''React, Node'',
      price = [], errors = []\<rparr>"

definition blank_draft :: form_state where
  "blank_draft = \<lparr>thumbnail = Null, company = [], techs = [], price = js ''xyz'', errors = []\<rparr>"

definition padded_draft :: form_state where
  "padded_draft = acme_draft\<lparr>company := js ''  Acme ''\<rparr>"

definition no_file_draft :: form_state where
  "no_file_draft = acme_draft\<lparr>thumbnail := Null\<rparr>"

lemmas scenario_defs = valid_jpeg_def acme_draft_def blank_draft_def padded_draft_def

lemma acme_fields_ok:
  "thumbnail_ok (thumbnail acme_draft)" "text_ok (company acme_draft)"
  "text_ok (techs acme_draft)" "price_ok (price acme_draft)"
  by (simp_all add: scenario_defs field_ok_defs MAX_FILE_SIZE_def ACCEPTED_IMAGE_TYPES_def
      trim_defs ws_defs)

lemma padded_fields_ok:
  "thumbnail_ok (thumbnail padded_draft)" "text_ok (company padded_draft)"
  "text_ok (techs padded_draft)" "price_ok (price padded_draft)"
  by (simp_all add: scenario_defs field_ok_defs MAX_FILE_SIZE_def ACCEPTED_IMAGE_TYPES_def
      trim_defs ws_defs)

lemma field_messages_blank:
  "field_messages blank_draft Thumbnail = []"
  "field_messages blank_draft Company = [msg_company_required]"
  "field_messages blank_draft Techs = [msg_techs_required]"
  "field_messages blank_draft Price = [msg_price_invalid]"
  by (simp_all add: field_messages_def scenario_defs field_ok_defs parseFloat_defs
      trimStart_def ws_defs)

lemma errors_update_ignored [simp]:
  "formData (s\<lparr>errors := e\<rparr>) = formData s"
  "validation (s\<lparr>errors := e\<rparr>) = validation s"
  "build_data (s\<lparr>errors := e\<rparr>) = build_data s"
  "spot_request user (s\<lparr>errors := e\<rparr>) = spot_request user s"
  by (simp_all add: formData_def validation_def build_data_def spot_request_def)

section \<open>Properties of the submit handler\<close>

text \<open>
  C1. \<open>handleSubmit\<close> on every draft: it prevents the default action, then
  either clears the error map and issues one request built from the cells,
  when no field has a message, or stores the error map and stops. The stored
  map lists the failing fields in the order thumbnail, company, technologies,
  price, each with its messages in the order of the rules.
\<close>

theorem handleSubmit_closed_form:
  "handleSubmit user s =
     PreventDefault #
     (if error_entries s = [] then [SetErrors [], Post (spot_request user s)]
      else [SetErrors (error_entries s)])"
  by (cases "validation s") (simp_all add: handleSubmit_def validation_error_entries)

theorem handleSubmit_closed_form_witness:
  "handleSubmit None blank_draft =
     [PreventDefault,
      SetErrors [(Company, [msg_company_required]), (Techs, [msg_techs_required]),
                 (Price, [msg_price_invalid])]]"
  using handleSubmit_closed_form [of None blank_draft]
  by (simp add: error_entries_def all_fields_def field_messages_blank)

text \<open>
  When at least one field fails its rule, \<open>handleSubmit\<close> prevents the
  default action, stores the flattened error map and stops: no request is
  issued. The stored map has an entry exactly for the failing fields, holding
  that field's messages in the order the schema raised them.
\<close>

theorem handleSubmit_invalid:
  assumes "field_messages s k \<noteq> []"
  shows "\<exists>fe. handleSubmit user s = [PreventDefault, SetErrors fe] \<and>
    (\<forall>k'. map_of fe k' = (if field_messages s k' = [] then None else Some (field_messages s k')))"
proof (cases s rule: validation_cases)
  case (valid d)
  with assms show ?thesis by simp
next
  case (invalid iss)
  then have "handleSubmit user s = [PreventDefault, SetErrors (fieldErrors (flatten iss))]"
    by (simp add: handleSubmit_def)
  moreover from invalid(2) have "\<forall>k'. map_of (fieldErrors (flatten iss)) k' =
      (if field_messages s k' = [] then None else Some (field_messages s k'))"
    by (simp add: fieldErrors_flatten)
  ultimately show ?thesis by blast
qed

theorem handleSubmit_invalid_witness:
  "field_messages blank_draft Price \<noteq> [] \<and>
   (\<exists>fe. handleSubmit None blank_draft = [PreventDefault, SetErrors fe] \<and>
     map_of fe Thumbnail = None \<and> map_of fe Company = Some [msg_company_required] \<and>
     map_of fe Techs = Some [msg_techs_required] \<and> map_of fe Price = Some [msg_price_invalid])"
  using handleSubmit_invalid [of blank_draft Price None]
  by (auto simp: field_messages_blank)

text \<open>
  C2. When every field passes its rule, \<open>handleSubmit\<close> prevents the default
  action, clears the error map and then issues exactly one request: a POST to
  \<^verbatim>\<open>/spots\<close> built from the state cells, with the stored user id as header.
\<close>

theorem handleSubmit_valid:
  assumes "thumbnail_ok (thumbnail s)" "text_ok (company s)" "text_ok (techs s)" "price_ok (price s)"
  shows "handleSubmit user s = [PreventDefault, SetErrors [], Post (spot_request user s)]"
  using validation_valid [OF assms] by (simp add: handleSubmit_def)

theorem handleSubmit_valid_witness:
  "handleSubmit (Some (js ''7'')) acme_draft =
     [PreventDefault, SetErrors [],
      Post \<lparr>url = js ''/spots'',
            body = [(js ''thumbnail'', FilePart valid_jpeg), (js ''company'', TextPart (js ''Acme'')),
                    (js ''techs'', TextPart (js ''React, Node'')), (js ''price'', TextPart [])],
            headers = [(js ''user_id'', Some (js ''7''))]\<rparr>]"
  using handleSubmit_valid [OF acme_fields_ok, of "Some (js ''7'')"]
  by (simp add: spot_request_def build_data_def append_entry_def acme_draft_def ToString_def)

text \<open>
  C32. Validation normalises, the request does not: for a valid draft the
  parsed data holds the company and technologies texts trimmed, while the
  request built by the handler carries the raw state cells, white space
  included.
\<close>

theorem request_carries_raw_texts:
  assumes "thumbnail_ok (thumbnail s)" "text_ok (company s)" "text_ok (techs s)" "price_ok (price s)"
  shows "\<exists>d. validation s = Success d \<and>
      get d Company = Str (trim (company s)) \<and> get d Techs = Str (trim (techs s)) \<and>
      map_of (body (spot_request user s)) (js ''company'') = Some (TextPart (company s)) \<and>
      map_of (body (spot_request user s)) (js ''techs'') = Some (TextPart (techs s))"
  using validation_valid [OF assms]
  by (simp add: parsed_data_def get_def spot_request_def build_data_def append_entry_def
      ToString_def)

theorem request_carries_raw_texts_witness:
  "\<exists>d. validation padded_draft = Success d \<and>
      get d Company = Str (js ''Acme'') \<and>
      map_of (body (spot_request None padded_draft)) (js ''company'') = Some (TextPart (js ''  Acme ''))"
  using request_carries_raw_texts [OF padded_fields_ok, of None]
  by (auto simp: scenario_defs trim_defs ws_defs)

text \<open>
  C30. A draft whose thumbnail is still \<^verbatim>\<open>null\<close> (no file was ever chosen) is not
  stopped by validation: with valid texts the handler posts it, and the
  thumbnail part of the request is the text \<^verbatim>\<open>null\<close>.
\<close>

theorem null_thumbnail_is_posted:
  assumes "thumbnail s = Null" "text_ok (company s)" "text_ok (techs s)" "price_ok (price s)"
  shows "handleSubmit user s = [PreventDefault, SetErrors [], Post (spot_request user s)] \<and>
    hd (body (spot_request user s)) = (js ''thumbnail'', TextPart (js ''null''))"
proof -
  from assms(1) have "thumbnail_ok (thumbnail s)"
    by (simp add: thumbnail_ok_def)
  from validation_valid [OF this assms(2-4)] assms(1) show ?thesis
    by (simp add: handleSubmit_def spot_request_def build_data_def append_entry_def ToString_def)
qed

theorem null_thumbnail_is_posted_witness:
  "handleSubmit None no_file_draft =
     [PreventDefault, SetErrors [], Post (spot_request None no_file_draft)] \<and>
   hd (body (spot_request None no_file_draft)) = (js ''thumbnail'', TextPart (js ''null''))"
  by (rule null_thumbnail_is_posted)
     (simp_all add: no_file_draft_def scenario_defs field_ok_defs trim_defs ws_defs)

text \<open>
  C31. A thumbnail that is neither \<^verbatim>\<open>null\<close> nor a \<^verbatim>\<open>File\<close> (the cell holds
  \<^verbatim>\<open>undefined\<close> after the file dialog was cancelled) stops the submission with
  the message that the image is required as the only thumbnail message.
\<close>

theorem missing_thumbnail_rejected:
  assumes "thumbnail s = Undefined"
  shows "\<exists>fe. handleSubmit user s = [PreventDefault, SetErrors fe] \<and>
    map_of fe Thumbnail = Some [msg_thumbnail_required]"
proof (cases s rule: validation_cases)
  case (valid d)
  with assms show ?thesis
    by (auto simp: field_messages_def dest: spec [of _ Thumbnail])
next
  case (invalid iss)
  with assms have "map_of (fieldErrors (flatten iss)) Thumbnail = Some [msg_thumbnail_required]"
    by (simp add: fieldErrors_flatten field_messages_def)
  with invalid(1) show ?thesis
    by (simp add: handleSubmit_def)
qed

theorem missing_thumbnail_rejected_witness:
  "\<exists>fe. handleSubmit None (onChange_thumbnail [] acme_draft) = [PreventDefault, SetErrors fe] \<and>
    map_of fe Thumbnail = Some [msg_thumbnail_required]"
  by (rule missing_thumbnail_rejected) (simp add: onChange_defs)

text \<open>
  The submit handler does not read the error map: its effects are the same
  whatever errors an earlier attempt stored, so submitting an unmodified draft
  again repeats the same effects.
\<close>

theorem handleSubmit_ignores_errors:
  "handleSubmit user (s\<lparr>errors := e\<rparr>) = handleSubmit user s"
  by (simp add: handleSubmit_def split: safe_parse.split)

text \<open>
  Validation is per field: changing one input leaves the messages that
  validation raises for every other field unchanged.
\<close>

theorem fields_validated_independently:
  "(k \<noteq> Thumbnail \<longrightarrow>
     messages_at k (snd (spotSchema (formData (onChange_thumbnail files s)))) =
     messages_at k (snd (spotSchema (formData s)))) \<and>
   (k \<noteq> Company \<longrightarrow>
     messages_at k (snd (spotSchema (formData (onChange_company v s)))) =
     messages_at k (snd (spotSchema (formData s)))) \<and>
   (k \<noteq> Techs \<longrightarrow>
     messages_at k (snd (spotSchema (formData (onChange_techs v s)))) =
     messages_at k (snd (spotSchema (formData s)))) \<and>
   (k \<noteq> Price \<longrightarrow>
     messages_at k (snd (spotSchema (formData (onChange_price v s)))) =
     messages_at k (snd (spotSchema (formData s))))"
  by (cases k) (simp_all add: spotSchema_issues field_messages_def onChange_defs)

theorem fields_validated_independently_witness:
  "messages_at Company (snd (spotSchema (formData (onChange_thumbnail [] acme_draft)))) =
     messages_at Company (snd (spotSchema (formData acme_draft))) \<and>
   messages_at Company (snd (spotSchema (formData (onChange_techs (js ''xyz'') acme_draft)))) =
     messages_at Company (snd (spotSchema (formData acme_draft))) \<and>
   messages_at Company (snd (spotSchema (formData (onChange_price (js ''xyz'') acme_draft)))) =
     messages_at Company (snd (spotSchema (formData acme_draft)))"
  using fields_validated_independently
    [where k = Company and files = "[]" and s = acme_draft and v = "js ''xyz''"]
  by simp

text \<open>
  A failed validation always comes with at least one issue, so the
  handler never stores an empty error map on the failure branch.
\<close>

theorem failure_has_issue:
  assumes "validation s = Failure iss"
  shows "iss \<noteq> [] \<and> fieldErrors (flatten iss) \<noteq> []"
proof -
  from validation_Failure [OF assms] obtain k where k: "messages_at k iss \<noteq> []"
    by metis
  then have "map_of (fieldErrors (flatten iss)) k \<noteq> None"
    by (simp add: fieldErrors_flatten)
  with k show ?thesis
    by (auto simp: messages_at_def)
qed

theorem failure_has_issue_witness:
  "\<exists>iss. validation blank_draft = Failure iss \<and> iss \<noteq> [] \<and> fieldErrors (flatten iss) \<noteq> []"
proof (cases blank_draft rule: validation_cases)
  case (valid d)
  then show ?thesis
    using field_messages_blank(4) by simp
next
  case (invalid iss)
  with failure_has_issue [of blank_draft iss] show ?thesis
    by simp
qed

end
