(* ===== verification/Preview.thy ===== *)
theory Preview
  imports Form
begin

text \<open>
  The preview of the chosen image (lines 39 to 41 of
  \<^verbatim>\<open>src/pages/New/index.jsx\<close>): a memoised value that depends on the thumbnail
  cell and is either \<^verbatim>\<open>null\<close> or an object URL made by
  \<^verbatim>\<open>URL.createObjectURL\<close>.

  The browser keeps a store of the object URLs of a document: every call of
  \<^verbatim>\<open>createObjectURL\<close> adds an entry that keeps the file alive until
  \<^verbatim>\<open>revokeObjectURL\<close> is called on the URL or the document goes away. The
  program never calls \<^verbatim>\<open>revokeObjectURL\<close>, so the store is a list of entries
  in creation order that only grows. A real URL ends in a fresh identifier
  chosen by the browser; here the \<open>n\<close>-th URL of the store is \<^verbatim>\<open>blob:\<close> followed
  by \<open>n\<close> in decimal, which keeps the one property the program can observe:
  each call returns a URL that no earlier call returned.

  \<^verbatim>\<open>useMemo\<close> recomputes its value when a dependency is not the same value
  (\<^verbatim>\<open>Object.is\<close>) as at the last render. Two files are the same value only
  when they are the same object, and every change event of a file input
  delivers new \<^verbatim>\<open>File\<close> objects, so a file never counts as the same as the one
  held before (\<open>same_value\<close>).
\<close>

section \<open>Decimal numerals\<close>

definition digit :: "nat \<Rightarrow> code_unit" where
  "digit d = of_nat (48 + d)"

fun decimal :: "nat \<Rightarrow> jsstring" where
  "decimal n = (if n < 10 then [digit n] else decimal (n div 10) @ [digit (n mod 10)])"

declare decimal.simps [simp del]

section \<open>The object URL store\<close>

type_synonym object_urls = "(jsstring \<times> jsfile) list"

definition blob_url :: "nat \<Rightarrow> jsstring" where
  "blob_url n = js ''blob:'' @ decimal n"

definition createObjectURL :: "jsval \<Rightarrow> object_urls \<Rightarrow> (jsstring \<times> object_urls) option" where
  "createObjectURL v urls =
     (case v of
        File f \<Rightarrow> Some (blob_url (length urls), urls @ [(blob_url (length urls), f)])
      | _ \<Rightarrow> None)"

section \<open>The memoised preview\<close>

definition same_value :: "jsval \<Rightarrow> jsval \<Rightarrow> bool" where
  "same_value a b = (case (a, b) of (File _, File _) \<Rightarrow> False | _ \<Rightarrow> a = b)"

definition preview_of :: "jsval \<Rightarrow> object_urls \<Rightarrow> (jsstring option \<times> object_urls) option" where
  "preview_of thumb urls =
     (if truthy thumb
      then (case createObjectURL thumb urls of
              None \<Rightarrow> None
            | Some (u, urls') \<Rightarrow> Some (Some u, urls'))
      else Some (None, urls))"

definition useMemo_preview ::
    "jsval \<Rightarrow> jsval \<Rightarrow> jsstring option \<Rightarrow> object_urls \<Rightarrow> (jsstring option \<times> object_urls) option" where
  "useMemo_preview old_dep dep cached urls =
     (if same_value old_dep dep then Some (cached, urls) else preview_of dep urls)"

lemmas preview_defs =
  blob_url_def createObjectURL_def same_value_def preview_of_def
  useMemo_preview_def

declare preview_defs [form_defs]

section \<open>Decimal numerals can be read back\<close>

lemma digit_value: "d < 10 \<Longrightarrow> unat (digit d - 0x30) = d"
proof -
  assume "d < 10"
  have "digit d - 0x30 = (of_nat d :: code_unit)"
    by (simp add: digit_def)
  moreover from \<open>d < 10\<close> have "unat (of_nat d :: code_unit) = d"
    by (simp add: unsigned_of_nat take_bit_nat_eq_self)
  ultimately show ?thesis by simp
qed

lemma isDecimalDigit_digit: "d < 10 \<Longrightarrow> isDecimalDigit (digit d)"
proof -
  assume "d < 10"
  then have "unat (digit d) = 48 + d"
    by (simp add: digit_def unsigned_of_nat take_bit_nat_eq_self del: of_nat_add)
  with \<open>d < 10\<close> show ?thesis
    by (simp add: isDecimalDigit_def word_le_nat_alt)
qed

lemma digitsValue_snoc: "digitsValue (ds @ [c]) = 10 * digitsValue ds + unat (c - 0x30)"
  by (simp add: digitsValue_def)

lemma digitsValue_decimal: "digitsValue (decimal n) = n"
proof (induction n rule: decimal.induct)
  case (1 n)
  show ?case
  proof (cases "n < 10")
    case True
    then show ?thesis
      using digitsValue_snoc [of "[]" "digit n"]
      by (simp add: decimal.simps [of n] digit_value digitsValue_def)
  next
    case False
    with 1 have "digitsValue (decimal (n div 10)) = n div 10"
      by simp
    with False show ?thesis
      by (simp add: decimal.simps [of n] digitsValue_snoc digit_value)
  qed
qed

lemma DecimalDigits_decimal: "DecimalDigits (decimal n)"
proof (induction n rule: decimal.induct)
  case (1 n)
  then show ?case
    by (cases "n < 10")
      (simp_all add: decimal.simps [of n] DecimalDigits_def isDecimalDigit_digit)
qed

lemma decimal_inject [simp]: "decimal m = decimal n \<longleftrightarrow> m = n"
  by (metis digitsValue_decimal)

lemma blob_url_inject [simp]: "blob_url m = blob_url n \<longleftrightarrow> m = n"
  by (simp add: blob_url_def)

section \<open>The store\<close>

definition store_wf :: "object_urls \<Rightarrow> bool" where
  "store_wf urls \<longleftrightarrow> map fst urls = map blob_url [0..<length urls]"

lemma store_wf_Nil [simp]: "store_wf []"
  by (simp add: store_wf_def)

lemma store_wf_distinct: "store_wf urls \<Longrightarrow> distinct (map fst urls)"
  by (simp add: store_wf_def distinct_map inj_on_def)

lemma createObjectURL_File:
  "createObjectURL (File f) urls = Some (blob_url (length urls), urls @ [(blob_url (length urls), f)])"
  by (simp add: createObjectURL_def)

lemma createObjectURL_None_iff: "createObjectURL v urls = None \<longleftrightarrow> \<not> isFile v"
  by (simp add: createObjectURL_def isFile_def split: jsval.split)

lemma createObjectURL_wf:
  assumes "store_wf urls" "createObjectURL v urls = Some (u, urls')"
  shows "store_wf urls'"
  using assms by (auto simp: createObjectURL_def store_wf_def split: jsval.splits)

lemma createObjectURL_fresh:
  assumes "store_wf urls" "createObjectURL v urls = Some (u, urls')"
  shows "u \<notin> fst ` set urls"
proof -
  from assms(2) have u: "u = blob_url (length urls)"
    by (auto simp: createObjectURL_def split: jsval.splits)
  from assms(1) have "fst ` set urls = blob_url ` {0..<length urls}"
    by (metis list.set_map set_upt store_wf_def)
  with u show ?thesis by auto
qed

section \<open>What the memo returns\<close>

lemma preview_of_cases:
  "preview_of Null urls = Some (None, urls)"
  "preview_of Undefined urls = Some (None, urls)"
  "preview_of (File f) urls =
     Some (Some (blob_url (length urls)), urls @ [(blob_url (length urls), f)])"
  "preview_of (Str t) urls = (if t = [] then Some (None, urls) else None)"
  by (simp_all add: preview_of_def truthy_def createObjectURL_def)

lemma useMemo_preview_first_file:
  "useMemo_preview old (first_file files) cached urls =
     (case files of
        [] \<Rightarrow> Some (if old = Undefined then cached else None, urls)
      | f # _ \<Rightarrow> Some (Some (blob_url (length urls)), urls @ [(blob_url (length urls), f)]))"
  by (cases files; cases old)
    (simp_all add: useMemo_preview_def same_value_def first_file_def preview_of_cases)

end
