(* ===== verification/Lifecycle.thy ===== *)
theory Lifecycle
  imports Preview
begin

text \<open>
  The mounted component as a state machine. The browser runs one handler at a
  time, so a run is a sequence of events, each handled to completion: a change
  of an input, a submit of the form, the settling of a request that an earlier
  submit left in flight, or a change of \<^verbatim>\<open>localStorage\<close> by other code (a
  write, the removal of a key, or the removal of all keys).

  The state holds the component's cells (\<open>form\<close>), the memoised preview and
  the object URLs created for it (\<open>preview\<close>, \<open>object_urls\<close>), the stored
  key-value pairs (\<open>storage\<close>), the requests handed to \<^verbatim>\<open>api.post\<close> that have not settled yet
  (\<open>pending\<close>), every request ever issued (\<open>posted\<close>), the calls of
  \<^verbatim>\<open>navigate\<close> (\<open>navigations\<close>), the number of rejected requests, each of
  which leaves the promise of \<^verbatim>\<open>handleSubmit\<close> rejected with no handler
  (\<open>rejections\<close>), whether a render has thrown (\<open>crashed\<close>), the effects
  performed so far in order (\<open>trace\<close>), and the page the router shows
  (\<open>place\<close>).

  A handler's effect list is performed effect by effect (\<open>perform\<close>). After a
  change of the thumbnail cell the component renders again and the memo of the
  preview is evaluated against the thumbnail of the render before
  (\<open>render_preview\<close>); a memo function that throws takes the component down.
  The code has no guard on submitting while a request is in flight, and the
  model has none.

  The router shows the form or another page. A call of \<^verbatim>\<open>navigate\<close> and the
  user leaving (\<open>Leave\<close>) take the application to another page: the instance
  of \<^verbatim>\<open>New\<close> is unmounted, its inputs and its submit button are gone and its
  cells are lost. When the user opens the form again (\<open>Return\<close>) a new
  instance is mounted, with the initial values of its cells (\<open>mount\<close>). The
  document stays the same throughout, so the object URLs and the requests in
  flight outlive the instance that made them: a request still settles and its
  handler resumes, and the \<^verbatim>\<open>navigate\<close> function it holds still works
  (the function of \<^verbatim>\<open>useNavigate\<close> does not depend on the instance being
  mounted once it has been).
\<close>

section \<open>State and events\<close>

datatype place = FormPage | Elsewhere jsstring

record system =
  form :: form_state
  preview :: "jsstring option"
  object_urls :: object_urls
  storage :: "(jsstring \<times> jsstring) list"
  pending :: "request list"
  posted :: "request list"
  navigations :: "jsstring list"
  rejections :: nat
  crashed :: bool
  trace :: "effect list"
  place :: place

datatype event =
    ChangeThumbnail "jsfile list"
  | ChangeCompany jsstring
  | ChangeTechs jsstring
  | ChangePrice jsstring
  | Submit
  | Settle nat bool
  | StorageWrite jsstring jsstring
  | StorageRemove jsstring
  | StorageClear
  | Leave jsstring
  | Return

definition initial_system :: "(jsstring \<times> jsstring) list \<Rightarrow> system" where
  "initial_system st =
     \<lparr>form = initial_state, preview = None, object_urls = [], storage = st, pending = [],
      posted = [], navigations = [], rejections = 0, crashed = False, trace = [],
      place = FormPage\<rparr>"

definition getItem :: "(jsstring \<times> jsstring) list \<Rightarrow> jsstring \<Rightarrow> jsstring option" where
  "getItem st key = map_of st key"

definition setItem :: "jsstring \<Rightarrow> jsstring \<Rightarrow> (jsstring \<times> jsstring) list \<Rightarrow> (jsstring \<times> jsstring) list" where
  "setItem key v st = (key, v) # filter (\<lambda>(k, _). k \<noteq> key) st"

definition removeItem :: "jsstring \<Rightarrow> (jsstring \<times> jsstring) list \<Rightarrow> (jsstring \<times> jsstring) list" where
  "removeItem key st = filter (\<lambda>(k, _). k \<noteq> key) st"

definition clear :: "(jsstring \<times> jsstring) list \<Rightarrow> (jsstring \<times> jsstring) list" where
  "clear st = []"

definition user_id :: "(jsstring \<times> jsstring) list \<Rightarrow> jsstring option" where
  "user_id st = getItem st (js ''user'')"

definition navigate :: "jsstring \<Rightarrow> place \<Rightarrow> place" where
  "navigate target p = Elsewhere target"

definition mounted :: "system \<Rightarrow> bool" where
  "mounted s \<longleftrightarrow> place s = FormPage \<and> \<not> crashed s"

definition mount :: "system \<Rightarrow> system" where
  "mount s =
     (case preview_of (thumbnail initial_state) (object_urls s) of
        None \<Rightarrow> s\<lparr>crashed := True\<rparr>
      | Some (p, urls) \<Rightarrow>
          s\<lparr>form := initial_state, preview := p, object_urls := urls, place := FormPage\<rparr>)"

section \<open>Performing effects and handling events\<close>

fun perform :: "effect \<Rightarrow> system \<Rightarrow> system" where
  "perform PreventDefault s = s\<lparr>trace := trace s @ [PreventDefault]\<rparr>"
| "perform (SetErrors fe) s =
     s\<lparr>form := setErrors fe (form s), trace := trace s @ [SetErrors fe]\<rparr>"
| "perform (Post r) s =
     s\<lparr>pending := pending s @ [r], posted := posted s @ [r], trace := trace s @ [Post r]\<rparr>"
| "perform (Navigate p) s =
     s\<lparr>navigations := navigations s @ [p], place := navigate p (place s),
       trace := trace s @ [Navigate p]\<rparr>"

definition run_effects :: "effect list \<Rightarrow> system \<Rightarrow> system" where
  "run_effects es s = fold perform es s"

definition render_preview :: "jsval \<Rightarrow> system \<Rightarrow> system" where
  "render_preview old_dep s =
     (case useMemo_preview old_dep (thumbnail (form s)) (preview s) (object_urls s) of
        None \<Rightarrow> s\<lparr>crashed := True\<rparr>
      | Some (p, urls) \<Rightarrow> s\<lparr>preview := p, object_urls := urls\<rparr>)"

definition remove_nth :: "nat \<Rightarrow> 'a list \<Rightarrow> 'a list" where
  "remove_nth i xs = take i xs @ drop (Suc i) xs"

definition enabled :: "system \<Rightarrow> event \<Rightarrow> bool" where
  "enabled s e =
     (case e of
        Settle i _ \<Rightarrow> i < length (pending s)
      | StorageWrite _ _ \<Rightarrow> True
      | StorageRemove _ \<Rightarrow> True
      | StorageClear \<Rightarrow> True
      | Leave _ \<Rightarrow> \<not> crashed s
      | Return \<Rightarrow> place s \<noteq> FormPage \<and> \<not> crashed s
      | _ \<Rightarrow> mounted s)"

fun step :: "system \<Rightarrow> event \<Rightarrow> system" where
  "step s (ChangeThumbnail files) =
     render_preview (thumbnail (form s)) (s\<lparr>form := onChange_thumbnail files (form s)\<rparr>)"
| "step s (ChangeCompany v) = s\<lparr>form := onChange_company v (form s)\<rparr>"
| "step s (ChangeTechs v) = s\<lparr>form := onChange_techs v (form s)\<rparr>"
| "step s (ChangePrice v) = s\<lparr>form := onChange_price v (form s)\<rparr>"
| "step s Submit = run_effects (handleSubmit (user_id (storage s)) (form s)) s"
| "step s (Settle i fulfilled) =
     run_effects (handleSubmit_resume fulfilled)
       (s\<lparr>pending := remove_nth i (pending s),
          rejections := (if fulfilled then rejections s else Suc (rejections s))\<rparr>)"
| "step s (StorageWrite key v) = s\<lparr>storage := setItem key v (storage s)\<rparr>"
| "step s (StorageRemove key) = s\<lparr>storage := removeItem key (storage s)\<rparr>"
| "step s StorageClear = s\<lparr>storage := clear (storage s)\<rparr>"
| "step s (Leave target) = s\<lparr>place := Elsewhere target\<rparr>"
| "step s Return = mount s"

declare step.simps [simp del]

fun run :: "system \<Rightarrow> event list \<Rightarrow> system option" where
  "run s [] = Some s"
| "run s (e # es) = (if enabled s e then run (step s e) es else None)"

inductive transition :: "system \<Rightarrow> event \<Rightarrow> system \<Rightarrow> bool" where
  change_thumbnail:
    "mounted s \<Longrightarrow>
     transition s (ChangeThumbnail files)
       (render_preview (thumbnail (form s)) (s\<lparr>form := onChange_thumbnail files (form s)\<rparr>))"
| change_company:
    "mounted s \<Longrightarrow>
     transition s (ChangeCompany v) (s\<lparr>form := onChange_company v (form s)\<rparr>)"
| change_techs:
    "mounted s \<Longrightarrow>
     transition s (ChangeTechs v) (s\<lparr>form := onChange_techs v (form s)\<rparr>)"
| change_price:
    "mounted s \<Longrightarrow>
     transition s (ChangePrice v) (s\<lparr>form := onChange_price v (form s)\<rparr>)"
| submit:
    "mounted s \<Longrightarrow>
     transition s Submit
       (run_effects (handleSubmit (user_id (storage s)) (form s)) s)"
| settle:
    "i < length (pending s) \<Longrightarrow>
     transition s (Settle i fulfilled)
       (run_effects (handleSubmit_resume fulfilled)
          (s\<lparr>pending := remove_nth i (pending s),
             rejections := (if fulfilled then rejections s else Suc (rejections s))\<rparr>))"
| storage_write:
    "transition s (StorageWrite key v) (s\<lparr>storage := setItem key v (storage s)\<rparr>)"
| storage_remove:
    "transition s (StorageRemove key) (s\<lparr>storage := removeItem key (storage s)\<rparr>)"
| storage_clear:
    "transition s StorageClear (s\<lparr>storage := clear (storage s)\<rparr>)"
| leave:
    "\<not> crashed s \<Longrightarrow> transition s (Leave target) (s\<lparr>place := Elsewhere target\<rparr>)"
| return:
    "place s \<noteq> FormPage \<Longrightarrow> \<not> crashed s \<Longrightarrow> transition s Return (mount s)"

inductive reachable :: "system \<Rightarrow> bool" where
  init: "reachable (initial_system st)"
| step: "reachable s \<Longrightarrow> transition s e s' \<Longrightarrow> reachable s'"

inductive_cases transition_SubmitE: "transition s Submit s'"
inductive_cases transition_SettleE: "transition s (Settle i fulfilled) s'"

lemmas lifecycle_defs =
  initial_system_def getItem_def setItem_def removeItem_def clear_def user_id_def navigate_def mounted_def mount_def
  run_effects_def remove_nth_def enabled_def render_preview_def

declare lifecycle_defs [form_defs]

section \<open>The relation and the step function agree\<close>

lemma transition_iff_step: "transition s e s' \<longleftrightarrow> enabled s e \<and> s' = step s e"
proof
  assume "transition s e s'"
  then show "enabled s e \<and> s' = step s e"
    by (induction rule: transition.induct) (simp_all add: enabled_def step.simps)
next
  assume "enabled s e \<and> s' = step s e"
  then have en: "enabled s e" and s': "s' = step s e"
    by simp_all
  show "transition s e s'"
  proof (cases e)
    case Submit
    with en have "mounted s" by (simp add: enabled_def)
    then show ?thesis unfolding s' Submit step.simps by (rule transition.submit)
  next
    case (Settle i fulfilled)
    with en have "i < length (pending s)" by (simp add: enabled_def)
    then show ?thesis unfolding s' Settle step.simps by (rule transition.settle)
  qed (use en in \<open>auto simp: s' enabled_def step.simps intro: transition.intros\<close>)
qed

lemma transition_deterministic: "transition s e t \<Longrightarrow> transition s e u \<Longrightarrow> t = u"
  by (simp add: transition_iff_step)

lemma run_append:
  "run s (es @ fs) = (case run s es of None \<Rightarrow> None | Some t \<Rightarrow> run t fs)"
  by (induction es arbitrary: s) simp_all

lemma run_reachable: "reachable s \<Longrightarrow> run s es = Some t \<Longrightarrow> reachable t"
proof (induction es arbitrary: s)
  case Nil
  then show ?case by simp
next
  case (Cons e es)
  from Cons.prems(2) have en: "enabled s e" and rest: "run (step s e) es = Some t"
    by (simp_all split: if_splits)
  from en have "transition s e (step s e)"
    by (simp add: transition_iff_step)
  with Cons.prems(1) have "reachable (step s e)"
    by (rule reachable.step)
  from this rest show ?case
    by (rule Cons.IH)
qed

lemma reachable_run: "reachable s \<Longrightarrow> \<exists>st es. run (initial_system st) es = Some s"
proof (induction rule: reachable.induct)
  case (init st)
  have "run (initial_system st) [] = Some (initial_system st)"
    by simp
  then show ?case by blast
next
  case (step s e s')
  then obtain st es where "run (initial_system st) es = Some s"
    by blast
  with step.hyps(2) have "run (initial_system st) (es @ [e]) = Some s'"
    by (simp add: run_append transition_iff_step)
  then show ?case by blast
qed

section \<open>What each event changes\<close>

lemmas step_change = step.simps(2,3,4,7,8,9,10)

lemma mount_eq: "mount s = s\<lparr>form := initial_state, preview := None, place := FormPage\<rparr>"
  by (simp add: mount_def initial_state_def preview_of_cases)

lemma step_Return: "step s Return = s\<lparr>form := initial_state, preview := None, place := FormPage\<rparr>"
  by (simp add: step.simps mount_eq)

lemma run_effects_Nil [simp]: "run_effects [] s = s"
  by (simp add: run_effects_def)

lemma run_effects_Cons [simp]: "run_effects (e # es) s = run_effects es (perform e s)"
  by (simp add: run_effects_def)

lemma step_Submit_invalid:
  assumes "validation (form s) = Failure iss"
  shows "step s Submit =
     s\<lparr>form := (form s)\<lparr>errors := fieldErrors (flatten iss)\<rparr>,
       trace := trace s @ [PreventDefault, SetErrors (fieldErrors (flatten iss))]\<rparr>"
  using assms by (simp add: step.simps handleSubmit_def)

lemma step_Submit_valid:
  assumes "validation (form s) = Success d"
  shows "step s Submit =
     (let r = spot_request (user_id (storage s)) (form s)
      in s\<lparr>form := (form s)\<lparr>errors := []\<rparr>, pending := pending s @ [r],
           posted := posted s @ [r],
           trace := trace s @ [PreventDefault, SetErrors [], Post r]\<rparr>)"
  using assms by (simp add: step.simps handleSubmit_def Let_def)

lemma step_Settle:
  "step s (Settle i True) =
     s\<lparr>pending := remove_nth i (pending s),
       navigations := navigations s @ [js ''/dashboard''],
       place := Elsewhere (js ''/dashboard''),
       trace := trace s @ [Navigate (js ''/dashboard'')]\<rparr>"
  "step s (Settle i False) =
     s\<lparr>pending := remove_nth i (pending s), rejections := Suc (rejections s)\<rparr>"
  by (simp_all add: step.simps handleSubmit_resume_def navigate_def)

lemma length_remove_nth: "i < length xs \<Longrightarrow> length (remove_nth i xs) = length xs - 1"
  by (simp add: remove_nth_def)

lemma set_remove_nth: "set (remove_nth i xs) \<subseteq> set xs"
  by (auto simp: remove_nth_def dest: in_set_takeD in_set_dropD)

lemma remove_nth_Cons [simp]:
  "remove_nth 0 (x # xs) = xs"
  "remove_nth (Suc i) (x # xs) = x # remove_nth i xs"
  by (simp_all add: remove_nth_def)

lemma remove_nth_append [simp]: "remove_nth (length xs) (xs @ [x]) = xs"
  by (simp add: remove_nth_def)

lemma step_ChangeThumbnail:
  "step s (ChangeThumbnail []) =
     s\<lparr>form := (form s)\<lparr>thumbnail := Undefined\<rparr>,
       preview := (if thumbnail (form s) = Undefined then preview s else None)\<rparr>"
  "step s (ChangeThumbnail (f # fs)) =
     s\<lparr>form := (form s)\<lparr>thumbnail := File f\<rparr>,
       preview := Some (blob_url (length (object_urls s))),
       object_urls := object_urls s @ [(blob_url (length (object_urls s)), f)]\<rparr>"
  by (simp_all add: step.simps render_preview_def onChange_thumbnail_def
        useMemo_preview_first_file)
     (simp_all add: first_file_def)

lemma step_other_frame:
  assumes "e \<noteq> Submit" "\<forall>i b. e \<noteq> Settle i b"
  shows "pending (step s e) = pending s \<and> posted (step s e) = posted s \<and>
    navigations (step s e) = navigations s \<and> rejections (step s e) = rejections s \<and>
    trace (step s e) = trace s"
proof (cases e)
  case (ChangeThumbnail files)
  then show ?thesis
    by (cases files) (simp_all add: step_ChangeThumbnail)
qed (use assms in \<open>simp_all add: step_change step_Return\<close>)

lemma step_Submit_frame [simp]:
  "preview (step s Submit) = preview s"
  "object_urls (step s Submit) = object_urls s"
  "storage (step s Submit) = storage s"
  "navigations (step s Submit) = navigations s"
  "rejections (step s Submit) = rejections s"
  "crashed (step s Submit) = crashed s"
  "place (step s Submit) = place s"
  "thumbnail (form (step s Submit)) = thumbnail (form s)"
  "company (form (step s Submit)) = company (form s)"
  "techs (form (step s Submit)) = techs (form s)"
  "price (form (step s Submit)) = price (form s)"
  by (simp_all add: step.simps handleSubmit_def split: safe_parse.split)

text \<open>
  Every submit recomputes the error map as a whole: afterwards the map has an
  entry exactly for the fields that fail their rule in the draft that was
  submitted, whatever it held before.
\<close>

lemma errors_after_Submit:
  "map_of (errors (form (step s Submit))) k =
     (if field_messages (form s) k = [] then None else Some (field_messages (form s) k))"
proof (cases "form s" rule: validation_cases)
  case (valid d)
  then show ?thesis
    by (simp add: step_Submit_valid Let_def)
next
  case (invalid iss)
  then show ?thesis
    by (simp add: step_Submit_invalid fieldErrors_flatten)
qed

lemma errors_Submit: "errors (form (step s Submit)) = error_entries (form s)"
  by (cases "validation (form s)")
     (simp_all add: step_Submit_valid step_Submit_invalid validation_error_entries Let_def)

text \<open>
  The error map changes at a submit and at a new instance only, so in every
  reachable state it is a well-formed error map.
\<close>

lemma errors_step:
  "errors (form (step s e)) =
     (case e of Submit \<Rightarrow> error_entries (form s) | Return \<Rightarrow> [] | _ \<Rightarrow> errors (form s))"
proof (cases e)
  case (ChangeThumbnail files)
  then show ?thesis
    by (cases files) (simp_all add: step_ChangeThumbnail)
next
  case (Settle i fulfilled)
  then show ?thesis
    by (cases fulfilled) (simp_all add: step_Settle)
qed (simp_all add: errors_Submit step_change step_Return onChange_defs initial_state_def)

lemma errors_wf_step: "errors_wf (errors (form s)) \<Longrightarrow> errors_wf (errors (form (step s e)))"
  by (cases e) (simp_all add: errors_step errors_wf_error_entries)

lemma reachable_errors_wf: "reachable s \<Longrightarrow> errors_wf (errors (form s))"
  by (induction rule: reachable.induct)
     (simp_all add: initial_system_def initial_state_def transition_iff_step errors_wf_step)

section \<open>The object URL store along a run\<close>

fun files_chosen :: "event list \<Rightarrow> nat" where
  "files_chosen [] = 0"
| "files_chosen (ChangeThumbnail (f # fs) # es) = Suc (files_chosen es)"
| "files_chosen (_ # es) = files_chosen es"

lemma object_urls_step:
  "object_urls (step s e) =
     object_urls s @
     (case e of
        ChangeThumbnail (f # _) \<Rightarrow> [(blob_url (length (object_urls s)), f)]
      | _ \<Rightarrow> [])"
proof (cases e)
  case (ChangeThumbnail files)
  then show ?thesis
    by (cases files) (simp_all add: step_ChangeThumbnail)
next
  case (Settle i fulfilled)
  then show ?thesis
    by (cases fulfilled) (simp_all add: step_Settle)
qed (simp_all add: step_change step_Return)

lemma files_chosen_Cons:
  "files_chosen (e # es) =
     (case e of ChangeThumbnail (f # _) \<Rightarrow> Suc (files_chosen es) | _ \<Rightarrow> files_chosen es)"
  by (cases "(e # es)" rule: files_chosen.cases) simp_all

section \<open>Requests that may be sent\<close>

definition thumbnail_part_ok :: "part \<Rightarrow> bool" where
  "thumbnail_part_ok p =
     (case p of
        FilePart f \<Rightarrow> fsize f \<le> MAX_FILE_SIZE \<and> array_includes ACCEPTED_IMAGE_TYPES (ftype f)
      | TextPart t \<Rightarrow> t = js ''null'')"

definition text_part :: "(jsstring \<Rightarrow> bool) \<Rightarrow> part \<Rightarrow> bool" where
  "text_part P p = (case p of TextPart t \<Rightarrow> P t | FilePart _ \<Rightarrow> False)"

definition request_ok :: "request \<Rightarrow> bool" where
  "request_ok r \<longleftrightarrow>
     url r = js ''/spots'' \<and> map fst (headers r) = [js ''user_id''] \<and>
     list_all2 (\<lambda>(name, p) (name', ok). name = name' \<and> ok p) (body r)
       [(js ''thumbnail'', thumbnail_part_ok), (js ''company'', text_part text_ok),
        (js ''techs'', text_part text_ok), (js ''price'', text_part price_ok)]"

lemma spot_request_ok:
  assumes "validation f = Success d"
  shows "request_ok (spot_request user f)"
proof -
  from assms have "\<forall>k. field_messages f k = []"
    using validation_Success_iff [of f] by blast
  then have "thumbnail_ok (thumbnail f)" "text_ok (company f)" "text_ok (techs f)"
      "price_ok (price f)"
    by (simp_all add: fields_ok_iff)
  then show ?thesis
    by (auto simp: request_ok_def spot_request_def build_data_def append_entry_def
        thumbnail_ok_def thumbnail_part_ok_def text_part_def array_includes_def ToString_def)
qed

section \<open>Invariants\<close>

definition thumbnail_typed :: "jsval \<Rightarrow> bool" where
  "thumbnail_typed v = (case v of Str _ \<Rightarrow> False | _ \<Rightarrow> True)"

definition memo_current :: "jsval \<Rightarrow> object_urls \<Rightarrow> jsstring option \<Rightarrow> bool" where
  "memo_current thumb urls p =
     (case thumb of
        File f \<Rightarrow> urls \<noteq> [] \<and> last urls = (blob_url (length urls - 1), f) \<and>
                 p = Some (blob_url (length urls - 1))
      | _ \<Rightarrow> p = None)"

definition preview_current :: "system \<Rightarrow> bool" where
  "preview_current s = memo_current (thumbnail (form s)) (object_urls s) (preview s)"

definition accounted :: "system \<Rightarrow> bool" where
  "accounted s \<longleftrightarrow>
     length (posted s) = length (pending s) + length (navigations s) + rejections s"

fun posts :: "effect list \<Rightarrow> request list" where
  "posts [] = []"
| "posts (Post r # es) = r # posts es"
| "posts (_ # es) = posts es"

fun navigates :: "effect list \<Rightarrow> jsstring list" where
  "navigates [] = []"
| "navigates (Navigate p # es) = p # navigates es"
| "navigates (_ # es) = navigates es"

definition invariant :: "system \<Rightarrow> bool" where
  "invariant s \<longleftrightarrow>
     thumbnail_typed (thumbnail (form s)) \<and> \<not> crashed s \<and> preview_current s \<and>
     store_wf (object_urls s) \<and> accounted s \<and> list_all request_ok (posted s) \<and>
     set (pending s) \<subseteq> set (posted s) \<and>
     list_all (\<lambda>p. p = js ''/dashboard'') (navigations s) \<and>
     posts (trace s) = posted s \<and> navigates (trace s) = navigations s"

lemma posts_append [simp]: "posts (es @ fs) = posts es @ posts fs"
  by (induction es rule: posts.induct) simp_all

lemma navigates_append [simp]: "navigates (es @ fs) = navigates es @ navigates fs"
  by (induction es rule: navigates.induct) simp_all

lemma invariant_initial: "invariant (initial_system st)"
  by (simp add: invariant_def initial_system_def initial_state_def thumbnail_typed_def
      preview_current_def memo_current_def accounted_def)

lemma memo_current_Undefined:
  "memo_current thumb urls p \<Longrightarrow> memo_current Undefined urls (if thumb = Undefined then p else None)"
  by (auto simp: memo_current_def)

lemma memo_current_File:
  "memo_current (File f) (urls @ [(blob_url (length urls), f)]) (Some (blob_url (length urls)))"
  by (simp add: memo_current_def)

lemma invariant_ChangeThumbnail:
  assumes "invariant s"
  shows "invariant (step s (ChangeThumbnail files))"
proof (cases files)
  case Nil
  with assms show ?thesis
    using memo_current_Undefined [of "thumbnail (form s)" "object_urls s" "preview s"]
    by (simp add: step_ChangeThumbnail invariant_def thumbnail_typed_def preview_current_def
        accounted_def)
next
  case (Cons f fs)
  with assms show ?thesis
    by (simp add: step_ChangeThumbnail invariant_def thumbnail_typed_def preview_current_def
        memo_current_File accounted_def store_wf_def)
qed

lemma invariant_change_text:
  assumes "invariant s"
  shows "invariant (step s (ChangeCompany v))" "invariant (step s (ChangeTechs v))"
    "invariant (step s (ChangePrice v))" "invariant (step s (StorageWrite key v))"
    "invariant (step s (StorageRemove key))" "invariant (step s StorageClear)"
    "invariant (step s (Leave target))"
  using assms
  by (simp_all add: step.simps invariant_def onChange_defs preview_current_def accounted_def)

lemma invariant_Return:
  assumes "invariant s"
  shows "invariant (step s Return)"
  using assms
  by (simp add: step_Return invariant_def initial_state_def thumbnail_typed_def
      preview_current_def memo_current_def accounted_def)

lemma invariant_Submit:
  assumes "invariant s"
  shows "invariant (step s Submit)"
proof (cases "validation (form s)")
  case (Success d)
  from spot_request_ok [OF this] assms show ?thesis
    by (auto simp: step_Submit_valid [OF Success] Let_def invariant_def preview_current_def
        accounted_def)
next
  case (Failure iss)
  with assms show ?thesis
    by (simp add: step_Submit_invalid [OF Failure] invariant_def preview_current_def
        accounted_def)
qed

lemma invariant_Settle:
  assumes "invariant s" "i < length (pending s)"
  shows "invariant (step s (Settle i fulfilled))"
proof -
  from assms(2) have "length (remove_nth i (pending s)) = length (pending s) - 1"
    by (rule length_remove_nth)
  moreover from assms(1) have "set (remove_nth i (pending s)) \<subseteq> set (posted s)"
    using set_remove_nth [of i "pending s"] by (auto simp: invariant_def)
  ultimately show ?thesis
    using assms
    by (cases fulfilled)
      (simp_all add: step_Settle invariant_def preview_current_def accounted_def)
qed

lemma invariant_step:
  assumes "invariant s" "enabled s e"
  shows "invariant (step s e)"
proof (cases e)
  case (Settle i fulfilled)
  with assms show ?thesis
    by (simp only: invariant_Settle enabled_def event.case)
qed (simp_all only: invariant_ChangeThumbnail invariant_change_text invariant_Submit
    invariant_Return assms)

lemma reachable_invariant: "reachable s \<Longrightarrow> invariant s"
proof (induction rule: reachable.induct)
  case (init st)
  show ?case by (rule invariant_initial)
next
  case (step s e s')
  then show ?case
    by (simp add: transition_iff_step invariant_step)
qed

end
