(* ===== verification/Sessions.thy ===== *)
theory Sessions
  imports Lifecycle
begin

text \<open>
  Sessions of the life cycle: the sessions of the specification's two
  scenarios, state by state, and the properties of the component over its runs,
  most of them consequences of the invariant of \<open>Lifecycle\<close>: which requests
  are sent and how they are accounted for, that rendering never throws, what
  the preview and the object URL store hold, and what the code does where the
  specification sees a gap (a second submit, a rejected request).
\<close>

section \<open>A session of the specification's first scenario\<close>

definition session0 :: system where
  "session0 = initial_system [(js ''user'', js ''7'')]"

definition fill_in :: "event list" where
  "fill_in =
     [ChangeThumbnail [valid_jpeg], ChangeCompany (js ''Acme''), ChangeTechs (js ''React, Node'')]"

definition acme_request :: request where
  "acme_request = spot_request (Some (js ''7'')) acme_draft"

definition acme_filled :: system where
  "acme_filled =
     session0\<lparr>form := acme_draft, preview := Some (blob_url 0),
       object_urls := [(blob_url 0, valid_jpeg)]\<rparr>"

definition acme_pending :: system where
  "acme_pending =
     acme_filled\<lparr>pending := [acme_request], posted := [acme_request],
       trace := [PreventDefault, SetErrors [], Post acme_request]\<rparr>"

definition acme_done :: system where
  "acme_done =
     acme_pending\<lparr>pending := [], navigations := [js ''/dashboard''],
       place := Elsewhere (js ''/dashboard''),
       trace := [PreventDefault, SetErrors [], Post acme_request, Navigate (js ''/dashboard'')]\<rparr>"

definition acme_failed :: system where
  "acme_failed = acme_pending\<lparr>pending := [], rejections := 1\<rparr>"

definition blank_filled :: system where
  "blank_filled = session0\<lparr>form := blank_draft\<rparr>"

lemmas session_defs =
  session0_def fill_in_def acme_request_def acme_filled_def acme_pending_def acme_done_def
  acme_failed_def

lemma run_fill_in: "run session0 fill_in = Some acme_filled"
  by (simp add: session_defs initial_system_def initial_state_def enabled_def mounted_def
      step_ChangeThumbnail step_change onChange_defs acme_draft_def)

lemma validation_acme: "validation (form acme_filled) = Success (parsed_data acme_draft)"
  using validation_valid [OF acme_fields_ok] by (simp add: acme_filled_def)

lemma step_acme_filled: "step acme_filled Submit = acme_pending"
  by (simp add: step_Submit_valid [OF validation_acme] Let_def)
     (simp add: session_defs initial_system_def user_id_def getItem_def acme_draft_def)

lemma step_acme_pending:
  "step acme_pending (Settle 0 True) = acme_done"
  "step acme_pending (Settle 0 False) = acme_failed"
  by (simp_all add: step_Settle remove_nth_def acme_pending_def acme_done_def acme_failed_def
      acme_filled_def session0_def initial_system_def)

lemma enabled_acme:
  "enabled acme_filled Submit" "enabled acme_pending Submit" "enabled acme_pending (Settle 0 b)"
  "enabled acme_failed Submit" "\<not> enabled acme_done Submit"
  by (simp_all add: enabled_def mounted_def session_defs initial_system_def)

lemma run_acme:
  "run session0 (fill_in @ [Submit]) = Some acme_pending"
  "run session0 (fill_in @ [Submit, Settle 0 True]) = Some acme_done"
  "run session0 (fill_in @ [Submit, Settle 0 False]) = Some acme_failed"
  by (simp_all add: run_append run_fill_in enabled_acme step_acme_filled step_acme_pending)

lemma reachable_session0: "reachable session0"
  unfolding session0_def by (rule reachable.init)

lemma reachable_acme:
  "reachable acme_filled" "reachable acme_pending" "reachable acme_done" "reachable acme_failed"
  using run_reachable [OF reachable_session0] run_fill_in run_acme by blast+

lemma run_blank: "run session0 [ChangePrice (js ''xyz'')] = Some blank_filled"
  by (simp add: blank_filled_def session0_def initial_system_def initial_state_def enabled_def
      mounted_def step_change onChange_defs blank_draft_def)

lemma validation_blank: "\<exists>iss. validation (form blank_filled) = Failure iss"
proof (cases "form blank_filled" rule: validation_cases)
  case (valid d)
  then show ?thesis
    using field_messages_blank(4) by (simp add: blank_filled_def)
next
  case (invalid iss)
  then show ?thesis by simp
qed

lemma reachable_blank: "reachable blank_filled" "reachable (step blank_filled Submit)"
proof -
  from run_reachable [OF reachable_session0 run_blank] show r: "reachable blank_filled" .
  have "transition blank_filled Submit (step blank_filled Submit)"
    by (simp add: transition_iff_step enabled_def mounted_def blank_filled_def session0_def
        initial_system_def)
  with r show "reachable (step blank_filled Submit)"
    by (rule reachable.step)
qed

lemma errors_blank_submitted:
  "errors (form (step blank_filled Submit)) =
     [(Company, [msg_company_required]), (Techs, [msg_techs_required]),
      (Price, [msg_price_invalid])]"
  by (simp add: errors_Submit blank_filled_def error_entries_def all_fields_def
      field_messages_blank)

section \<open>Properties of the life cycle\<close>

text \<open>
  C3. No request for an invalid draft is ever sent: in every reachable state,
  each request that was handed to \<^verbatim>\<open>api.post\<close> is a POST to \<^verbatim>\<open>/spots\<close> with the
  one header \<^verbatim>\<open>user_id\<close> and the four parts in order, whose thumbnail part is
  an accepted image within the size limit or the text \<^verbatim>\<open>null\<close>, whose company
  and technologies are not blank and whose price is empty or starts with a
  number; and the requests in flight are among them.
\<close>

theorem posted_requests_valid:
  assumes "reachable s"
  shows "list_all request_ok (posted s) \<and> set (pending s) \<subseteq> set (posted s)"
  using reachable_invariant [OF assms] by (simp add: invariant_def)

theorem posted_requests_valid_witness:
  "posted acme_pending = [acme_request] \<and> list_all request_ok (posted acme_pending) \<and>
   set (pending acme_pending) \<subseteq> set (posted acme_pending)"
  using posted_requests_valid [OF reachable_acme(2)] by (simp add: acme_pending_def)

text \<open>
  C6. Every request is accounted for: in every reachable state the number of
  requests sent is the number still in flight plus the number of navigations
  plus the number of rejections, every navigation goes to \<^verbatim>\<open>/dashboard\<close>, and
  the requests and navigations recorded are exactly the ones of the effect
  trace, in order. So the component navigates only after a request of its
  own was fulfilled, once per fulfilled request.
\<close>

theorem requests_accounted:
  assumes "reachable s"
  shows "length (posted s) = length (pending s) + length (navigations s) + rejections s \<and>
    list_all (\<lambda>p. p = js ''/dashboard'') (navigations s) \<and>
    posts (trace s) = posted s \<and> navigates (trace s) = navigations s"
  using reachable_invariant [OF assms] by (simp add: invariant_def accounted_def)

theorem requests_accounted_witness:
  "length (posted acme_done) = 1 \<and> pending acme_done = [] \<and> rejections acme_done = 0 \<and>
   navigations acme_done = [js ''/dashboard''] \<and> posts (trace acme_done) = posted acme_done \<and>
   navigates (trace acme_done) = navigations acme_done"
  using requests_accounted [OF reachable_acme(3)]
  by (simp add: session_defs initial_system_def)

text \<open>
  C21. Rendering never throws: in every reachable state the thumbnail cell holds
  \<^verbatim>\<open>null\<close>, \<^verbatim>\<open>undefined\<close> or a file, never a string, so the memo of the preview
  calls \<^verbatim>\<open>URL.createObjectURL\<close> only with a file and the component has not
  crashed.
\<close>

theorem render_never_throws:
  assumes "reachable s"
  shows "\<not> crashed s \<and> thumbnail_typed (thumbnail (form s)) \<and>
    preview_of (thumbnail (form s)) (object_urls s) \<noteq> None"
proof -
  from reachable_invariant [OF assms]
  have "\<not> crashed s" and typed: "thumbnail_typed (thumbnail (form s))"
    by (simp_all add: invariant_def)
  moreover from typed have "preview_of (thumbnail (form s)) (object_urls s) \<noteq> None"
    by (cases "thumbnail (form s)") (simp_all add: preview_of_cases thumbnail_typed_def)
  ultimately show ?thesis by simp
qed

theorem render_never_throws_witness:
  "\<not> crashed acme_filled \<and>
   preview_of (thumbnail (form acme_filled)) (object_urls acme_filled) =
     Some (Some (blob_url 1), [(blob_url 0, valid_jpeg), (blob_url 1, valid_jpeg)])"
  using render_never_throws [OF reachable_acme(1)]
  by (simp add: acme_filled_def acme_draft_def preview_of_cases)

text \<open>
  C24. The preview follows the thumbnail: in every reachable state the preview
  is \<^verbatim>\<open>null\<close> when the thumbnail cell holds no file, and otherwise it is the
  URL of the newest entry of the object URL store, which is the entry of the
  file held; the URLs of the store are pairwise different.
\<close>

theorem preview_tracks_thumbnail:
  assumes "reachable s"
  shows "memo_current (thumbnail (form s)) (object_urls s) (preview s) \<and>
    distinct (map fst (object_urls s))"
  using reachable_invariant [OF assms]
  by (simp add: invariant_def preview_current_def store_wf_distinct)

theorem preview_tracks_thumbnail_witness:
  "preview acme_filled = Some (blob_url 0) \<and>
   memo_current (thumbnail (form acme_filled)) (object_urls acme_filled) (preview acme_filled)"
  using preview_tracks_thumbnail [OF reachable_acme(1)] by (simp add: acme_filled_def)

text \<open>
  C29. Object URLs are never released: along every run the store of object URLs
  only grows at its end, by one entry for every change event that delivers a
  file, whether or not the file it replaced is still shown.
\<close>

theorem object_urls_never_released:
  assumes "run s es = Some t"
  shows "prefix (object_urls s) (object_urls t) \<and>
    length (object_urls t) = length (object_urls s) + files_chosen es"
  using assms
proof (induction es arbitrary: s)
  case Nil
  then show ?case by simp
next
  case (Cons e es)
  from Cons.prems have "run (step s e) es = Some t"
    by (simp split: if_splits)
  from Cons.IH [OF this] show ?case
    by (auto simp: object_urls_step files_chosen_Cons prefix_def split: event.splits list.splits)
qed

theorem object_urls_never_released_witness:
  "\<exists>t. run acme_filled [ChangeThumbnail [valid_jpeg], ChangeThumbnail []] = Some t \<and>
     thumbnail (form t) = Undefined \<and> preview t = None \<and> length (object_urls t) = 2"
proof -
  let ?t = "step (step acme_filled (ChangeThumbnail [valid_jpeg])) (ChangeThumbnail [])"
  have r: "run acme_filled [ChangeThumbnail [valid_jpeg], ChangeThumbnail []] = Some ?t"
    by (simp add: enabled_def mounted_def step_ChangeThumbnail session_defs initial_system_def)
  from object_urls_never_released [OF r] have "length (object_urls ?t) = 2"
    by (simp add: session_defs initial_system_def)
  with r show ?thesis
    by (simp add: step_ChangeThumbnail)
qed

text \<open>
  C25. Nothing guards against submitting twice: when a valid draft is submitted
  again before the first request has settled, the second submit is handled
  like the first and a second, identical request is sent; both are in flight.
\<close>

theorem double_submit_posts_twice:
  assumes "mounted s" "validation (form s) = Success d"
  shows "\<exists>t. run s [Submit, Submit] = Some t \<and>
    pending t =
      pending s @ replicate 2 (spot_request (user_id (storage s)) (form s))"
proof -
  let ?t = "step s Submit"
  from assms(2) have v: "validation (form ?t) = Success d"
    by (simp add: step_Submit_valid [OF assms(2)] Let_def)
  from assms(1) have "mounted ?t"
    by (simp add: mounted_def)
  with assms(1) have "run s [Submit, Submit] = Some (step ?t Submit)"
    by (simp add: enabled_def)
  moreover have "pending (step ?t Submit) =
      pending s @ replicate 2 (spot_request (user_id (storage s)) (form s))"
    by (simp add: step_Submit_valid [OF v] Let_def)
       (simp add: step_Submit_valid [OF assms(2)] Let_def numeral_2_eq_2)
  ultimately show ?thesis by simp
qed

theorem double_submit_posts_twice_witness:
  "\<exists>t. run acme_filled [Submit, Submit] = Some t \<and> pending t = [acme_request, acme_request]"
  using double_submit_posts_twice [OF _ validation_acme]
  by (simp add: mounted_def session_defs initial_system_def user_id_def getItem_def
      acme_draft_def numeral_2_eq_2)

text \<open>
  C26. A rejected request is silent: when a request in flight is rejected, the
  resumed handler does nothing. The form, its error map included, the
  navigations and the effect trace stay as they are; the request leaves the
  requests in flight and the rejection is left unhandled.
\<close>

theorem rejection_is_silent:
  assumes "i < length (pending s)"
  shows "transition s (Settle i False)
      (s\<lparr>pending := remove_nth i (pending s), rejections := Suc (rejections s)\<rparr>) \<and>
    length (remove_nth i (pending s)) = length (pending s) - 1"
  using assms by (simp add: transition_iff_step enabled_def step_Settle length_remove_nth)

theorem rejection_is_silent_witness:
  "transition acme_pending (Settle 0 False) acme_failed \<and>
   form acme_failed = form acme_pending \<and> trace acme_failed = trace acme_pending \<and>
   navigations acme_failed = [] \<and> pending acme_failed = []"
  using rejection_is_silent [of 0 acme_pending]
  by (simp add: remove_nth_def acme_failed_def acme_pending_def acme_filled_def session0_def
      initial_system_def)

text \<open>
  The step function computes the transition relation: an event can be
  handled in a state exactly when it is enabled there, and the state it leads
  to is the one the step function returns.
\<close>

theorem step_implements_transition:
  "transition s e s' \<longleftrightarrow> enabled s e \<and> s' = step s e"
  by (rule transition_iff_step)

text \<open>
  The reachable states are the results of the runs from an initial state:
  a state is reachable exactly when some sequence of enabled events, executed
  by the step function from a freshly mounted component, ends in it.
\<close>

theorem reachable_iff_run:
  "reachable s \<longleftrightarrow> (\<exists>st es. run (initial_system st) es = Some s)"
  using reachable_run run_reachable [OF reachable.init] by blast

text \<open>
  Error messages stay until the next submit: no event other than a submit
  and the mounting of a new instance changes the error map, so the messages of
  a failed attempt remain displayed while the user corrects the inputs.
\<close>

theorem errors_persist_until_submit:
  assumes "e \<noteq> Submit" "e \<noteq> Return"
  shows "errors (form (step s e)) = errors (form s)"
proof (cases e)
  case (ChangeThumbnail files)
  then show ?thesis
    by (cases files) (simp_all add: step_ChangeThumbnail)
next
  case (Settle i fulfilled)
  then show ?thesis
    by (cases fulfilled) (simp_all add: step_Settle)
qed (use assms in \<open>simp_all add: step_change onChange_defs\<close>)

theorem errors_persist_until_submit_witness:
  "errors (form (step (acme_filled\<lparr>form := blank_draft\<lparr>errors := [(Price, [msg_price_invalid])]\<rparr>\<rparr>)
     (ChangePrice []))) = [(Price, [msg_price_invalid])]"
  using errors_persist_until_submit
    [of "ChangePrice []" "acme_filled\<lparr>form := blank_draft\<lparr>errors := [(Price, [msg_price_invalid])]\<rparr>\<rparr>"]
  by simp

text \<open>
  C23. A valid draft can always be sent and completed: from every state in
  which the form is mounted and the draft passes validation, submitting and
  the fulfilment of the request just sent is a run, and it ends with one more
  navigation, the application at \<^verbatim>\<open>/dashboard\<close> and the component unmounted.
\<close>

theorem submission_can_complete:
  assumes "mounted s" "validation (form s) = Success d"
  shows "\<exists>t. run s [Submit, Settle (length (pending s)) True] = Some t \<and>
    navigations t = navigations s @ [js ''/dashboard''] \<and>
    place t = Elsewhere (js ''/dashboard'') \<and> pending t = pending s \<and> \<not> mounted t \<and>
    posted t = posted s @ [spot_request (user_id (storage s)) (form s)]"
proof -
  let ?u = "step s Submit"
  have u: "pending ?u = pending s @ [spot_request (user_id (storage s)) (form s)]"
    by (simp add: step_Submit_valid [OF assms(2)] Let_def)
  with assms(1) have "run s [Submit, Settle (length (pending s)) True] =
      Some (step ?u (Settle (length (pending s)) True))"
    by (simp add: enabled_def)
  moreover have "navigations (step ?u (Settle (length (pending s)) True)) =
      navigations s @ [js ''/dashboard'']"
      "place (step ?u (Settle (length (pending s)) True)) = Elsewhere (js ''/dashboard'')"
    by (simp_all add: step_Settle)
  moreover have "pending (step ?u (Settle (length (pending s)) True)) = pending s"
    by (simp add: step_Settle u)
  moreover have "posted (step ?u (Settle (length (pending s)) True)) =
      posted s @ [spot_request (user_id (storage s)) (form s)]"
    by (simp add: step_Settle) (simp add: step_Submit_valid [OF assms(2)] Let_def)
  ultimately show ?thesis
    by (simp add: mounted_def)
qed

theorem submission_can_complete_witness:
  "\<exists>t. run acme_filled [Submit, Settle 0 True] = Some t \<and>
    navigations t = [js ''/dashboard''] \<and> posted t = [acme_request]"
proof -
  have "mounted acme_filled" and f: "pending acme_filled = []" "posted acme_filled = []"
      "navigations acme_filled = []" "form acme_filled = acme_draft"
      "user_id (storage acme_filled) = Some (js ''7'')"
    by (simp_all add: mounted_def acme_filled_def session0_def initial_system_def user_id_def
        getItem_def)
  from submission_can_complete [OF this(1) validation_acme] show ?thesis
    by (auto simp: f acme_request_def simp del: run.simps)
qed

end
