(* ===== verification/View.thy ===== *)
theory View
  imports Sessions
begin

text \<open>
  The element tree that \<^verbatim>\<open>New\<close> returns (lines 84 to 130 of
  \<^verbatim>\<open>src/pages/New/index.jsx\<close>) as a function of the state cells and the
  preview, and the queries on a tree that say what the user sees.

  An element is its tag, its properties in source order and its children. A
  property holds a text, a style object or an event listener; a listener is
  named by what it does (\<open>listener\<close>). A JSX expression that evaluates to
  \<^verbatim>\<open>undefined\<close> renders nothing, so a conditional child is a list of zero or one
  nodes. The text of a label that spans two source lines is joined the way
  JSX joins it: one space between the lines, the space before the closing tag
  kept. \<^verbatim>\<open>camera\<close>, the URL the bundler gives the imported image, is a
  parameter.

  The last section relates the spans to the error map over the whole life
  cycle: in every reachable state there is one span per entry of the map.
\<close>

section \<open>Elements\<close>

datatype listener = HandleSubmit | SetThumbnail | SetCompany | SetTechs | SetPrice

datatype jsx_prop = Value jsstring | Style "(jsstring \<times> jsstring) list" | Listener listener

datatype node = Element jsstring "(jsstring \<times> jsx_prop) list" "node list" | TextNode jsstring

datatype dom_event = SubmitEvent | FilesEvent "jsfile list" | ValueEvent jsstring

section \<open>The returned tree\<close>

definition error_span :: "(field \<times> jsstring list) list \<Rightarrow> field \<Rightarrow> node list" where
  "error_span errs k =
     (case map_of errs k of
        None \<Rightarrow> []
      | Some ms \<Rightarrow>
          [Element (js ''span'') [(js ''className'', Value (js ''error-message''))]
             (case ms of [] \<Rightarrow> [] | m # _ \<Rightarrow> [TextNode m])])"

definition background_image :: "jsstring option \<Rightarrow> jsstring" where
  "background_image p =
     js ''url('' @ (case p of None \<Rightarrow> js ''null'' | Some u \<Rightarrow> u) @ js '')''"

definition thumbnail_class :: "jsval \<Rightarrow> jsstring" where
  "thumbnail_class thumb = (if truthy thumb then js ''has-thumbnail'' else [])"

definition file_input :: node where
  "file_input =
     Element (js ''input'')
       [(js ''type'', Value (js ''file'')), (js ''onChange'', Listener SetThumbnail)] []"

definition camera_img :: "jsstring \<Rightarrow> node" where
  "camera_img camera =
     Element (js ''img'') [(js ''src'', Value camera), (js ''alt'', Value (js ''Select img''))] []"

definition thumbnail_label :: "jsstring \<Rightarrow> jsval \<Rightarrow> jsstring option \<Rightarrow> node" where
  "thumbnail_label camera thumb p =
     Element (js ''label'')
       [(js ''id'', Value (js ''thumbnail'')),
        (js ''style'', Style [(js ''backgroundImage'', background_image p)]),
        (js ''className'', Value (thumbnail_class thumb))]
       [file_input, camera_img camera]"

definition text_label :: "jsstring \<Rightarrow> jsstring \<Rightarrow> node" where
  "text_label target caption =
     Element (js ''label'') [(js ''htmlFor'', Value target)] [TextNode caption]"

definition text_input :: "jsstring \<Rightarrow> jsstring \<Rightarrow> jsstring \<Rightarrow> listener \<Rightarrow> node" where
  "text_input ident placeholder v h =
     Element (js ''input'')
       [(js ''type'', Value (js ''text'')), (js ''id'', Value ident),
        (js ''placeholder'', Value placeholder), (js ''value'', Value v),
        (js ''onChange'', Listener h)] []"

definition submit_button :: node where
  "submit_button =
     Element (js ''button'')
       [(js ''type'', Value (js ''submit'')), (js ''className'', Value (js ''btn''))]
       [TextNode (js ''Cadastrar'')]"

definition render :: "jsstring \<Rightarrow> form_state \<Rightarrow> jsstring option \<Rightarrow> node" where
  "render camera f p =
     Element (js ''form'') [(js ''onSubmit'', Listener HandleSubmit)]
       ([thumbnail_label camera (thumbnail f) p] @
        error_span (errors f) Thumbnail @
        [text_label (js ''company'') (js ''*EMPRESA''),
         text_input (js ''company'') (js ''Sua empresa incr'' @ 0xED # js ''vel'') (company f)
           SetCompany] @
        error_span (errors f) Company @
        [text_label (js ''techs'')
           (js ''*TECNOLOGIAS (separadas por v'' @ 0xED # js ''rgula)''),
         text_input (js ''techs'') (js ''Quais tecnologias usam?'') (techs f) SetTechs] @
        error_span (errors f) Techs @
        [text_label (js ''price'')
           (js ''*VALOR DA DI'' @ 0xC1 # js ''RIA (em branco para GRATUITO) ''),
         text_input (js ''price'') (js ''Valor cobrado por dia'') (price f) SetPrice] @
        error_span (errors f) Price @
        [submit_button])"

definition view :: "jsstring \<Rightarrow> system \<Rightarrow> node" where
  "view camera s = render camera (form s) (preview s)"

fun listener_event :: "listener \<Rightarrow> dom_event \<Rightarrow> event option" where
  "listener_event HandleSubmit SubmitEvent = Some Submit"
| "listener_event SetThumbnail (FilesEvent files) = Some (ChangeThumbnail files)"
| "listener_event SetCompany (ValueEvent v) = Some (ChangeCompany v)"
| "listener_event SetTechs (ValueEvent v) = Some (ChangeTechs v)"
| "listener_event SetPrice (ValueEvent v) = Some (ChangePrice v)"
| "listener_event _ _ = None"

lemmas thumbnail_label_defs = thumbnail_label_def file_input_def camera_img_def

lemmas view_defs =
  error_span_def background_image_def thumbnail_class_def file_input_def camera_img_def
  thumbnail_label_def text_label_def
  text_input_def submit_button_def render_def view_def

declare view_defs [form_defs]

section \<open>Queries on a tree\<close>

fun elements :: "node \<Rightarrow> node list" where
  "elements (Element tag props children) =
     Element tag props children # concat (map elements children)"
| "elements (TextNode _) = []"

fun text_content :: "node \<Rightarrow> jsstring" where
  "text_content (Element _ _ children) = concat (map text_content children)"
| "text_content (TextNode t) = t"

fun prop_of :: "node \<Rightarrow> jsstring \<Rightarrow> jsx_prop option" where
  "prop_of (Element _ props _) name = map_of props name"
| "prop_of (TextNode _) name = None"

definition has_class :: "jsstring \<Rightarrow> node \<Rightarrow> bool" where
  "has_class c n \<longleftrightarrow> prop_of n (js ''className'') = Some (Value c)"

definition error_texts :: "node \<Rightarrow> jsstring list" where
  "error_texts n = map text_content (filter (has_class (js ''error-message'')) (elements n))"

definition element_by_id :: "jsstring \<Rightarrow> node \<Rightarrow> node option" where
  "element_by_id i n = find (\<lambda>e. prop_of e (js ''id'') = Some (Value i)) (elements n)"

definition prop_by_id :: "jsstring \<Rightarrow> jsstring \<Rightarrow> node \<Rightarrow> jsx_prop option" where
  "prop_by_id i name n = (case element_by_id i n of None \<Rightarrow> None | Some e \<Rightarrow> prop_of e name)"

fun props_of :: "node \<Rightarrow> (jsstring \<times> jsx_prop) list" where
  "props_of (Element _ props _) = props"
| "props_of (TextNode _) = []"

fun listeners_in :: "(jsstring \<times> jsx_prop) list \<Rightarrow> listener list" where
  "listeners_in [] = []"
| "listeners_in ((_, Listener h) # ps) = h # listeners_in ps"
| "listeners_in (_ # ps) = listeners_in ps"

definition listeners :: "node \<Rightarrow> listener list" where
  "listeners n = concat (map (\<lambda>e. listeners_in (props_of e)) (elements n))"

fun value_of :: "jsx_prop option \<Rightarrow> jsstring list" where
  "value_of (Some (Value v)) = [v]"
| "value_of _ = []"

definition values_of :: "jsstring \<Rightarrow> node \<Rightarrow> jsstring list" where
  "values_of name n = concat (map (\<lambda>e. value_of (prop_of e name)) (elements n))"

lemmas query_defs =
  has_class_def error_texts_def element_by_id_def prop_by_id_def listeners_def values_of_def

section \<open>The error spans\<close>

definition shown_message :: "(field \<times> jsstring list) list \<Rightarrow> field \<Rightarrow> jsstring list" where
  "shown_message errs k =
     (case map_of errs k of None \<Rightarrow> [] | Some [] \<Rightarrow> [[]] | Some (m # _) \<Rightarrow> [m])"

lemma has_class_Element [simp]:
  "has_class c (Element tag props children) \<longleftrightarrow> map_of props (js ''className'') = Some (Value c)"
  by (simp add: has_class_def)

lemma elements_error_span:
  "concat (map elements (error_span errs k)) = error_span errs k"
  by (auto simp: error_span_def split: option.split list.split)

lemma error_texts_error_span:
  "map text_content (filter (has_class c) (error_span errs k)) =
     (if c = js ''error-message'' then shown_message errs k else [])"
  by (auto simp: error_span_def shown_message_def split: option.split list.split)

lemma find_error_span:
  "name \<noteq> js ''className'' \<Longrightarrow>
   find (\<lambda>e. prop_of e name = Some (Value i)) (error_span errs k) = None"
  by (simp add: error_span_def split: option.split)

lemma listeners_error_span:
  "concat (map (\<lambda>e. listeners_in (props_of e)) (error_span errs k)) = []"
  by (auto simp: error_span_def split: option.split)

lemma values_of_error_span:
  "name \<noteq> js ''className'' \<Longrightarrow>
   concat (map (\<lambda>e. value_of (prop_of e name)) (error_span errs k)) = []"
  by (auto simp: error_span_def split: option.split)

lemma error_texts_render:
  "error_texts (render camera f p) =
     concat (map (shown_message (errors f)) [Thumbnail, Company, Techs, Price])"
  by (simp add: error_texts_def render_def elements_error_span error_texts_error_span
      thumbnail_label_defs text_label_def text_input_def submit_button_def thumbnail_class_def)

section \<open>Properties of the view\<close>

lemma shown_message_after_Submit:
  "shown_message (errors (form (step s Submit))) k =
     (if field_messages (form s) k = [] then [] else [hd (field_messages (form s) k)])"
  by (cases "field_messages (form s) k") (simp_all add: shown_message_def errors_after_Submit)

lemma error_texts_after_Submit:
  "error_texts (view camera (step s Submit)) = [] \<longleftrightarrow> (\<forall>k. field_messages (form s) k = [])"
proof -
  have "(\<forall>k. P k) \<longleftrightarrow> P Thumbnail \<and> P Company \<and> P Techs \<and> P Price" for P
    by (metis field.exhaust)
  then show ?thesis
    by (simp add: view_def error_texts_render shown_message_after_Submit)
qed

text \<open>
  C13. What the user sees after a submit: the view shows, in the order
  thumbnail, company, technologies, price, one message for every field that
  fails its rule in the submitted draft, namely the first message of that
  field, and no message for any other field.
\<close>

theorem view_after_submit:
  "error_texts (view camera (step s Submit)) =
     concat (map (\<lambda>k. if field_messages (form s) k = [] then [] else [hd (field_messages (form s) k)])
       [Thumbnail, Company, Techs, Price])"
  by (simp add: view_def error_texts_render shown_message_after_Submit)

definition big_gif_draft :: system where
  "big_gif_draft = acme_filled\<lparr>form := acme_draft\<lparr>thumbnail := File big_gif, price := js ''abc''\<rparr>\<rparr>"

text \<open>
  C36. Of two thumbnail messages only the first reaches the page: for a file
  that is both too large and of a type that is not accepted, the error map
  stored by the submit holds the size message and the type message, the first
  error text of the rendered view is the size message, and the type message
  occurs nowhere among the error texts of the view.
\<close>

theorem second_thumbnail_message_hidden:
  assumes "thumbnail (form s) = File f" "MAX_FILE_SIZE < fsize f"
    "ftype f \<notin> set ACCEPTED_IMAGE_TYPES"
  shows "map_of (errors (form (step s Submit))) Thumbnail =
      Some [msg_thumbnail_size, msg_thumbnail_type] \<and>
    (\<exists>rest. error_texts (view camera (step s Submit)) = msg_thumbnail_size # rest \<and>
       msg_thumbnail_type \<notin> set rest)"
  using assms messages_distinct
  by (simp add: view_def error_texts_render shown_message_after_Submit errors_after_Submit
      field_messages_def thumbnail_messages_def)

theorem second_thumbnail_message_hidden_witness:
  "map_of (errors (form (step big_gif_draft Submit))) Thumbnail =
     Some [msg_thumbnail_size, msg_thumbnail_type] \<and>
   (\<exists>rest. error_texts (view (js ''camera.svg'') (step big_gif_draft Submit)) =
      msg_thumbnail_size # rest \<and> msg_thumbnail_type \<notin> set rest)"
proof -
  have f: "thumbnail (form big_gif_draft) = File big_gif"
    by (simp add: big_gif_draft_def)
  have "MAX_FILE_SIZE < fsize big_gif" "ftype big_gif \<notin> set ACCEPTED_IMAGE_TYPES"
    by (simp_all add: big_gif_def MAX_FILE_SIZE_def ACCEPTED_IMAGE_TYPES_def)
  from second_thumbnail_message_hidden [OF f this] show ?thesis .
qed

text \<open>
  The inputs are controlled by the state: each text input shows its cell,
  and after the listener of an input has handled a change to \<open>v\<close> that input
  shows \<open>v\<close> while the two other text inputs show what they showed before.
\<close>

theorem inputs_show_cells:
  "prop_by_id (js ''company'') (js ''value'') (view camera s) = Some (Value (company (form s))) \<and>
   prop_by_id (js ''techs'') (js ''value'') (view camera s) = Some (Value (techs (form s))) \<and>
   prop_by_id (js ''price'') (js ''value'') (view camera s) = Some (Value (price (form s))) \<and>
   company (form (step s (ChangeCompany v))) = v \<and>
   techs (form (step s (ChangeCompany v))) = techs (form s) \<and>
   price (form (step s (ChangeCompany v))) = price (form s) \<and>
   techs (form (step s (ChangeTechs v))) = v \<and>
   company (form (step s (ChangeTechs v))) = company (form s) \<and>
   price (form (step s (ChangeTechs v))) = price (form s) \<and>
   price (form (step s (ChangePrice v))) = v \<and>
   company (form (step s (ChangePrice v))) = company (form s) \<and>
   techs (form (step s (ChangePrice v))) = techs (form s)"
  by (simp add: prop_by_id_def element_by_id_def view_def render_def thumbnail_label_defs
      text_label_def text_input_def submit_button_def elements_error_span find_append
      find_error_span step_change onChange_defs)

text \<open>
  C37. The image well follows the thumbnail cell: in every reachable state,
  when a file is held the well has the class \<^verbatim>\<open>has-thumbnail\<close> and the object
  URL created last as its background image; when none is held the class is
  empty and the background image is the text \<^verbatim>\<open>url(null)\<close>.
\<close>

theorem image_well_follows_thumbnail:
  assumes "reachable s"
  shows "prop_by_id (js ''thumbnail'') (js ''className'') (view camera s) =
      Some (Value (if isFile (thumbnail (form s)) then js ''has-thumbnail'' else [])) \<and>
    prop_by_id (js ''thumbnail'') (js ''style'') (view camera s) =
      Some (Style [(js ''backgroundImage'',
        if isFile (thumbnail (form s))
        then js ''url('' @ blob_url (length (object_urls s) - 1) @ js '')''
        else js ''url(null)'')])"
proof -
  from reachable_invariant [OF assms]
  have "thumbnail_typed (thumbnail (form s))"
    and "memo_current (thumbnail (form s)) (object_urls s) (preview s)"
    by (simp_all add: invariant_def preview_current_def)
  then show ?thesis
    by (cases "thumbnail (form s)")
      (simp_all add: prop_by_id_def element_by_id_def view_def render_def thumbnail_label_defs
        find_append find_error_span thumbnail_class_def background_image_def truthy_def isFile_def thumbnail_typed_def
        memo_current_def)
qed

theorem image_well_follows_thumbnail_witness:
  "prop_by_id (js ''thumbnail'') (js ''style'') (view (js ''camera.svg'') session0) =
     Some (Style [(js ''backgroundImage'', js ''url(null)'')]) \<and>
   prop_by_id (js ''thumbnail'') (js ''style'') (view (js ''camera.svg'') acme_filled) =
     Some (Style [(js ''backgroundImage'', js ''url(blob:0)'')])"
  using image_well_follows_thumbnail [OF reachable_session0, of "js ''camera.svg''"]
    image_well_follows_thumbnail [OF reachable_acme(1), of "js ''camera.svg''"]
  by (simp add: session_defs initial_system_def initial_state_def isFile_def blob_url_def
      decimal.simps digit_def acme_draft_def)

text \<open>
  The form installs one listener per input and one for submitting, in
  document order; each listener turns the browser event of its element into
  the one event of the life cycle that updates its own cell, and ignores the
  events of other elements.
\<close>

theorem listeners_installed:
  "listeners (view camera s) = [HandleSubmit, SetThumbnail, SetCompany, SetTechs, SetPrice] \<and>
   map (\<lambda>h. listener_event h (ValueEvent v)) (listeners (view camera s)) =
     [None, None, Some (ChangeCompany v), Some (ChangeTechs v), Some (ChangePrice v)] \<and>
   map (\<lambda>h. listener_event h (FilesEvent files)) (listeners (view camera s)) =
     [None, Some (ChangeThumbnail files), None, None, None] \<and>
   map (\<lambda>h. listener_event h SubmitEvent) (listeners (view camera s)) =
     [Some Submit, None, None, None, None]"
proof -
  have "listeners (view camera s) = [HandleSubmit, SetThumbnail, SetCompany, SetTechs, SetPrice]"
    by (simp add: listeners_def view_def render_def thumbnail_label_defs text_label_def
        text_input_def submit_button_def elements_error_span listeners_error_span)
  then show ?thesis by simp
qed

text \<open>
  The tree is well formed whatever the cells hold: the \<^verbatim>\<open>id\<close>s are pairwise
  different, every label names the \<^verbatim>\<open>id\<close> of a text input, in the order of
  the inputs, and the form has one file input, three text inputs and one
  submit button.
\<close>

theorem view_well_formed:
  "values_of (js ''id'') (render camera f p) =
     [js ''thumbnail'', js ''company'', js ''techs'', js ''price''] \<and>
   values_of (js ''htmlFor'') (render camera f p) = [js ''company'', js ''techs'', js ''price''] \<and>
   values_of (js ''type'') (render camera f p) =
     [js ''file'', js ''text'', js ''text'', js ''text'', js ''submit'']"
  by (simp add: values_of_def render_def elements_error_span values_of_error_span
      thumbnail_label_defs text_label_def text_input_def submit_button_def)

section \<open>The spans and the error map\<close>

lemma shown_message_entries:
  "k \<in> set ks \<Longrightarrow> shown_message (entries M ks) k = (if M k = [] then [] else [hd (M k)])"
  by (cases "M k") (simp_all add: shown_message_def map_of_entries)

lemma shown_entries:
  "concat (map (shown_message (entries M ks)) ks) = map (\<lambda>(k, ms). hd ms) (entries M ks)"
proof -
  have "concat (map (\<lambda>k. if M k = [] then [] else [hd (M k)]) ks) =
      map (\<lambda>(k, ms). hd ms) (entries M ks)"
    by (induction ks) simp_all
  then show ?thesis
    by (simp add: shown_message_entries cong: map_cong)
qed

text \<open>
  C14. The spans are the error map: in every reachable state the error map is
  well formed (its keys in the order thumbnail, company, technologies, price,
  each at most once, and no entry without a message), and the view shows one
  span for every entry of the map, in the order of the map, with the first
  message of the entry as its text. No span is ever empty, and the read
  \<^verbatim>\<open>errors.company[0]\<close> never yields \<^verbatim>\<open>undefined\<close>.
\<close>

theorem spans_show_error_map:
  assumes "reachable s"
  shows "error_texts (view camera s) = map (\<lambda>(k, ms). hd ms) (errors (form s)) \<and>
    errors_wf (errors (form s))"
proof -
  note wf = reachable_errors_wf [OF assms]
  from errors_wf_entries_eq [OF wf all_fields_sorted(1)]
  have "errors (form s) = entries (entry_of (errors (form s))) all_fields"
    by (simp add: all_fields_sorted)
  with shown_entries [of "entry_of (errors (form s))" all_fields] wf show ?thesis
    by (simp add: view_def error_texts_render all_fields_def)
qed

theorem spans_show_error_map_witness:
  "error_texts (view (js ''camera.svg'') (step blank_filled Submit)) =
     [msg_company_required, msg_techs_required, msg_price_invalid]"
  using spans_show_error_map [OF reachable_blank(2), of "js ''camera.svg''"]
  by (simp add: errors_blank_submitted)

end
