(* ===== verification/Interaction.thy ===== *)
theory Interaction
  imports View
begin

text \<open>
  What the user does on the screen. The screen shows the tree of \<open>View\<close>
  while the form is mounted and nothing of it otherwise. A gesture is typing
  into the text input with a given \<^verbatim>\<open>id\<close>, choosing files in the file input,
  pressing the submit button, or pressing the Enter key in the text input
  with a given \<^verbatim>\<open>id\<close>; the browser turns it into an event at an
  element, and the listener that lines 85 to 124 of
  \<^verbatim>\<open>src/pages/New/index.jsx\<close> put on that element turns the event into a call
  of a setter or of \<^verbatim>\<open>handleSubmit\<close>. A press of a button of type \<^verbatim>\<open>submit\<close>
  submits the form that holds it, and so does the Enter key in a text input
  of a form that has such a button (the implicit submission of HTML). A
  gesture at an element without a listener does nothing.
\<close>

section \<open>Gestures\<close>

datatype gesture =
  Type jsstring jsstring | Choose "jsfile list" | ClickSubmit | PressEnter jsstring

fun tag :: "node \<Rightarrow> jsstring" where
  "tag (Element t _ _) = t"
| "tag (TextNode _) = []"

definition element_of_type :: "jsstring \<Rightarrow> jsstring \<Rightarrow> node \<Rightarrow> node option" where
  "element_of_type t ty n =
     find (\<lambda>e. tag e = t \<and> prop_of e (js ''type'') = Some (Value ty)) (elements n)"

definition listener_at :: "node option \<Rightarrow> jsstring \<Rightarrow> listener option" where
  "listener_at e name =
     (case e of
        None \<Rightarrow> None
      | Some x \<Rightarrow> (case prop_of x name of Some (Listener l) \<Rightarrow> Some l | _ \<Rightarrow> None))"

definition submit_form :: "node \<Rightarrow> event option" where
  "submit_form n =
     (if tag n = js ''form'' \<and> element_of_type (js ''button'') (js ''submit'') n \<noteq> None
      then Option.bind (listener_at (Some n) (js ''onSubmit'')) (\<lambda>l. listener_event l SubmitEvent)
      else None)"

definition is_text_input :: "node \<Rightarrow> bool" where
  "is_text_input e \<longleftrightarrow>
     tag e = js ''input'' \<and> prop_of e (js ''type'') = Some (Value (js ''text''))"

definition gesture_event :: "node \<Rightarrow> gesture \<Rightarrow> event option" where
  "gesture_event n g =
     (case g of
        Type i v \<Rightarrow>
          Option.bind (listener_at (element_by_id i n) (js ''onChange''))
            (\<lambda>l. listener_event l (ValueEvent v))
      | Choose files \<Rightarrow>
          Option.bind (listener_at (element_of_type (js ''input'') (js ''file'') n) (js ''onChange''))
            (\<lambda>l. listener_event l (FilesEvent files))
      | ClickSubmit \<Rightarrow> submit_form n
      | PressEnter i \<Rightarrow>
          (case element_by_id i n of
             None \<Rightarrow> None
           | Some e \<Rightarrow> if is_text_input e then submit_form n else None))"

definition screen :: "jsstring \<Rightarrow> system \<Rightarrow> node option" where
  "screen camera s = (if mounted s then Some (view camera s) else None)"

definition act :: "jsstring \<Rightarrow> system \<Rightarrow> gesture \<Rightarrow> system option" where
  "act camera s g =
     (case screen camera s of
        None \<Rightarrow> None
      | Some n \<Rightarrow> (case gesture_event n g of None \<Rightarrow> None | Some e \<Rightarrow> Some (step s e)))"

fun acts :: "jsstring \<Rightarrow> system \<Rightarrow> gesture list \<Rightarrow> system option" where
  "acts camera s [] = Some s"
| "acts camera s (g # gs) =
     (case act camera s g of None \<Rightarrow> None | Some t \<Rightarrow> acts camera t gs)"

definition form_event :: "gesture \<Rightarrow> event option" where
  "form_event g =
     (case g of
        Type i v \<Rightarrow>
          if i = js ''company'' then Some (ChangeCompany v)
          else if i = js ''techs'' then Some (ChangeTechs v)
          else if i = js ''price'' then Some (ChangePrice v)
          else None
      | Choose files \<Rightarrow> Some (ChangeThumbnail files)
      | ClickSubmit \<Rightarrow> Some Submit
      | PressEnter i \<Rightarrow>
          if i = js ''company'' \<or> i = js ''techs'' \<or> i = js ''price'' then Some Submit else None)"

lemmas interaction_defs =
  element_of_type_def listener_at_def submit_form_def is_text_input_def gesture_event_def
  screen_def act_def form_event_def

section \<open>The listeners behind the gestures\<close>

lemma find_tag_error_span:
  "t \<noteq> js ''span'' \<Longrightarrow> find (\<lambda>e. tag e = t \<and> P e) (error_span errs k) = None"
  by (simp add: error_span_def split: option.split)

lemmas render_defs =
  render_def thumbnail_label_defs text_label_def text_input_def submit_button_def

lemma element_by_id_render:
  "listener_at (element_by_id i (render camera f p)) (js ''onChange'') =
     (if i = js ''company'' then Some SetCompany
      else if i = js ''techs'' then Some SetTechs
      else if i = js ''price'' then Some SetPrice
      else None)"
  by (auto simp: listener_at_def element_by_id_def render_defs elements_error_span find_append
      find_error_span)

lemma file_input_render:
  "listener_at (element_of_type (js ''input'') (js ''file'') (render camera f p)) (js ''onChange'') =
     Some SetThumbnail"
  by (simp add: listener_at_def element_of_type_def render_defs)

lemma submit_button_render:
  "element_of_type (js ''button'') (js ''submit'') (render camera f p) \<noteq> None"
  by (simp add: element_of_type_def render_defs elements_error_span find_append
      find_tag_error_span)

lemma submit_form_render: "submit_form (render camera f p) = Some Submit"
proof -
  have "tag (render camera f p) = js ''form''"
      "listener_at (Some (render camera f p)) (js ''onSubmit'') = Some HandleSubmit"
    by (simp_all add: render_def listener_at_def)
  then show ?thesis
    by (simp add: submit_form_def submit_button_render del: js_Cons)
qed

lemma text_input_render:
  "(case element_by_id i (render camera f p) of None \<Rightarrow> False | Some e \<Rightarrow> is_text_input e) \<longleftrightarrow>
     i = js ''company'' \<or> i = js ''techs'' \<or> i = js ''price''"
  by (auto simp: is_text_input_def element_by_id_def render_defs elements_error_span find_append
      find_error_span)

lemma gesture_event_render: "gesture_event (render camera f p) g = form_event g"
proof (cases g)
  case (PressEnter i)
  with text_input_render [of i camera f p] show ?thesis
    by (auto simp: gesture_event_def form_event_def submit_form_render split: option.splits
        simp del: js_Cons)
qed (simp_all add: gesture_event_def form_event_def element_by_id_render file_input_render
      submit_form_render del: js_Cons)

section \<open>Sessions of gestures\<close>

definition acme_gestures :: "gesture list" where
  "acme_gestures =
     [Choose [valid_jpeg], Type (js ''company'') (js ''Acme''),
      Type (js ''techs'') (js ''React, Node''), ClickSubmit]"

text \<open>
  \<open>rescue\<close> is what a user can always do: choose a valid image, fill in the
  three texts and press Enter in the last one.
\<close>

definition rescue :: "gesture list" where
  "rescue =
     [Choose [valid_jpeg], Type (js ''company'') (js ''Acme''),
      Type (js ''techs'') (js ''React, Node''), Type (js ''price'') [], PressEnter (js ''price'')]"

definition refill :: "event list" where
  "refill = fill_in @ [ChangePrice []]"

lemma act_eq:
  "act camera s g = (if mounted s then map_option (step s) (form_event g) else None)"
  by (simp add: act_def screen_def view_def gesture_event_render split: option.split)

lemma form_event_enabled: "form_event g = Some e \<Longrightarrow> enabled s e = mounted s"
  by (cases g) (auto simp: form_event_def enabled_def split: if_splits)

lemma acts_run: "acts camera s gs = Option.bind (those (map form_event gs)) (run s)"
proof (induction gs arbitrary: s)
  case Nil
  show ?case by simp
next
  case (Cons g gs)
  show ?case
  proof (cases "form_event g")
    case None
    then show ?thesis by (simp add: act_eq)
  next
    case (Some e)
    with Cons.IH [of "step s e"] form_event_enabled [OF Some, of s] show ?thesis
      by (cases "those (map form_event gs)") (simp_all add: act_eq)
  qed
qed

text \<open>
  C16. A session of gestures on the screen is the run of the events behind
  them: typing into the input with the \<^verbatim>\<open>id\<close> \<^verbatim>\<open>company\<close>, \<^verbatim>\<open>techs\<close> or \<^verbatim>\<open>price\<close>
  is the change of that cell, choosing files is the change of the thumbnail,
  pressing the button, or the Enter key in one of these inputs, is the
  submit, and a gesture at any other element does
  nothing and ends the session; once the form is not mounted no gesture has
  an effect.
\<close>

theorem gestures_are_events:
  "acts camera s gs = Option.bind (those (map form_event gs)) (run s) \<and>
   (\<not> mounted t \<longrightarrow> act camera t g = None)"
  by (simp add: acts_run act_eq)

theorem gestures_are_events_witness:
  "acts (js ''camera.svg'') session0 acme_gestures = Some acme_pending \<and>
   act (js ''camera.svg'') acme_done ClickSubmit = None"
proof -
  have "those (map form_event acme_gestures) = Some (fill_in @ [Submit])"
    by (simp add: acme_gestures_def form_event_def fill_in_def)
  moreover have "\<not> mounted acme_done"
    by (simp add: mounted_def acme_done_def)
  ultimately show ?thesis
    using gestures_are_events
      [where camera = "js ''camera.svg''" and s = session0 and gs = acme_gestures
         and t = acme_done and g = ClickSubmit]
    by (simp add: run_acme del: js_Cons)
qed

lemma rescue_events: "those (map form_event rescue) = Some (refill @ [Submit])"
  by (simp add: rescue_def refill_def form_event_def fill_in_def)

lemma run_refill:
  assumes "mounted s"
  shows "\<exists>t. run s refill = Some t \<and> mounted t \<and>
    form t = acme_draft\<lparr>errors := errors (form s)\<rparr> \<and> storage t = storage s \<and>
    posted t = posted s \<and> pending t = pending s"
  using assms
  by (simp add: refill_def fill_in_def enabled_def mounted_def step_ChangeThumbnail step_change
      onChange_defs acme_draft_def)

lemma value_by_id:
  "prop_by_id i (js ''value'') (view camera s) =
     (if i = js ''company'' then Some (Value (company (form s)))
      else if i = js ''techs'' then Some (Value (techs (form s)))
      else if i = js ''price'' then Some (Value (price (form s)))
      else None)"
  by (auto simp: prop_by_id_def element_by_id_def view_def render_defs elements_error_span
      find_append find_error_span)

text \<open>
  C38. What is typed is what is shown: typing a text into one of the three
  text inputs of the mounted form is handled, and in the view after it that
  input shows the text typed, whatever it is, while every other input shows
  what it showed before. No listener filters, trims or reformats what the
  user types.
\<close>

theorem typed_text_is_shown:
  assumes "mounted s" "i = js ''company'' \<or> i = js ''techs'' \<or> i = js ''price''"
  shows "\<exists>t. act camera s (Type i v) = Some t \<and>
    prop_by_id i (js ''value'') (view camera t) = Some (Value v) \<and>
    (\<forall>j. j \<noteq> i \<longrightarrow>
       prop_by_id j (js ''value'') (view camera t) = prop_by_id j (js ''value'') (view camera s))"
  using assms
  by (auto simp: act_eq form_event_def value_by_id step_change onChange_defs simp del: js_Cons)

theorem typed_text_is_shown_witness:
  "\<exists>t. act (js ''camera.svg'') session0 (Type (js ''price'') (js ''12.50'')) = Some t \<and>
     prop_by_id (js ''price'') (js ''value'') (view (js ''camera.svg'') t) =
       Some (Value (js ''12.50''))"
proof -
  have "mounted session0"
    by (simp add: mounted_def session0_def initial_system_def)
  from typed_text_is_shown [OF this, of "js ''price''" "js ''camera.svg''" "js ''12.50''"]
  show ?thesis
    by auto
qed

text \<open>
  C17. The form is never stuck: in every state in which the form is on the
  screen, whatever the cells and the error map hold, however many requests
  are in flight and however many were rejected, the user can choose a valid
  image, fill in the texts and press Enter, and the component then hands
  \<^verbatim>\<open>api.post\<close> one more request, built from what was typed and the identity
  stored at that time, and shows no error.
\<close>

theorem form_never_stuck:
  assumes "mounted s"
  shows "\<exists>t. acts camera s rescue = Some t \<and>
    posted t = posted s @ [spot_request (user_id (storage s)) acme_draft] \<and>
    pending t = pending s @ [spot_request (user_id (storage s)) acme_draft] \<and>
    errors (form t) = []"
proof -
  from run_refill [OF assms] obtain u where u: "run s refill = Some u"
      "mounted u" "form u = acme_draft\<lparr>errors := errors (form s)\<rparr>" "storage u = storage s"
      "posted u = posted s" "pending u = pending s"
    by blast
  then have "acts camera s rescue = Some (step u Submit)"
    by (simp add: acts_run rescue_events run_append enabled_def)
  moreover from u(3) have "validation (form u) = Success (parsed_data acme_draft)"
    using validation_valid [OF acme_fields_ok] by simp
  from step_Submit_valid [OF this] u have
    "posted (step u Submit) = posted s @ [spot_request (user_id (storage s)) acme_draft]"
    "pending (step u Submit) = pending s @ [spot_request (user_id (storage s)) acme_draft]"
    "errors (form (step u Submit)) = []"
    by (simp_all add: Let_def)
  ultimately show ?thesis
    by simp
qed

theorem form_never_stuck_witness:
  "\<exists>t. acts (js ''camera.svg'') acme_failed rescue = Some t \<and>
     posted t = [acme_request, acme_request] \<and> pending t = [acme_request]"
proof -
  have "mounted acme_failed"
    by (simp add: mounted_def session_defs initial_system_def)
  from form_never_stuck [OF this, of "js ''camera.svg''"] show ?thesis
    by (auto simp: session_defs initial_system_def user_id_def getItem_def simp del: js_Cons)
qed

end
