(* ===== verification/Phases.thy ===== *)
theory Phases
  imports Sessions
begin

text \<open>
  The submission phases of the specification as an abstract machine, and the
  life cycle of \<open>Lifecycle\<close> as its refinement.

  The specification describes one submission attempt as a machine with the
  phases idle, invalid (errors displayed), submitting, done and failed. Its
  transitions are labelled with what makes the machine move (\<open>stimulus\<close>):
  from idle or invalid a validation that failed leads to invalid and one
  that passed to submitting; from submitting a fulfilled request leads to
  done and a rejected one to failed; done and failed have no transition. The
  phases ``validating'' and ``valid'' of the specification lie inside the
  synchronous part of the handler and are not states between events.

  \<open>phase_of\<close> reads the phase off a concrete state, and \<open>stimulus_of\<close>
  reads the label off an event of the component: a submit carries the result
  of \<open>validation\<close> on the cells, the settling of a request its outcome, and
  every other event carries none, so the machine has to stay where it is. The machine describes
  one attempt of one instance of the component, and the code has no lock on
  submitting, so the refinement holds under the discipline the specification
  asks for (\<open>single_flight\<close>: no submit while a request is in flight or after
  one was rejected, and the form is not opened a second time); \<open>Sessions\<close>
  and the last section show what the code does outside it, and \<open>Attempts\<close>
  gives the refinement that holds without the discipline, attempt by
  attempt.
\<close>

section \<open>The abstract machine\<close>

datatype phase = Idle | Invalid | Submitting | Done | Failed

definition editable :: "phase \<Rightarrow> bool" where
  "editable p \<longleftrightarrow> p = Idle \<or> p = Invalid"

datatype stimulus = ValidationFailed | ValidationPassed | RequestFulfilled | RequestRejected

inductive phase_step :: "stimulus \<Rightarrow> phase \<Rightarrow> phase \<Rightarrow> bool" where
  reject: "editable p \<Longrightarrow> phase_step ValidationFailed p Invalid"
| accept: "editable p \<Longrightarrow> phase_step ValidationPassed p Submitting"
| fulfil: "phase_step RequestFulfilled Submitting Done"
| fail: "phase_step RequestRejected Submitting Failed"

inductive_cases phase_step_DoneE: "phase_step a Done p"
inductive_cases phase_step_FailedE: "phase_step a Failed p"

inductive_simps phase_step_simps: "phase_step a p q"

code_pred phase_step .

section \<open>The abstraction\<close>

definition phase_of :: "system \<Rightarrow> phase" where
  "phase_of s =
     (if navigations s \<noteq> [] then Done
      else if pending s \<noteq> [] then Submitting
      else if rejections s \<noteq> 0 then Failed
      else if errors (form s) \<noteq> [] then Invalid
      else Idle)"

definition stimulus_of :: "system \<Rightarrow> event \<Rightarrow> stimulus option" where
  "stimulus_of s e =
     (case e of
        Submit \<Rightarrow>
          (case validation (form s) of
             Success _ \<Rightarrow> Some ValidationPassed
           | Failure _ \<Rightarrow> Some ValidationFailed)
      | Settle i fulfilled \<Rightarrow> Some (if fulfilled then RequestFulfilled else RequestRejected)
      | _ \<Rightarrow> None)"

definition single_flight :: "system \<Rightarrow> event \<Rightarrow> bool" where
  "single_flight s e \<longleftrightarrow>
     (case e of Submit \<Rightarrow> pending s = [] \<and> rejections s = 0 | Return \<Rightarrow> False | _ \<Rightarrow> True)"

inductive reachable1 :: "system \<Rightarrow> bool" where
  init: "reachable1 (initial_system st)"
| step: "reachable1 s \<Longrightarrow> single_flight s e \<Longrightarrow> transition s e s' \<Longrightarrow> reachable1 s'"

definition one_request :: "system \<Rightarrow> bool" where
  "one_request s \<longleftrightarrow>
     length (pending s) + length (navigations s) + rejections s \<le> 1 \<and>
     (place s = FormPage \<longrightarrow> navigations s = [])"

section \<open>Terminal phases\<close>

lemma phase_step_terminal: "\<not> phase_step a Done p" "\<not> phase_step a Failed p"
  by (auto elim: phase_step_DoneE phase_step_FailedE simp: editable_def)

section \<open>The simulation\<close>

lemma reachable1_reachable: "reachable1 s \<Longrightarrow> reachable s"
  by (induction rule: reachable1.induct) (auto intro: reachable.intros)

lemma errors_Submit_invalid:
  assumes "validation (form s) = Failure iss"
  shows "errors (form (step s Submit)) \<noteq> []"
  using failure_has_issue [OF assms] by (simp add: step_Submit_invalid [OF assms])

lemma phase_of_Submit:
  assumes "navigations s = []" "pending s = []" "rejections s = 0"
  shows "editable (phase_of s) \<and>
    phase_of (step s Submit) =
      (case validation (form s) of Success _ \<Rightarrow> Submitting | Failure _ \<Rightarrow> Invalid)"
proof (cases "validation (form s)")
  case (Success d)
  with assms show ?thesis
    by (simp add: phase_of_def editable_def step_Submit_valid Let_def)
next
  case (Failure iss)
  from errors_Submit_invalid [OF this] assms Failure show ?thesis
    by (simp add: phase_of_def editable_def step_Submit_invalid)
qed

lemma one_request_pending:
  assumes "one_request s" "i < length (pending s)"
  shows "length (pending s) = 1" "navigations s = []" "rejections s = 0"
proof -
  from assms have "length (pending s) + length (navigations s) + rejections s \<le> 1"
    by (simp add: one_request_def)
  with assms(2) have "length (pending s) = 1 \<and> length (navigations s) = 0 \<and> rejections s = 0"
    by arith
  then show "length (pending s) = 1" "navigations s = []" "rejections s = 0"
    by simp_all
qed

lemma phase_of_Settle:
  assumes "one_request s" "i < length (pending s)"
  shows "phase_of s = Submitting \<and>
    phase_of (step s (Settle i fulfilled)) = (if fulfilled then Done else Failed)"
proof -
  note one = one_request_pending [OF assms]
  from one(1) assms(2) have "remove_nth i (pending s) = []"
    by (simp add: remove_nth_def)
  with one show ?thesis
    by (cases fulfilled) (auto simp: phase_of_def step_Settle)
qed

lemma phase_of_change:
  assumes "e \<noteq> Submit" "e \<noteq> Return" "\<forall>i b. e \<noteq> Settle i b"
  shows "phase_of (step s e) = phase_of s"
proof (cases e)
  case (ChangeThumbnail files)
  then show ?thesis
    by (cases files) (simp_all add: phase_of_def step_ChangeThumbnail)
qed (use assms in \<open>simp_all add: phase_of_def step_change step_Return onChange_defs\<close>)

lemma one_request_step:
  assumes "one_request s" "single_flight s e" "enabled s e"
  shows "one_request (step s e)"
proof (cases e)
  case (ChangeThumbnail files)
  with assms(1) show ?thesis
    by (cases files) (simp_all add: one_request_def step_ChangeThumbnail)
next
  case Submit
  with assms show ?thesis
    by (cases "validation (form s)")
      (simp_all add: one_request_def single_flight_def enabled_def mounted_def
        step_Submit_valid step_Submit_invalid Let_def)
next
  case (Settle i fulfilled)
  with assms have "i < length (pending s)"
    by (simp add: enabled_def)
  from one_request_pending [OF assms(1) this] this Settle show ?thesis
    by (cases fulfilled) (simp_all add: one_request_def step_Settle length_remove_nth)
qed (use assms in \<open>simp_all add: one_request_def single_flight_def step_change\<close>)

lemma reachable1_one_request: "reachable1 s \<Longrightarrow> one_request s"
proof (induction rule: reachable1.induct)
  case (init st)
  show ?case by (simp add: one_request_def initial_system_def)
next
  case (step s e s')
  then show ?case
    by (simp add: transition_iff_step one_request_step)
qed

lemma phase_simulation:
  assumes "one_request s" "single_flight s e" "enabled s e"
  shows "case stimulus_of s e of
      None \<Rightarrow> phase_of (step s e) = phase_of s
    | Some a \<Rightarrow> phase_step a (phase_of s) (phase_of (step s e))"
proof (cases e)
  case Submit
  with assms have "navigations s = []" "pending s = []" "rejections s = 0"
    by (simp_all add: single_flight_def enabled_def mounted_def one_request_def)
  from phase_of_Submit [OF this] Submit show ?thesis
    by (auto simp: stimulus_of_def intro: phase_step.intros split: safe_parse.splits)
next
  case (Settle i fulfilled)
  with assms have "i < length (pending s)"
    by (simp add: enabled_def)
  from phase_of_Settle [OF assms(1) this, of fulfilled] Settle show ?thesis
    by (auto simp: stimulus_of_def intro: phase_step.intros)
qed (use assms(2) in \<open>simp_all add: stimulus_of_def phase_of_change single_flight_def\<close>)

section \<open>Disciplined runs\<close>

fun disciplined :: "system \<Rightarrow> event list \<Rightarrow> bool" where
  "disciplined s [] = True"
| "disciplined s (e # es) = (single_flight s e \<and> disciplined (step s e) es)"

lemma reachable1_run:
  "reachable1 s \<Longrightarrow> run s es = Some t \<Longrightarrow> disciplined s es \<Longrightarrow> reachable1 t"
proof (induction es arbitrary: s)
  case Nil
  then show ?case by simp
next
  case (Cons e es)
  from Cons.prems(2) have en: "enabled s e" and rest: "run (step s e) es = Some t"
    by (simp_all split: if_splits)
  from Cons.prems(1,3) en have "reachable1 (step s e)"
    by (auto intro: reachable1.step simp: transition_iff_step)
  from this rest show ?case
    using Cons.prems(3) by (auto intro: Cons.IH)
qed


lemma reachable1_acme: "reachable1 acme_filled" "reachable1 acme_pending" "reachable1 acme_failed"
proof -
  have "reachable1 session0"
    unfolding session0_def by (rule reachable1.init)
  from reachable1_run [OF this run_fill_in] show 1: "reachable1 acme_filled"
    by (simp add: fill_in_def single_flight_def)
  have "transition acme_filled Submit acme_pending"
    by (simp add: transition_iff_step enabled_acme step_acme_filled)
  from reachable1.step [OF 1 _ this] show 2: "reachable1 acme_pending"
    by (simp add: single_flight_def session_defs initial_system_def)
  have "transition acme_pending (Settle 0 False) acme_failed"
    by (simp add: transition_iff_step enabled_acme step_acme_pending)
  from reachable1.step [OF 2 _ this] show "reachable1 acme_failed"
    by (simp add: single_flight_def)
qed

section \<open>Properties of the refinement\<close>

text \<open>
  C8. The life cycle refines the submission phases of the specification: as
  long as no submit happens while a request is in flight or after a
  rejection, every event of the component is the transition of the abstract
  machine that its stimulus labels, and the state it leads to is again
  reached under that discipline. A submit moves the machine as the result of
  validation says: to submitting when the cells pass, to invalid when they
  fail, and never the other way round; the settling of the request moves it
  to done or to failed by its outcome; every other event leaves the phase as
  it is.
\<close>

theorem phase_refinement:
  assumes "reachable1 s" "single_flight s e" "transition s e s'"
  shows "(case stimulus_of s e of
      None \<Rightarrow> phase_of s' = phase_of s
    | Some a \<Rightarrow> phase_step a (phase_of s) (phase_of s')) \<and> reachable1 s'"
proof -
  from assms(3) have en: "enabled s e" and s': "s' = step s e"
    by (simp_all add: transition_iff_step)
  from phase_simulation [OF reachable1_one_request [OF assms(1)] assms(2) en]
    reachable1.step [OF assms]
  show ?thesis unfolding s' by simp
qed

theorem phase_refinement_witness:
  "phase_of acme_pending = Submitting \<and> phase_of acme_failed = Failed \<and>
   phase_step RequestRejected (phase_of acme_pending) (phase_of acme_failed) \<and>
   phase_of acme_filled = Idle \<and>
   phase_step ValidationPassed (phase_of acme_filled) (phase_of acme_pending) \<and>
   reachable1 acme_failed"
proof -
  have t: "transition acme_pending (Settle 0 False) acme_failed"
    "transition acme_filled Submit acme_pending"
    by (simp_all add: transition_iff_step enabled_acme step_acme_filled step_acme_pending)
  have p: "phase_of acme_pending = Submitting" "phase_of acme_failed = Failed"
    "phase_of acme_filled = Idle"
    by (simp_all add: phase_of_def session_defs initial_system_def initial_state_def acme_draft_def)
  from phase_refinement [OF reachable1_acme(2) _ t(1)] phase_refinement [OF reachable1_acme(1) _ t(2)]
    p validation_acme
  show ?thesis
    by (simp add: single_flight_def stimulus_of_def acme_filled_def session0_def
        initial_system_def)
qed

text \<open>
  Under the single-flight discipline at most one request is ever sent:
  the requests in flight, the navigations and the rejections together number
  at most one, and so do the requests handed to \<^verbatim>\<open>api.post\<close>.
\<close>

theorem single_flight_one_request:
  assumes "reachable1 s"
  shows "length (posted s) \<le> 1 \<and> length (pending s) \<le> 1 \<and> length (navigations s) \<le> 1"
proof -
  from reachable_invariant [OF reachable1_reachable [OF assms]]
  have "length (posted s) = length (pending s) + length (navigations s) + rejections s"
    by (simp add: invariant_def accounted_def)
  with reachable1_one_request [OF assms] show ?thesis
    by (simp add: one_request_def)
qed

theorem single_flight_one_request_witness:
  "length (posted acme_failed) = 1 \<and> pending acme_failed = [] \<and> navigations acme_failed = []"
  using single_flight_one_request [OF reachable1_acme(3)]
  by (simp add: session_defs initial_system_def)

text \<open>
  C28. The code leaves the phase that the specification calls failed: after a
  rejected request the form is still mounted, and a submit of a valid draft
  is handled like a first one and sends a new request. The abstract machine
  has no transition out of that phase, whatever the stimulus.
\<close>

theorem failed_is_not_terminal:
  assumes "mounted s" "navigations s = []" "pending s = []" "rejections s \<noteq> 0"
    "validation (form s) = Success d"
  shows "phase_of s = Failed \<and> transition s Submit (step s Submit) \<and>
    phase_of (step s Submit) = Submitting \<and>
    stimulus_of s Submit = Some ValidationPassed \<and>
    (\<forall>a q. \<not> phase_step a (phase_of s) q)"
proof -
  from assms have f: "phase_of s = Failed"
    by (simp add: phase_of_def)
  from assms have "phase_of (step s Submit) = Submitting"
    by (simp add: phase_of_def step_Submit_valid Let_def)
  with f assms(1,5) show ?thesis
    by (simp add: transition_iff_step enabled_def phase_step_terminal stimulus_of_def)
qed

theorem failed_is_not_terminal_witness:
  "phase_of acme_failed = Failed \<and> transition acme_failed Submit (step acme_failed Submit) \<and>
   phase_of (step acme_failed Submit) = Submitting \<and>
   posted (step acme_failed Submit) = [acme_request, acme_request]"
proof -
  have v: "validation (form acme_failed) = Success (parsed_data acme_draft)"
    using validation_acme by (simp add: acme_failed_def acme_pending_def acme_filled_def)
  have "mounted acme_failed" "navigations acme_failed = []" "pending acme_failed = []"
      "rejections acme_failed \<noteq> 0"
    by (simp_all add: mounted_def session_defs initial_system_def)
  from failed_is_not_terminal [OF this v] show ?thesis
    by (simp add: step_Submit_valid [OF v] Let_def)
       (simp add: session_defs initial_system_def user_id_def getItem_def acme_draft_def)
qed

end
