(* ===== verification/Traces.thy ===== *)
theory Traces
  imports Sessions
begin

text \<open>
  The order of the calls that the handlers make on their surroundings. The
  effect trace of a state is read back as a sequence of handler runs
  (\<open>attempts\<close>): a submit that was refused (\<^verbatim>\<open>preventDefault\<close>, then \<^verbatim>\<open>setErrors\<close>
  with a non-empty error map), a submit that sent a request (\<^verbatim>\<open>preventDefault\<close>,
  then \<^verbatim>\<open>setErrors({})\<close>, then \<^verbatim>\<open>api.post\<close>), and a resumption that navigated.
  A trace that cannot be read in this way has no reading. \<open>sent\<close>,
  \<open>redirects\<close> and \<open>submissions\<close> project a reading to the requests, to the
  navigations, and to the submits with what each of them sent.
\<close>

section \<open>Reading a trace\<close>

datatype attempt = Refused "(field \<times> jsstring list) list" | Sent request | Redirected jsstring

fun attempts :: "effect list \<Rightarrow> attempt list option" where
  "attempts [] = Some []"
| "attempts (PreventDefault # SetErrors [] # Post r # es) = map_option ((#) (Sent r)) (attempts es)"
| "attempts (PreventDefault # SetErrors (e # fe) # es) =
     map_option ((#) (Refused (e # fe))) (attempts es)"
| "attempts (Navigate p # es) = map_option ((#) (Redirected p)) (attempts es)"
| "attempts _ = None"

fun sent :: "attempt list \<Rightarrow> request list" where
  "sent [] = []"
| "sent (Sent r # as) = r # sent as"
| "sent (_ # as) = sent as"

fun redirects :: "attempt list \<Rightarrow> jsstring list" where
  "redirects [] = []"
| "redirects (Redirected p # as) = p # redirects as"
| "redirects (_ # as) = redirects as"

fun submissions :: "attempt list \<Rightarrow> request list list" where
  "submissions [] = []"
| "submissions (Refused _ # as) = [] # submissions as"
| "submissions (Sent r # as) = [r] # submissions as"
| "submissions (Redirected _ # as) = submissions as"

definition trace_read :: "system \<Rightarrow> bool" where
  "trace_read s \<longleftrightarrow>
     (case attempts (trace s) of
        None \<Rightarrow> False
      | Some as \<Rightarrow> sent as = posted s \<and> redirects as = navigations s)"

section \<open>Appending a handler run\<close>

lemma attempts_append:
  "attempts es = Some as \<Longrightarrow>
   attempts (es @ fs) = (case attempts fs of None \<Rightarrow> None | Some bs \<Rightarrow> Some (as @ bs))"
  by (induction es arbitrary: as rule: attempts.induct) (auto split: option.splits)

lemma sent_append [simp]: "sent (as @ bs) = sent as @ sent bs"
  by (induction as rule: sent.induct) simp_all

lemma redirects_append [simp]: "redirects (as @ bs) = redirects as @ redirects bs"
  by (induction as rule: redirects.induct) simp_all

lemma submissions_append [simp]: "submissions (as @ bs) = submissions as @ submissions bs"
  by (induction as rule: submissions.induct) simp_all

lemma attempts_handler:
  "attempts [PreventDefault, SetErrors [], Post r] = Some [Sent r]"
  "fe \<noteq> [] \<Longrightarrow> attempts [PreventDefault, SetErrors fe] = Some [Refused fe]"
  "attempts [Navigate p] = Some [Redirected p]"
  by (cases fe; simp)+

section \<open>Every reachable trace can be read\<close>

lemma trace_read_initial: "trace_read (initial_system st)"
  by (simp add: trace_read_def initial_system_def)

lemma trace_read_step:
  assumes "trace_read s"
  shows "trace_read (step s e)"
proof -
  from assms obtain as where as: "attempts (trace s) = Some as" "sent as = posted s"
      "redirects as = navigations s"
    by (auto simp: trace_read_def split: option.splits)
  show ?thesis
  proof (cases e)
    case (ChangeThumbnail files)
    with as show ?thesis
      by (cases files) (simp_all add: trace_read_def step_ChangeThumbnail)
  next
    case Submit
    show ?thesis
    proof (cases "validation (form s)")
      case (Success d)
      with as show ?thesis
        by (simp add: Submit trace_read_def step_Submit_valid Let_def attempts_append
            attempts_handler)
    next
      case (Failure iss)
      with as failure_has_issue [OF Failure] show ?thesis
        by (simp add: Submit trace_read_def step_Submit_invalid attempts_append
            attempts_handler)
    qed
  next
    case (Settle i fulfilled)
    with as show ?thesis
      by (cases fulfilled)
         (simp_all add: trace_read_def step_Settle attempts_append attempts_handler)
  qed (use as in \<open>simp_all add: trace_read_def step_change step_Return\<close>)
qed

text \<open>
  C10. The calls of the handlers come in the order of the code: the effect
  trace of every reachable state is a sequence of complete handler runs, each
  a refused submit (\<^verbatim>\<open>preventDefault\<close>, then \<^verbatim>\<open>setErrors\<close> with at least one
  entry), a submit that sent a request (\<^verbatim>\<open>preventDefault\<close>, then
  \<^verbatim>\<open>setErrors({})\<close>, then \<^verbatim>\<open>api.post\<close>) or a navigation; the requests of its
  sending runs are the requests sent and its navigations the navigations, in
  order.
\<close>

theorem calls_in_order:
  assumes "reachable s"
  shows "\<exists>as. attempts (trace s) = Some as \<and> sent as = posted s \<and>
    redirects as = navigations s"
proof -
  from assms have "trace_read s"
    by (induction rule: reachable.induct)
       (simp_all add: trace_read_initial trace_read_step transition_iff_step)
  then show ?thesis
    by (auto simp: trace_read_def split: option.splits)
qed

theorem calls_in_order_witness:
  "attempts (trace acme_done) = Some [Sent acme_request, Redirected (js ''/dashboard'')] \<and>
   (\<exists>as. attempts (trace acme_done) = Some as \<and> sent as = posted acme_done \<and>
      redirects as = navigations acme_done)"
  using calls_in_order [OF reachable_acme(3)]
  by (simp add: session_defs initial_system_def)

end
