(* ===== verification/Attempts.thy ===== *)
theory Attempts
  imports Phases Traces
begin

text \<open>
  The submission attempts of a run, one by one. The specification gives its
  state machine per submission attempt; the code has no lock, so a run of the
  component holds any number of attempts, several of them in flight at once.

  A ledger records one entry per submit, in order: a declined attempt, or the
  request of an attempt that is awaiting its response, was fulfilled or was
  rejected (\<open>attempt_state\<close>). \<open>track\<close> keeps the ledger along an event, and
  \<open>tracked\<close> relates it to the state: the requests awaiting a response are
  the requests in flight, in order, so the \<open>i\<close>-th of them is the one that
  \<open>Settle i\<close> settles; and the entries, outcomes apart, are the submits that
  the effect trace records (\<open>trace_ledger\<close>), so the ledger holds nothing
  that the calls of the handlers do not show. Read through \<open>phase_at\<close>,
  every event is the step of the machine of the specification that its
  stimulus labels (\<open>stimulus_of\<close>), for one attempt, and leaves the others
  as they are, with no discipline asked of the user.
\<close>

section \<open>The ledger\<close>

datatype attempt_state = Declined | Awaiting request | Fulfilled request | Rejected request

type_synonym ledger = "attempt_state list"

fun phase_at :: "attempt_state \<Rightarrow> phase" where
  "phase_at Declined = Invalid"
| "phase_at (Awaiting _) = Submitting"
| "phase_at (Fulfilled _) = Done"
| "phase_at (Rejected _) = Failed"

fun request_of :: "attempt_state \<Rightarrow> request list" where
  "request_of Declined = []"
| "request_of (Awaiting r) = [r]"
| "request_of (Fulfilled r) = [r]"
| "request_of (Rejected r) = [r]"

fun awaited :: "attempt_state \<Rightarrow> request list" where
  "awaited (Awaiting r) = [r]"
| "awaited _ = []"

definition requests :: "ledger \<Rightarrow> request list" where
  "requests L = concat (map request_of L)"

definition awaiting :: "ledger \<Rightarrow> request list" where
  "awaiting L = concat (map awaited L)"

definition settled :: "bool \<Rightarrow> request \<Rightarrow> attempt_state" where
  "settled fulfilled r = (if fulfilled then Fulfilled r else Rejected r)"

fun settle_nth :: "nat \<Rightarrow> bool \<Rightarrow> ledger \<Rightarrow> ledger" where
  "settle_nth i b [] = []"
| "settle_nth 0 b (Awaiting r # L) = settled b r # L"
| "settle_nth (Suc i) b (Awaiting r # L) = Awaiting r # settle_nth i b L"
| "settle_nth i b (a # L) = a # settle_nth i b L"

definition opened :: "system \<Rightarrow> attempt_state" where
  "opened s =
     (case validation (form s) of
        Success _ \<Rightarrow> Awaiting (spot_request (user_id (storage s)) (form s))
      | Failure _ \<Rightarrow> Declined)"

fun track :: "system \<Rightarrow> event \<Rightarrow> ledger \<Rightarrow> ledger" where
  "track s Submit L = L @ [opened s]"
| "track s (Settle i fulfilled) L = settle_nth i fulfilled L"
| "track s _ L = L"

fun history :: "system \<Rightarrow> event list \<Rightarrow> ledger \<Rightarrow> ledger" where
  "history s [] L = L"
| "history s (e # es) L = history (step s e) es (track s e L)"

definition trace_ledger :: "effect list \<Rightarrow> ledger \<Rightarrow> bool" where
  "trace_ledger es L \<longleftrightarrow>
     (case attempts es of None \<Rightarrow> False | Some as \<Rightarrow> submissions as = map request_of L)"

definition tracked :: "system \<Rightarrow> ledger \<Rightarrow> bool" where
  "tracked s L \<longleftrightarrow>
     awaiting L = pending s \<and> requests L = posted s \<and>
     length (filter (\<lambda>a. phase_at a = Done) L) = length (navigations s) \<and>
     length (filter (\<lambda>a. phase_at a = Failed) L) = rejections s \<and>
     trace_ledger (trace s) L"

section \<open>The machine of the attempts\<close>

inductive attempts_step :: "stimulus option \<Rightarrow> phase list \<Rightarrow> phase list \<Rightarrow> bool" where
  stutter: "attempts_step None ps ps"
| start: "phase_step a Idle q \<Longrightarrow> attempts_step (Some a) ps (ps @ [q])"
| advance:
    "phase_step a Submitting q \<Longrightarrow>
     attempts_step (Some a) (xs @ Submitting # ys) (xs @ q # ys)"

code_pred attempts_step .

section \<open>Settling an entry\<close>

lemma requests_simps [simp]:
  "requests [] = []" "requests (a # L) = request_of a @ requests L"
  "requests (L @ M) = requests L @ requests M"
  by (simp_all add: requests_def)

lemma awaiting_simps [simp]:
  "awaiting [] = []" "awaiting (a # L) = awaited a @ awaiting L"
  "awaiting (L @ M) = awaiting L @ awaiting M"
  by (simp_all add: awaiting_def)

lemma settled_simps [simp]:
  "request_of (settled b r) = [r]" "awaited (settled b r) = []"
  "phase_at (settled b r) = (if b then Done else Failed)"
  by (simp_all add: settled_def)

lemma awaited_cases:
  obtains (other) "awaited a = []" | (awaiting) r where "a = Awaiting r"
  by (cases a) auto

lemma settle_nth_skip: "awaited a = [] \<Longrightarrow> settle_nth i b (a # L) = a # settle_nth i b L"
  by (cases a; cases i) simp_all

lemma settle_nth_ex_Cons:
  assumes "L = xs @ Awaiting r # ys" "settle_nth j b L = xs @ settled b r # ys"
    "length (awaiting xs) = j"
    and "settle_nth i b (a # L) = a # settle_nth j b L" "i = length (awaited a) + j"
  shows "\<exists>xs r ys. a # L = xs @ Awaiting r # ys \<and>
    settle_nth i b (a # L) = xs @ settled b r # ys \<and> length (awaiting xs) = i"
  using assms by (intro exI [of _ "a # xs"] exI [of _ r] exI [of _ ys]) simp

lemma settle_nth_ex:
  "i < length (awaiting L) \<Longrightarrow>
   \<exists>xs r ys. L = xs @ Awaiting r # ys \<and> settle_nth i b L = xs @ settled b r # ys \<and>
     length (awaiting xs) = i"
proof (induction L arbitrary: i)
  case Nil
  then show ?case by simp
next
  case (Cons a L)
  show ?case
  proof (cases a rule: awaited_cases)
    case other
    with Cons.prems have "i < length (awaiting L)" by simp
    from Cons.IH [OF this] obtain xs r ys where "L = xs @ Awaiting r # ys"
        "settle_nth i b L = xs @ settled b r # ys" "length (awaiting xs) = i"
      by blast
    from settle_nth_ex_Cons [OF this, of i a] other show ?thesis
      by (simp add: settle_nth_skip)
  next
    case (awaiting r)
    show ?thesis
    proof (cases i)
      case 0
      with awaiting show ?thesis
        by (intro exI [of _ "[]"] exI [of _ r] exI [of _ L]) simp
    next
      case (Suc j)
      with Cons.prems awaiting have "j < length (awaiting L)" by simp
      from Cons.IH [OF this] obtain xs r' ys where "L = xs @ Awaiting r' # ys"
          "settle_nth j b L = xs @ settled b r' # ys" "length (awaiting xs) = j"
        by blast
      from settle_nth_ex_Cons [OF this, of i a] awaiting Suc show ?thesis
        by simp
    qed
  qed
qed

lemma settle_nth_split:
  assumes "i < length (awaiting L)"
  obtains xs r ys where "L = xs @ Awaiting r # ys" "settle_nth i b L = xs @ settled b r # ys"
    "length (awaiting xs) = i"
  using settle_nth_ex [OF assms] by blast

lemma remove_nth_length_append [simp]:
  "remove_nth (length xs) (xs @ y # ys) = xs @ ys"
  by (simp add: remove_nth_def)

lemma trace_ledger_append:
  assumes "trace_ledger es L" "attempts fs = Some bs" "submissions bs = map request_of M"
  shows "trace_ledger (es @ fs) (L @ M)"
  using assms by (auto simp: trace_ledger_def attempts_append split: option.splits)

lemma tracked_settle:
  assumes "i < length (awaiting L)"
  shows "awaiting (settle_nth i b L) = remove_nth i (awaiting L)"
    "requests (settle_nth i b L) = requests L"
    "map request_of (settle_nth i b L) = map request_of L"
    "length (filter (\<lambda>a. phase_at a = Done) (settle_nth i b L)) =
       length (filter (\<lambda>a. phase_at a = Done) L) + (if b then 1 else 0)"
    "length (filter (\<lambda>a. phase_at a = Failed) (settle_nth i b L)) =
       length (filter (\<lambda>a. phase_at a = Failed) L) + (if b then 0 else 1)"
    "attempts_step (Some (if b then RequestFulfilled else RequestRejected))
       (map phase_at L) (map phase_at (settle_nth i b L))"
proof -
  from assms obtain xs r ys where s: "L = xs @ Awaiting r # ys"
      "settle_nth i b L = xs @ settled b r # ys" "length (awaiting xs) = i"
    by (rule settle_nth_split)
  then show "awaiting (settle_nth i b L) = remove_nth i (awaiting L)"
    by auto
  from s show "requests (settle_nth i b L) = requests L"
    "map request_of (settle_nth i b L) = map request_of L"
    "length (filter (\<lambda>a. phase_at a = Done) (settle_nth i b L)) =
       length (filter (\<lambda>a. phase_at a = Done) L) + (if b then 1 else 0)"
    "length (filter (\<lambda>a. phase_at a = Failed) (settle_nth i b L)) =
       length (filter (\<lambda>a. phase_at a = Failed) L) + (if b then 0 else 1)"
    by simp_all
  have "phase_step (if b then RequestFulfilled else RequestRejected) Submitting
      (phase_at (settled b r))"
    by (simp add: phase_step.intros)
  from attempts_step.advance [OF this] s(1,2)
  show "attempts_step (Some (if b then RequestFulfilled else RequestRejected))
      (map phase_at L) (map phase_at (settle_nth i b L))"
    by simp
qed

section \<open>Every event keeps the ledger\<close>

lemma tracked_initial: "tracked (initial_system st) []"
  by (simp add: tracked_def trace_ledger_def initial_system_def)

lemma tracked_Submit:
  assumes "tracked s L"
  shows "tracked (step s Submit) (L @ [opened s])"
    "attempts_step (stimulus_of s Submit) (map phase_at L) (map phase_at (L @ [opened s]))"
proof -
  show "tracked (step s Submit) (L @ [opened s])"
  proof (cases "validation (form s)")
    case (Success d)
    with assms trace_ledger_append [of "trace s" L _ "[Sent _]" "[Awaiting _]"] show ?thesis
      by (simp add: tracked_def opened_def step_Submit_valid Let_def attempts_handler)
  next
    case (Failure iss)
    with assms failure_has_issue [OF Failure]
      trace_ledger_append [of "trace s" L _ "[Refused _]" "[Declined]"]
    show ?thesis
      by (simp add: tracked_def opened_def step_Submit_invalid attempts_handler)
  qed
  obtain a where a: "stimulus_of s Submit = Some a" "phase_step a Idle (phase_at (opened s))"
    by (cases "validation (form s)")
      (simp_all add: stimulus_of_def opened_def phase_step_simps editable_def)
  from attempts_step.start [OF a(2)] a(1) show
    "attempts_step (stimulus_of s Submit) (map phase_at L) (map phase_at (L @ [opened s]))"
    by simp
qed

lemma trace_ledger_Settle:
  assumes "trace_ledger (trace s) L" "i < length (awaiting L)"
  shows "trace_ledger (trace (step s (Settle i b))) (settle_nth i b L)"
proof -
  from assms(1) tracked_settle(3) [OF assms(2), of b]
  have t: "trace_ledger (trace s) (settle_nth i b L)"
    by (simp add: trace_ledger_def split: option.splits)
  from trace_ledger_append [OF t, of "[Navigate (js ''/dashboard'')]" _ "[]"] t show ?thesis
    by (cases b) (simp_all add: step_Settle attempts_handler)
qed

lemma tracked_step:
  assumes "tracked s L" "enabled s e"
  shows "tracked (step s e) (track s e L) \<and>
    attempts_step (stimulus_of s e) (map phase_at L) (map phase_at (track s e L))"
proof (cases e)
  case Submit
  with tracked_Submit [OF assms(1)] show ?thesis
    by simp
next
  case (Settle i b)
  with assms have "i < length (awaiting L)"
    by (simp add: enabled_def tracked_def)
  from tracked_settle [OF this, of b] trace_ledger_Settle [OF _ this, of s b] assms(1) Settle
  show ?thesis
    by (cases b) (simp_all add: tracked_def step_Settle stimulus_of_def)
qed (use assms(1) in
    \<open>simp_all add: tracked_def step_other_frame stimulus_of_def attempts_step.stutter\<close>)

lemma tracked_history:
  "tracked s L \<Longrightarrow> run s es = Some t \<Longrightarrow> tracked t (history s es L)"
proof (induction es arbitrary: s L)
  case Nil
  then show ?case by simp
next
  case (Cons e es)
  from Cons.prems(2) have en: "enabled s e" and rest: "run (step s e) es = Some t"
    by (simp_all split: if_splits)
  from tracked_step [OF Cons.prems(1) en] rest show ?case
    by (simp add: Cons.IH)
qed

lemma reachable_tracked: "reachable s \<Longrightarrow> \<exists>L. tracked s L"
proof (induction rule: reachable.induct)
  case (init st)
  from tracked_initial show ?case ..
next
  case (step s e s')
  then obtain L where "tracked s L" by blast
  with step.hyps(2) have "tracked s' (track s e L)"
    by (simp add: transition_iff_step tracked_step)
  then show ?case ..
qed

section \<open>Attempts that have ended\<close>

lemma length_settle_nth [simp]: "length (settle_nth i b L) = length L"
  by (induction i b L rule: settle_nth.induct) simp_all

lemma settle_nth_nth:
  "j < length L \<Longrightarrow> awaited (L ! j) = [] \<Longrightarrow> settle_nth i b L ! j = L ! j"
  by (induction i b L arbitrary: j rule: settle_nth.induct) (auto simp: nth_Cons split: nat.splits)

lemma track_nth:
  assumes "j < length L" "awaited (L ! j) = []"
  shows "j < length (track s e L) \<and> track s e L ! j = L ! j"
  using assms by (cases e) (simp_all add: settle_nth_nth nth_append)

lemma history_nth:
  "j < length L \<Longrightarrow> awaited (L ! j) = [] \<Longrightarrow>
   j < length (history s es L) \<and> history s es L ! j = L ! j"
proof (induction es arbitrary: s L)
  case Nil
  then show ?case by simp
next
  case (Cons e es)
  from track_nth [OF Cons.prems, of s e] have t: "j < length (track s e L)"
      "track s e L ! j = L ! j"
    by simp_all
  with Cons.prems(2) have "awaited (track s e L ! j) = []"
    by simp
  from Cons.IH [OF t(1) this, of "step s e"] t(2) show ?case
    by simp
qed

section \<open>The ledger of the sessions\<close>

lemma tracked_acme:
  "tracked acme_filled []" "tracked acme_pending [Awaiting acme_request]"
  "tracked acme_failed [Rejected acme_request]" "tracked acme_done [Fulfilled acme_request]"
  by (simp_all add: tracked_def trace_ledger_def session_defs initial_system_def)

lemma opened_cong: "form t = form s \<Longrightarrow> storage t = storage s \<Longrightarrow> opened t = opened s"
  by (simp add: opened_def split: safe_parse.split)

lemma opened_acme: "opened acme_filled = Awaiting acme_request"
  "opened acme_pending = Awaiting acme_request" "opened acme_failed = Awaiting acme_request"
proof -
  show f: "opened acme_filled = Awaiting acme_request"
    using validation_acme
    by (simp add: opened_def) (simp add: session_defs initial_system_def user_id_def getItem_def
        acme_draft_def)
  have "opened acme_pending = opened acme_filled" "opened acme_failed = opened acme_filled"
    by (rule opened_cong; simp add: acme_pending_def acme_failed_def)+
  with f show "opened acme_pending = Awaiting acme_request"
    "opened acme_failed = Awaiting acme_request"
    by simp_all
qed

section \<open>Properties of the attempts\<close>

text \<open>
  C7. Every run refines the machine of the specification attempt by attempt,
  with no discipline asked of the user: an event without a stimulus leaves
  every attempt as it is, a submit opens a new attempt that goes from idle to
  submitting when validation passed and to invalid when it failed, and the
  settling of a request takes one attempt from submitting to done or to
  failed, by its outcome, and leaves the others alone. The ledger stays in step with the state: the
  attempts awaiting a response are the requests in flight, in order, the
  requests of all attempts are the requests handed to \<^verbatim>\<open>api.post\<close>, the
  attempts that are done and failed number the navigations and the
  rejections, and the attempts are the submits that the effect trace
  records.
\<close>

theorem attempt_refinement:
  assumes "tracked s L" "transition s e s'"
  shows "tracked s' (track s e L) \<and>
    attempts_step (stimulus_of s e) (map phase_at L) (map phase_at (track s e L))"
  using assms tracked_step [of s L e] by (simp add: transition_iff_step)

theorem attempt_refinement_witness:
  "tracked acme_failed (track acme_pending (Settle 0 False) [Awaiting acme_request]) \<and>
   track acme_pending (Settle 0 False) [Awaiting acme_request] = [Rejected acme_request] \<and>
   attempts_step (Some RequestRejected) [Submitting] [Failed]"
proof -
  have "transition acme_pending (Settle 0 False) acme_failed"
    by (simp add: transition_iff_step enabled_acme step_acme_pending)
  from attempt_refinement [OF tracked_acme(2) this] show ?thesis
    by (simp add: settled_def stimulus_of_def)
qed

text \<open>
  An attempt that has ended stays as it ended: once a submit was declined,
  or its request was fulfilled or rejected, no later event of the run changes
  the entry of that attempt. A submit after a rejection is a new attempt; the
  failed one is terminal, as the specification has it per attempt, while the
  form goes on.
\<close>

theorem ended_attempts_stay:
  assumes "j < length L" "phase_at (L ! j) \<noteq> Submitting"
  shows "j < length (history s es L) \<and> history s es L ! j = L ! j"
proof -
  from assms(2) have "awaited (L ! j) = []"
    by (cases "L ! j") simp_all
  with assms(1) show ?thesis
    by (rule history_nth)
qed

theorem ended_attempts_stay_witness:
  "history acme_failed [Submit, Settle 0 True] [Rejected acme_request] =
     [Rejected acme_request, Fulfilled acme_request] \<and>
   history acme_failed [Submit, Settle 0 True] [Rejected acme_request] ! 0 =
     Rejected acme_request"
  using ended_attempts_stay [of 0 "[Rejected acme_request]" acme_failed "[Submit, Settle 0 True]"]
  by (simp add: opened_acme settled_def)

section \<open>The phase of the form and its last attempt\<close>

text \<open>
  \<open>Phases\<close> reads one phase off the state of the form; the ledger holds one
  phase per attempt. Under the discipline of \<open>Phases\<close> the two agree: the
  phase of the form is the phase of the last entry of the ledger
  (\<open>coherent\<close>).
\<close>

definition last_phase :: "ledger \<Rightarrow> phase" where
  "last_phase L = (case L of [] \<Rightarrow> Idle | _ \<Rightarrow> phase_at (last L))"

lemma last_phase_snoc [simp]: "last_phase (L @ [a]) = phase_at a"
  by (cases L) (simp_all add: last_phase_def)

lemma last_phase_last: "L \<noteq> [] \<Longrightarrow> last_phase L = phase_at (last L)"
  by (cases L) (simp_all add: last_phase_def)

lemma phase_at_opened:
  "phase_at (opened s) =
     (case validation (form s) of Success _ \<Rightarrow> Submitting | Failure _ \<Rightarrow> Invalid)"
  by (simp add: opened_def split: safe_parse.split)

lemma awaiting_last:
  assumes "length (awaiting L) = 1" "last_phase L = Submitting"
  shows "last_phase (settle_nth 0 b L) = (if b then Done else Failed)"
proof -
  from assms(1) have "0 < length (awaiting L)" by simp
  then obtain xs r ys where s: "L = xs @ Awaiting r # ys"
      "settle_nth 0 b L = xs @ settled b r # ys" "length (awaiting xs) = 0"
    by (rule settle_nth_split)
  with assms(1) have "awaiting ys = []" by simp
  have "ys = []"
  proof (rule ccontr)
    assume "ys \<noteq> []"
    with s(1) assms(2) have "phase_at (last ys) = Submitting"
      by (simp add: last_phase_last)
    then obtain r' where "last ys = Awaiting r'"
      by (cases "last ys") simp_all
    with \<open>ys \<noteq> []\<close> have "awaiting (butlast ys @ [Awaiting r']) = []"
      using \<open>awaiting ys = []\<close> by (metis append_butlast_last_id)
    then show False by simp
  qed
  with s(2) show ?thesis
    by simp
qed

lemma last_phase_step:
  assumes "one_request s" "single_flight s e" "enabled s e" "tracked s L"
    "phase_of s = last_phase L"
  shows "phase_of (step s e) = last_phase (track s e L)"
proof (cases e)
  case Submit
  with assms have "navigations s = []" "pending s = []" "rejections s = 0"
    by (simp_all add: single_flight_def enabled_def mounted_def one_request_def)
  from phase_of_Submit [OF this] Submit show ?thesis
    by (simp add: phase_at_opened)
next
  case (Settle i b)
  with assms(3) have i: "i < length (pending s)"
    by (simp add: enabled_def)
  note one = one_request_pending [OF assms(1) i]
  from one(1) i have "i = 0" by simp
  moreover from one(1) assms(4) have "length (awaiting L) = 1"
    by (simp add: tracked_def)
  moreover from phase_of_Settle [OF assms(1) i, of b] assms(5)
  have "last_phase L = Submitting" "phase_of (step s e) = (if b then Done else Failed)"
    by (simp_all add: Settle)
  ultimately show ?thesis
    using Settle by (simp add: awaiting_last)
qed (use assms(2,5) in \<open>simp_all add: phase_of_change single_flight_def\<close>)

definition coherent :: "system \<Rightarrow> ledger \<Rightarrow> bool" where
  "coherent s L \<longleftrightarrow> one_request s \<and> tracked s L \<and> phase_of s = last_phase L"

lemma coherent_initial: "coherent (initial_system st) []"
  using tracked_initial [of st]
  by (simp add: coherent_def one_request_def phase_of_def last_phase_def initial_system_def
      initial_state_def)

lemma coherent_step:
  assumes "coherent s L" "single_flight s e" "enabled s e"
  shows "coherent (step s e) (track s e L)"
  using assms one_request_step [of s e] tracked_step [of s L e] last_phase_step [of s e L]
  by (simp add: coherent_def)

lemma coherent_run:
  "coherent s L \<Longrightarrow> run s es = Some t \<Longrightarrow> disciplined s es \<Longrightarrow>
   coherent t (history s es L)"
proof (induction es arbitrary: s L)
  case Nil
  then show ?case by simp
next
  case (Cons e es)
  from Cons.prems(2) have en: "enabled s e" and rest: "run (step s e) es = Some t"
    by (simp_all split: if_splits)
  from Cons.prems(1,3) en have "coherent (step s e) (track s e L)"
    by (simp add: coherent_step)
  from Cons.IH [OF this rest] Cons.prems(3) show ?case
    by simp
qed

text \<open>
  C9. Under the single-flight discipline the two readings of the
  specification's machine agree: the phase of the form is the phase of its
  last attempt, idle while there is none. The discipline is what makes the
  form have one phase; without it several attempts are in different phases
  at once.
\<close>

theorem form_phase_is_last_attempt:
  assumes "coherent s L" "single_flight s e" "transition s e s'"
  shows "phase_of s' = last_phase (track s e L) \<and> coherent s' (track s e L)"
  using assms coherent_step [of s L e]
  by (simp add: transition_iff_step) (simp add: coherent_def)

theorem form_phase_is_last_attempt_witness:
  "phase_of acme_failed = Failed \<and>
   last_phase (track acme_pending (Settle 0 False) [Awaiting acme_request]) = Failed"
proof -
  have "coherent acme_pending [Awaiting acme_request]"
    using tracked_acme(2) reachable1_one_request [OF reachable1_acme(2)]
    by (simp add: coherent_def) (simp add: phase_of_def last_phase_def session_defs
        initial_system_def)
  moreover have "transition acme_pending (Settle 0 False) acme_failed"
    by (simp add: transition_iff_step enabled_acme step_acme_pending)
  ultimately show ?thesis
    using form_phase_is_last_attempt [of acme_pending "[Awaiting acme_request]" "Settle 0 False"
        acme_failed]
    by (simp add: single_flight_def settled_def last_phase_def)
qed

end
