(* ===== verification/Environment.thy ===== *)
theory Environment
  imports Sessions
begin

text \<open>
  The surroundings of the component over time: the router that mounts and
  unmounts it, the stored identity that \<^verbatim>\<open>handleSubmit\<close> reads (line 61 of
  \<^verbatim>\<open>src/pages/New/index.jsx\<close>), and the requests in flight, which outlive the
  instance that sent them and settle one by one.

  The first section settles the requests in flight one after the other:
  \<open>drain\<close> settles the oldest request until none is left, with the outcomes
  given by a function of the number of requests still in flight, and
  \<open>schedule\<close> is the list of events it handles. The second reads the stored
  pairs as a finite map. The properties show what a sequence of resumptions
  of \<^verbatim>\<open>handleSubmit\<close> does, whatever the order and the outcomes; what a visit
  to the form keeps and what it loses; and what a request carries as
  identity, whatever other code does to the storage (a write, the removal of
  a key, the removal of all keys).
\<close>

section \<open>Settling until nothing is in flight\<close>

lemma pending_Settle [simp]:
  "pending (step s (Settle i fulfilled)) = remove_nth i (pending s)"
  by (cases fulfilled) (simp_all add: step_Settle)

lemma settle_frame [simp]:
  "form (step s (Settle i fulfilled)) = form s"
  "posted (step s (Settle i fulfilled)) = posted s"
  "object_urls (step s (Settle i fulfilled)) = object_urls s"
  "storage (step s (Settle i fulfilled)) = storage s"
  "crashed (step s (Settle i fulfilled)) = crashed s"
  by (cases fulfilled; simp add: step_Settle)+

lemma settle_step_outcome:
  "navigations (step s (Settle i b)) = navigations s @ (if b then [js ''/dashboard''] else [])"
  "rejections (step s (Settle i b)) = rejections s + (if b then 0 else 1)"
  "trace (step s (Settle i b)) = trace s @ (if b then [Navigate (js ''/dashboard'')] else [])"
  by (cases b; simp add: step_Settle)+

function drain :: "(nat \<Rightarrow> bool) \<Rightarrow> system \<Rightarrow> system" where
  "drain outcome s =
     (if pending s = [] then s
      else drain outcome (step s (Settle 0 (outcome (length (pending s))))))"
  by pat_completeness auto

termination
  by (relation "measure (\<lambda>(outcome, s). length (pending s))")
     (auto simp: length_remove_nth)

declare drain.simps [simp del]

fun schedule :: "(nat \<Rightarrow> bool) \<Rightarrow> nat \<Rightarrow> event list" where
  "schedule outcome 0 = []"
| "schedule outcome (Suc n) = Settle 0 (outcome (Suc n)) # schedule outcome n"

lemma run_schedule:
  "length (pending s) = n \<Longrightarrow> run s (schedule outcome n) = Some (drain outcome s)"
proof (induction n arbitrary: s)
  case 0
  then show ?case by (subst drain.simps) simp
next
  case (Suc n)
  let ?t = "step s (Settle 0 (outcome (Suc n)))"
  from Suc.prems have "length (pending ?t) = n"
    by (simp add: length_remove_nth)
  from Suc.IH [OF this] Suc.prems show ?case
    by (subst drain.simps) (auto simp: enabled_def)
qed

lemma pending_drain [simp]: "pending (drain outcome s) = []"
  by (induction outcome s rule: drain.induct) (subst drain.simps, simp)

lemma drain_frame [simp]:
  "form (drain outcome s) = form s"
  "posted (drain outcome s) = posted s"
  "object_urls (drain outcome s) = object_urls s"
  by (induction outcome s rule: drain.induct; subst drain.simps, simp)+

section \<open>The stored identity\<close>

text \<open>
  The stored pairs are kept as a list with one pair per key. Read through
  \<open>getItem\<close> the list is a finite map, and the three operations that change
  it are the update, the removal and the emptying of that map.
\<close>

lemma map_of_filter_key:
  "map_of (filter (\<lambda>(k', _). k' \<noteq> key) st) k = (if k = key then None else map_of st k)"
  by (induction st) auto

lemma getItem_setItem:
  "getItem (setItem key v st) k = (if k = key then Some v else getItem st k)"
  by (simp add: getItem_def setItem_def map_of_filter_key)

lemma getItem_removeItem:
  "getItem (removeItem key st) k = (if k = key then None else getItem st k)"
  by (simp add: getItem_def removeItem_def map_of_filter_key)

lemma getItem_clear: "getItem (clear st) k = None"
  by (simp add: getItem_def clear_def)

lemma storage_refines_map:
  "getItem (setItem key v st) = (getItem st)(key \<mapsto> v)"
  "getItem (removeItem key st) = (getItem st)(key := None)"
  "getItem (clear st) = Map.empty"
  by (rule ext; simp add: getItem_setItem getItem_removeItem getItem_clear)+

lemma setItem_distinct: "distinct (map fst st) \<Longrightarrow> distinct (map fst (setItem key v st))"
  by (auto simp: setItem_def distinct_map_filter)

lemma removeItem_distinct: "distinct (map fst st) \<Longrightarrow> distinct (map fst (removeItem key st))"
  by (simp add: removeItem_def distinct_map_filter)

lemma user_id_setItem:
  "user_id (setItem key v st) = (if key = js ''user'' then Some v else user_id st)"
  unfolding user_id_def getItem_setItem by auto

lemma user_id_removeItem:
  "user_id (removeItem key st) = (if key = js ''user'' then None else user_id st)"
  unfolding user_id_def getItem_removeItem by auto

lemma user_id_clear: "user_id (clear st) = None"
  by (simp add: user_id_def getItem_clear)

lemmas user_id_storage = user_id_setItem user_id_removeItem user_id_clear

section \<open>Sessions beyond one visit\<close>

definition anonymous_filled :: system where
  "anonymous_filled = (initial_system [])\<lparr>form := acme_draft\<rparr>"

lemma step_Leave: "step s (Leave target) = s\<lparr>place := Elsewhere target\<rparr>"
  by (simp add: step.simps)

lemma Leave_Return:
  assumes "\<not> crashed s"
  shows "enabled s (Leave target)" "enabled (step s (Leave target)) Return"
    "step (step s (Leave target)) Return =
       s\<lparr>form := initial_state, preview := None, place := FormPage\<rparr>"
  using assms by (simp_all add: enabled_def step_Leave step_Return)

section \<open>Properties of the surroundings\<close>

text \<open>
  C20. What resuming \<^verbatim>\<open>handleSubmit\<close> after its \<^verbatim>\<open>await\<close> does, for any sequence
  of settlements, in any order and with any outcomes: a run that only settles
  requests is at most as long as the list of requests in flight, and each of
  its events takes one request out of that list. It navigates to
  \<^verbatim>\<open>/dashboard\<close> once for every fulfilled request and does nothing more: a
  rejected request adds one unhandled rejection and no call. No request is
  sent again, and the cells of the form and the storage stay as they were.
\<close>

theorem settling_outcomes:
  assumes "run s (map (\<lambda>(i, fulfilled). Settle i fulfilled) rs) = Some t"
  shows "length rs \<le> length (pending s) \<and>
    length (pending t) = length (pending s) - length rs \<and>
    set (pending t) \<subseteq> set (pending s) \<and>
    navigations t = navigations s @ replicate (length (filter snd rs)) (js ''/dashboard'') \<and>
    trace t = trace s @ replicate (length (filter snd rs)) (Navigate (js ''/dashboard'')) \<and>
    rejections t = rejections s + length (filter (\<lambda>r. \<not> snd r) rs) \<and>
    posted t = posted s \<and> form t = form s \<and> storage t = storage s"
  using assms
proof (induction rs arbitrary: s)
  case Nil
  then show ?case by simp
next
  case (Cons r rs)
  obtain i b where r: "r = (i, b)" by (cases r)
  from Cons.prems r have i: "i < length (pending s)"
    and run: "run (step s (Settle i b)) (map (\<lambda>(i, fulfilled). Settle i fulfilled) rs) = Some t"
    by (simp_all add: enabled_def split: if_splits)
  from Cons.IH [OF run] i set_remove_nth [of i "pending s"] show ?case
    by (cases b) (auto simp: r settle_step_outcome length_remove_nth replicate_append_same)
qed

theorem settling_outcomes_witness:
  "\<exists>t. run (step acme_pending Submit) [Settle 1 False, Settle 0 True] = Some t \<and>
     pending t = [] \<and> navigations t = [js ''/dashboard''] \<and> rejections t = 1 \<and>
     posted t = [acme_request, acme_request]"
proof -
  let ?s = "step acme_pending Submit"
  have v: "validation (form acme_pending) = Success (parsed_data acme_draft)"
    using validation_acme by (simp add: acme_pending_def acme_filled_def)
  have p: "pending ?s = [acme_request, acme_request]" "posted ?s = [acme_request, acme_request]"
    "navigations ?s = []" "rejections ?s = 0"
    by (simp_all add: step_Submit_valid [OF v] Let_def)
       (simp_all add: session_defs initial_system_def user_id_def getItem_def)
  then have "run ?s (map (\<lambda>(i, fulfilled). Settle i fulfilled) [(1, False), (0, True)]) =
      Some (step (step ?s (Settle 1 False)) (Settle 0 True))"
    by (simp add: enabled_def)
  from settling_outcomes [OF this] p show ?thesis
    by (simp add: enabled_def)
qed

text \<open>
  Every request in flight can settle: from any state, settling the oldest
  request again and again is a run of as many events as there are requests in
  flight, whatever the outcomes; it ends with no request in flight, has sent
  no request and has left the cells of the form as they were.
\<close>

theorem drain_settles_all:
  "run s (schedule outcome (length (pending s))) = Some (drain outcome s) \<and>
   length (schedule outcome (length (pending s))) = length (pending s) \<and>
   pending (drain outcome s) = [] \<and> posted (drain outcome s) = posted s \<and>
   form (drain outcome s) = form s"
proof -
  have "length (schedule outcome n) = n" for n
    by (induction n) simp_all
  then show ?thesis
    by (simp add: run_schedule)
qed

theorem drain_settles_all_witness:
  "drain (\<lambda>n. True) acme_pending = acme_done \<and> pending acme_done = []"
proof -
  have "length (pending acme_pending) = 1"
    by (simp add: acme_pending_def)
  with drain_settles_all [of acme_pending "\<lambda>n. True"] show ?thesis
    by (simp add: enabled_acme step_acme_pending) (simp add: acme_done_def)
qed

text \<open>
  Leaving the form loses the draft and nothing else: when the user leaves
  the mounted form and opens it again, the new instance starts with the
  initial values of the cells and no preview; the requests in flight, the
  object URLs made for earlier previews and the stored values stay as they
  were.
\<close>

theorem remount_resets_draft:
  assumes "mounted s"
  shows "run s [Leave target, Return] = Some (s\<lparr>form := initial_state, preview := None\<rparr>)"
  using assms by (simp add: mounted_def Leave_Return)

theorem remount_resets_draft_witness:
  "run acme_pending [Leave (js ''/profile''), Return] =
     Some (acme_pending\<lparr>form := initial_state, preview := None\<rparr>) \<and>
   pending (acme_pending\<lparr>form := initial_state, preview := None\<rparr>) = [acme_request] \<and>
   object_urls (acme_pending\<lparr>form := initial_state, preview := None\<rparr>) =
     [(blob_url 0, valid_jpeg)]"
  using remount_resets_draft [of acme_pending "js ''/profile''"]
  by (simp add: mounted_def session_defs initial_system_def)

text \<open>
  C22. A request outlives the instance that sent it: after the user has left
  and opened the form again, a request of the earlier visit still settles.
  When it is fulfilled, its handler navigates to \<^verbatim>\<open>/dashboard\<close> and unmounts the
  new instance; when it is rejected, the new instance stays mounted. Nothing
  cancels a request on teardown.
\<close>

theorem request_outlives_instance:
  assumes "\<not> crashed s" "i < length (pending s)"
  shows "\<exists>t. run s [Leave target, Return, Settle i fulfilled] = Some t \<and>
    pending t = remove_nth i (pending s) \<and> form t = initial_state \<and>
    mounted t = (\<not> fulfilled) \<and>
    navigations t = navigations s @ (if fulfilled then [js ''/dashboard''] else [])"
proof -
  let ?u = "s\<lparr>form := initial_state, preview := None, place := FormPage\<rparr>"
  from assms(1) have "run s [Leave target, Return, Settle i fulfilled] = run ?u [Settle i fulfilled]"
    by (simp add: Leave_Return)
  moreover from assms(2) have "enabled ?u (Settle i fulfilled)"
    by (simp add: enabled_def)
  ultimately have "run s [Leave target, Return, Settle i fulfilled] =
      Some (step ?u (Settle i fulfilled))"
    by simp
  moreover from assms(1) have "pending (step ?u (Settle i fulfilled)) = remove_nth i (pending s)"
      "form (step ?u (Settle i fulfilled)) = initial_state"
      "mounted (step ?u (Settle i fulfilled)) = (\<not> fulfilled)"
      "navigations (step ?u (Settle i fulfilled)) =
         navigations s @ (if fulfilled then [js ''/dashboard''] else [])"
    by (cases fulfilled; simp add: step_Settle mounted_def)+
  ultimately show ?thesis
    by (simp del: run.simps)
qed

theorem request_outlives_instance_witness:
  "\<exists>t. run acme_pending [Leave (js ''/profile''), Return, Settle 0 True] = Some t \<and>
     pending t = [] \<and> form t = initial_state \<and> \<not> mounted t \<and>
     navigations t = [js ''/dashboard'']"
  using request_outlives_instance [of acme_pending 0 "js ''/profile''" True]
  by (simp add: session_defs initial_system_def del: run.simps)

text \<open>
  C27. The identity is read at the submit: a request carries in its \<^verbatim>\<open>user_id\<close>
  header the value stored under \<^verbatim>\<open>user\<close> when the form was submitted. After
  other code has written the key, a submit of a valid draft sends the new
  value; after it has removed the key or emptied the storage, the submit
  still sends its request, with \<^verbatim>\<open>null\<close> for the header. The requests already
  in flight keep the header they were sent with.
\<close>

theorem identity_read_at_submit:
  assumes "mounted s" "validation (form s) = Success d"
    and "e = StorageWrite (js ''user'') v \<or> e = StorageRemove (js ''user'') \<or> e = StorageClear"
  shows "\<exists>t. run s [e, Submit] = Some t \<and>
    pending t =
      pending s @ [spot_request (case e of StorageWrite _ x \<Rightarrow> Some x | _ \<Rightarrow> None) (form s)] \<and>
    posted t =
      posted s @ [spot_request (case e of StorageWrite _ x \<Rightarrow> Some x | _ \<Rightarrow> None) (form s)]"
proof -
  have "validation (form (step s e)) = Success d" "mounted (step s e)" "enabled s e"
      "user_id (storage (step s e)) = (case e of StorageWrite _ x \<Rightarrow> Some x | _ \<Rightarrow> None)"
      "pending (step s e) = pending s" "posted (step s e) = posted s" "form (step s e) = form s"
    using assms by (auto simp: step_change mounted_def enabled_def user_id_storage)
  then show ?thesis
    by (simp add: enabled_def step_Submit_valid Let_def)
qed

theorem identity_read_at_submit_witness:
  "(\<exists>t. run acme_pending [StorageWrite (js ''user'') (js ''8''), Submit] = Some t \<and>
     map headers (pending t) =
       [[(js ''user_id'', Some (js ''7''))], [(js ''user_id'', Some (js ''8''))]]) \<and>
   (\<exists>t. run acme_pending [StorageClear, Submit] = Some t \<and>
     map headers (pending t) = [[(js ''user_id'', Some (js ''7''))], [(js ''user_id'', None)]])"
proof -
  have "mounted acme_pending" "validation (form acme_pending) = Success (parsed_data acme_draft)"
    using validation_acme by (simp_all add: mounted_def session_defs initial_system_def)
  from identity_read_at_submit [OF this, of "StorageWrite (js ''user'') (js ''8'')" "js ''8''"]
    identity_read_at_submit [OF this, of StorageClear]
  show ?thesis
    by (auto simp: session_defs spot_request_def simp del: run.simps)
qed

text \<open>
  C39. Without a stored identity the request is sent all the same: when nothing
  is stored under \<^verbatim>\<open>user\<close>, a submit of a valid draft is handled like any other
  and hands \<^verbatim>\<open>api.post\<close> a request whose \<^verbatim>\<open>user_id\<close> header is \<^verbatim>\<open>null\<close>.
\<close>

theorem missing_identity_sent_as_null:
  assumes "mounted s" "validation (form s) = Success d" "user_id (storage s) = None"
  shows "transition s Submit (step s Submit) \<and>
    posted (step s Submit) = posted s @ [spot_request None (form s)] \<and>
    headers (spot_request None (form s)) = [(js ''user_id'', None)]"
  using assms
  by (simp add: transition_iff_step enabled_def step_Submit_valid Let_def spot_request_def)

theorem missing_identity_sent_as_null_witness:
  "transition anonymous_filled Submit (step anonymous_filled Submit) \<and>
   map headers (posted (step anonymous_filled Submit)) = [[(js ''user_id'', None)]]"
proof -
  have "mounted anonymous_filled" "user_id (storage anonymous_filled) = None"
      "validation (form anonymous_filled) = Success (parsed_data acme_draft)"
    using validation_valid [OF acme_fields_ok]
    by (simp_all add: anonymous_filled_def mounted_def initial_system_def user_id_def getItem_def)
  from missing_identity_sent_as_null [OF this(1,3,2)] show ?thesis
    by (simp add: anonymous_filled_def initial_system_def spot_request_def)
qed

end
