(* ===== verification/Literals.thy ===== *)
theory Literals
  imports ECMAScript
begin

text \<open>
  A recogniser for the numeric string grammar: \<open>decimal_literal\<close> decides by
  computation whether a whole string is a \<open>StrDecimalLiteral\<close>, where
  \<open>parseFloat\<close> only asks for a prefix. It reads a string the way
  \<open>parseUnsigned\<close> does (an optional sign, the digits before the dot, the
  digits after it, the exponent) and accepts when nothing is left over.
\<close>

section \<open>The recogniser\<close>

definition signed_integer :: "jsstring \<Rightarrow> bool" where
  "signed_integer s =
     (case s of
        [] \<Rightarrow> False
      | c # ds \<Rightarrow> if c = 0x2B \<or> c = 0x2D then DecimalDigits ds else DecimalDigits s)"

definition exponent_opt :: "jsstring \<Rightarrow> bool" where
  "exponent_opt e =
     (case e of [] \<Rightarrow> True | c # si \<Rightarrow> (c = 0x65 \<or> c = 0x45) \<and> signed_integer si)"

definition unsigned_literal :: "jsstring \<Rightarrow> bool" where
  "unsigned_literal u =
     (u = js ''Infinity'' \<or>
      (let ip = takeWhile isDecimalDigit u;
           r1 = dropWhile isDecimalDigit u
       in (case r1 of
             [] \<Rightarrow> ip \<noteq> []
           | c # r2 \<Rightarrow>
               if c = 0x2E then
                 (let fp = takeWhile isDecimalDigit r2;
                      r3 = dropWhile isDecimalDigit r2
                  in (ip \<noteq> [] \<or> fp \<noteq> []) \<and> exponent_opt r3)
               else ip \<noteq> [] \<and> exponent_opt r1)))"

definition decimal_literal :: "jsstring \<Rightarrow> bool" where
  "decimal_literal s =
     (case s of
        [] \<Rightarrow> False
      | c # u \<Rightarrow> if c = 0x2B \<or> c = 0x2D then unsigned_literal u else unsigned_literal s)"

lemmas literal_defs =
  signed_integer_def exponent_opt_def unsigned_literal_def decimal_literal_def DecimalDigits_def
  isDecimalDigit_def

section \<open>Digits at the front of a string\<close>

lemma not_digit_e [simp]: "\<not> isDecimalDigit 0x65" "\<not> isDecimalDigit 0x45"
  by (simp_all add: isDecimalDigit_def)

lemma digits_then:
  assumes "\<forall>c\<in>set ds. isDecimalDigit c" "r = [] \<or> \<not> isDecimalDigit (hd r)"
  shows "takeWhile isDecimalDigit (ds @ r) = ds" "dropWhile isDecimalDigit (ds @ r) = r"
  using assms by (cases r; simp add: takeWhile_append2 dropWhile_append2)+

lemma digits_split:
  obtains ds r where "u = ds @ r" "takeWhile isDecimalDigit u = ds"
    "dropWhile isDecimalDigit u = r" "\<forall>c\<in>set ds. isDecimalDigit c"
proof -
  have "u = takeWhile isDecimalDigit u @ dropWhile isDecimalDigit u"
    by simp
  moreover have "\<forall>c\<in>set (takeWhile isDecimalDigit u). isDecimalDigit c"
    by (auto dest: set_takeWhileD)
  ultimately show thesis
    using that by blast
qed

section \<open>The recogniser decides the grammar\<close>

lemma signed_integer_iff: "signed_integer s \<longleftrightarrow> SignedInteger s"
proof
  assume "signed_integer s"
  then show "SignedInteger s"
    by (cases s) (auto simp: signed_integer_def intro: SignedInteger.intros split: if_splits)
next
  assume "SignedInteger s"
  then show "signed_integer s"
    by cases (auto simp: signed_integer_def DecimalDigits_def split: list.split)
qed

lemma exponent_opt_iff: "exponent_opt e \<longleftrightarrow> ExponentPart_opt e"
proof
  assume "exponent_opt e"
  then show "ExponentPart_opt e"
    by (cases e) (auto simp: exponent_opt_def signed_integer_iff intro: ExponentPart_opt.intros)
next
  assume "ExponentPart_opt e"
  then show "exponent_opt e"
    by cases (auto simp: exponent_opt_def signed_integer_iff)
qed

lemma exponent_opt_hd: "exponent_opt e \<Longrightarrow> e = [] \<or> \<not> isDecimalDigit (hd e)"
  by (cases e) (auto simp: exponent_opt_def)

lemma ExponentPart_opt_facts:
  assumes "ExponentPart_opt e"
  shows "e = [] \<or> \<not> isDecimalDigit (hd e)" "exponent_opt e"
  using assms by (simp_all add: exponent_opt_iff exponent_opt_hd)

lemma DecimalDigits_facts:
  assumes "DecimalDigits ds"
  shows "\<forall>c\<in>set ds. isDecimalDigit c" "ds \<noteq> []"
  using assms by (simp_all add: DecimalDigits_def)

lemma dot_literal:
  assumes "\<forall>c\<in>set ip. isDecimalDigit c" "\<forall>c\<in>set fp. isDecimalDigit c"
    "ip \<noteq> [] \<or> fp \<noteq> []" "ExponentPart_opt e"
  shows "StrUnsignedDecimalLiteral (ip @ 0x2E # fp @ e)"
proof (cases "ip = []")
  case True
  with assms have "StrUnsignedDecimalLiteral (0x2E # fp @ e)"
    by (intro StrUnsignedDecimalLiteral.dot_frac) (simp_all add: DecimalDigits_def)
  with True show ?thesis by simp
next
  case False
  with assms show ?thesis
    by (intro StrUnsignedDecimalLiteral.int_dot) (auto simp: DecimalDigits_def)
qed

lemma unsigned_literal_digits:
  assumes "takeWhile isDecimalDigit u = ip" "dropWhile isDecimalDigit u = r"
  shows "unsigned_literal u \<longleftrightarrow>
    u = js ''Infinity'' \<or>
    (case r of
       [] \<Rightarrow> ip \<noteq> []
     | c # r2 \<Rightarrow>
         if c = 0x2E
         then (ip \<noteq> [] \<or> takeWhile isDecimalDigit r2 \<noteq> []) \<and>
              exponent_opt (dropWhile isDecimalDigit r2)
         else ip \<noteq> [] \<and> exponent_opt r)"
  unfolding unsigned_literal_def Let_def assms by (rule refl)

lemma literal_unsigned:
  assumes "StrUnsignedDecimalLiteral u"
  shows "unsigned_literal u"
  using assms
proof cases
  case infinity
  then show ?thesis by (simp add: unsigned_literal_def)
next
  case (int_dot ip fp e)
  note e = ExponentPart_opt_facts [OF int_dot(4)]
  note ip = DecimalDigits_facts [OF int_dot(2)]
  from int_dot(3) have fp: "\<forall>c\<in>set fp. isDecimalDigit c"
    by (auto simp: DecimalDigits_def)
  have "takeWhile isDecimalDigit u = ip" "dropWhile isDecimalDigit u = 0x2E # fp @ e"
    unfolding int_dot(1) by (rule digits_then; simp add: ip)+
  from unsigned_literal_digits [OF this] ip(2) e(2) show ?thesis
    by (simp add: digits_then [OF fp e(1)])
next
  case (dot_frac fp e)
  note e = ExponentPart_opt_facts [OF dot_frac(3)]
  note fp = DecimalDigits_facts [OF dot_frac(2)]
  have "takeWhile isDecimalDigit u = []" "dropWhile isDecimalDigit u = 0x2E # fp @ e"
    unfolding dot_frac(1) by simp_all
  from unsigned_literal_digits [OF this] fp(2) e(2) show ?thesis
    by (simp add: digits_then [OF fp(1) e(1)])
next
  case (int_only ip e)
  note e = ExponentPart_opt_facts [OF int_only(3)]
  note ip = DecimalDigits_facts [OF int_only(2)]
  have "takeWhile isDecimalDigit u = ip" "dropWhile isDecimalDigit u = e"
    unfolding int_only(1) by (rule digits_then; simp add: ip e(1))+
  from unsigned_literal_digits [OF this] ip(2) e show ?thesis
    by (cases e) (auto simp: exponent_opt_def)
qed

lemma unsigned_literal:
  assumes "unsigned_literal u"
  shows "StrUnsignedDecimalLiteral u"
proof (cases "u = js ''Infinity''")
  case True
  then show ?thesis
    by (simp only: StrUnsignedDecimalLiteral.infinity)
next
  case False
  obtain ip r1 where u: "u = ip @ r1" and tw: "takeWhile isDecimalDigit u = ip"
    and dw: "dropWhile isDecimalDigit u = r1" and ip: "\<forall>c\<in>set ip. isDecimalDigit c"
    by (rule digits_split)
  note lit = unsigned_literal_digits [OF tw dw, THEN iffD1, OF assms]
  show ?thesis
  proof (cases r1)
    case Nil
    with lit False ip have "DecimalDigits ip"
      by (simp add: DecimalDigits_def)
    then have "StrUnsignedDecimalLiteral (ip @ [])"
      by (intro StrUnsignedDecimalLiteral.int_only ExponentPart_opt.absent)
    with u Nil show ?thesis by simp
  next
    case (Cons c r2)
    obtain fp r3 where r2: "r2 = fp @ r3" and tw2: "takeWhile isDecimalDigit r2 = fp"
      and dw2: "dropWhile isDecimalDigit r2 = r3" and fp: "\<forall>c\<in>set fp. isDecimalDigit c"
      by (rule digits_split)
    show ?thesis
    proof (cases "c = 0x2E")
      case dot: True
      with lit False Cons tw2 dw2 have "ip \<noteq> [] \<or> fp \<noteq> []" "ExponentPart_opt r3"
        by (simp_all add: exponent_opt_iff [symmetric])
      with ip fp have "StrUnsignedDecimalLiteral (ip @ 0x2E # fp @ r3)"
        by (intro dot_literal)
      with u Cons dot r2 show ?thesis by simp
    next
      case nodot: False
      with lit False Cons have "ip \<noteq> []" "ExponentPart_opt r1"
        by (simp_all add: exponent_opt_iff [symmetric])
      with ip have "StrUnsignedDecimalLiteral (ip @ r1)"
        by (intro StrUnsignedDecimalLiteral.int_only) (simp_all add: DecimalDigits_def)
      with u show ?thesis by simp
    qed
  qed
qed

lemma unsigned_literal_iff: "unsigned_literal u \<longleftrightarrow> StrUnsignedDecimalLiteral u"
  using unsigned_literal literal_unsigned by blast

lemma unsigned_literal_no_sign:
  assumes "StrUnsignedDecimalLiteral u"
  shows "\<exists>c r. u = c # r \<and> c \<noteq> 0x2B \<and> c \<noteq> 0x2D"
proof -
  from assms have "starts_number u"
    by (rule StrUnsignedDecimalLiteral_starts) simp
  then show ?thesis
    by (cases u) (auto simp: starts_number_def dest: starts_number_no_sign)
qed

lemma decimal_literal_iff: "decimal_literal s \<longleftrightarrow> StrDecimalLiteral s"
proof
  assume "decimal_literal s"
  then show "StrDecimalLiteral s"
    by (cases s)
       (auto simp: decimal_literal_def unsigned_literal_iff intro: StrDecimalLiteral.intros
          split: if_splits)
next
  assume "StrDecimalLiteral s"
  then show "decimal_literal s"
  proof cases
    case unsigned
    with unsigned_literal_no_sign [OF unsigned] show ?thesis
      by (auto simp: decimal_literal_def unsigned_literal_iff)
  qed (simp_all add: decimal_literal_def unsigned_literal_iff)
qed

lemma decimal_literal_examples:
  "decimal_literal (js ''12.50'')" "decimal_literal (js ''-3e2'')" "decimal_literal (js ''.5'')"
  "decimal_literal (js ''5.'')" "decimal_literal (js ''+Infinity'')"
  "\<not> decimal_literal (js ''12abc'')" "\<not> decimal_literal (js ''1e'')" "\<not> decimal_literal (js ''.'')"
  "\<not> decimal_literal []" "\<not> decimal_literal (js ''abc'')"
  by (simp_all add: literal_defs)

end
