(* ===== verification/Contract.thy ===== *)
theory Contract
  imports Sessions Literals
begin

text \<open>
  The validator of the specification (section 4.2) as a reference, and the
  validation of the code against it.

  The specification describes a function from a draft to either a validated
  draft or an error map. A draft has an optional image and three texts;
  every field has one sequence of rules of which the first that fails gives
  the one error of the field (\<open>check_field\<close>); a valid draft is returned with
  its texts trimmed. ``Parses as a valid floating-point number'' is read as:
  the text, trimmed, is a decimal literal of the language's numeric string
  grammar (\<open>number_text\<close>, decided by the recogniser of \<open>Literals\<close>).

  \<open>draft_of\<close> reads the draft off the cells of the component. The code
  implements the contract on the drafts that \<open>conforms\<close> describes, field by
  field, and on no others; the theorems say so for the error map that is on
  display after a submit.
\<close>

section \<open>The contract\<close>

datatype validation_error =
    MissingThumbnail
  | ThumbnailTooLarge
  | UnsupportedThumbnailType
  | EmptyCompany
  | EmptyTechs
  | InvalidPrice

record draft =
  image :: "jsfile option"
  company_name :: jsstring
  technologies :: jsstring
  price_text :: jsstring

definition message_of :: "validation_error \<Rightarrow> jsstring" where
  "message_of e =
     (case e of
        MissingThumbnail \<Rightarrow> msg_thumbnail_required
      | ThumbnailTooLarge \<Rightarrow> msg_thumbnail_size
      | UnsupportedThumbnailType \<Rightarrow> msg_thumbnail_type
      | EmptyCompany \<Rightarrow> msg_company_required
      | EmptyTechs \<Rightarrow> msg_techs_required
      | InvalidPrice \<Rightarrow> msg_price_invalid)"

definition number_text :: "jsstring \<Rightarrow> bool" where
  "number_text t \<longleftrightarrow> decimal_literal (trim t)"

definition check_thumbnail :: "jsfile option \<Rightarrow> validation_error option" where
  "check_thumbnail img =
     (case img of
        None \<Rightarrow> Some MissingThumbnail
      | Some f \<Rightarrow>
          if MAX_FILE_SIZE < fsize f then Some ThumbnailTooLarge
          else if ftype f \<notin> set ACCEPTED_IMAGE_TYPES then Some UnsupportedThumbnailType
          else None)"

definition check_text :: "validation_error \<Rightarrow> jsstring \<Rightarrow> validation_error option" where
  "check_text e t = (if length (trim t) = 0 then Some e else None)"

definition check_price :: "jsstring \<Rightarrow> validation_error option" where
  "check_price t = (if t = [] \<or> number_text t then None else Some InvalidPrice)"

definition check_field :: "draft \<Rightarrow> field \<Rightarrow> validation_error option" where
  "check_field d k =
     (case k of
        Thumbnail \<Rightarrow> check_thumbnail (image d)
      | Company \<Rightarrow> check_text EmptyCompany (company_name d)
      | Techs \<Rightarrow> check_text EmptyTechs (technologies d)
      | Price \<Rightarrow> check_price (price_text d))"

definition error_map :: "draft \<Rightarrow> field \<Rightarrow> jsstring list option" where
  "error_map d k = map_option (\<lambda>e. [message_of e]) (check_field d k)"

definition normalized :: "draft \<Rightarrow> draft" where
  "normalized d =
     d\<lparr>company_name := trim (company_name d), technologies := trim (technologies d),
       price_text := trim (price_text d)\<rparr>"

definition validate :: "draft \<Rightarrow> (field \<Rightarrow> jsstring list option) + draft" where
  "validate d =
     (if list_all (\<lambda>k. check_field d k = None) [Thumbnail, Company, Techs, Price]
      then Inr (normalized d) else Inl (error_map d))"

section \<open>The abstraction\<close>

definition draft_of :: "form_state \<Rightarrow> draft" where
  "draft_of f =
     \<lparr>image = (case thumbnail f of File x \<Rightarrow> Some x | _ \<Rightarrow> None),
      company_name = company f, technologies = techs f, price_text = price f\<rparr>"

definition conforms :: "form_state \<Rightarrow> field \<Rightarrow> bool" where
  "conforms f k =
     (case k of
        Thumbnail \<Rightarrow>
          (case thumbnail f of
             Null \<Rightarrow> False
           | File x \<Rightarrow> fsize x \<le> MAX_FILE_SIZE \<or> ftype x \<in> set ACCEPTED_IMAGE_TYPES
           | _ \<Rightarrow> True)
      | Price \<Rightarrow> price_ok (price f) \<longrightarrow> price f = [] \<or> number_text (price f)
      | _ \<Rightarrow> True)"

definition text_of :: "jsval \<Rightarrow> jsstring" where
  "text_of v = (case v of Str t \<Rightarrow> t | _ \<Rightarrow> [])"

definition result_of ::
    "(field, field jsobject) safe_parse \<Rightarrow> (field \<Rightarrow> jsstring list option) + draft" where
  "result_of r =
     (case r of
        Success d \<Rightarrow>
          Inr \<lparr>image = (case get d Thumbnail of File x \<Rightarrow> Some x | _ \<Rightarrow> None),
               company_name = text_of (get d Company), technologies = text_of (get d Techs),
               price_text = text_of (get d Price)\<rparr>
      | Failure iss \<Rightarrow> Inl (map_of (fieldErrors (flatten iss))))"

definition displayed :: "form_state \<Rightarrow> field \<Rightarrow> jsstring list option" where
  "displayed f k = (if field_messages f k = [] then None else Some (field_messages f k))"

lemmas contract_defs =
  message_of_def check_thumbnail_def check_text_def check_price_def check_field_def
  error_map_def normalized_def validate_def draft_of_def conforms_def displayed_def
  text_of_def result_of_def

section \<open>Field by field\<close>

lemma number_text_price_ok: "number_text t \<Longrightarrow> price_ok t"
proof -
  assume "number_text t"
  then have "StrDecimalLiteral (trim t)"
    by (simp add: number_text_def decimal_literal_iff)
  moreover have "prefix (trim t) (trimStart t)"
    by (simp add: trim_def trimEnd_def strip_end_prefix)
  ultimately show ?thesis
    by (auto simp: price_ok_def parseFloat_NaN_iff)
qed

lemma displayed_step: "map_of (errors (form (step s Submit))) k = displayed (form s) k"
  by (simp add: errors_after_Submit displayed_def)

lemma thumbnail_agreement:
  "displayed f Thumbnail = error_map (draft_of f) Thumbnail \<longleftrightarrow> conforms f Thumbnail"
  by (cases "thumbnail f")
     (auto simp: contract_defs field_messages_def thumbnail_messages_def)

lemma text_agreement:
  "displayed f Company = error_map (draft_of f) Company"
  "displayed f Techs = error_map (draft_of f) Techs"
  by (simp_all add: contract_defs field_messages_def text_ok_def)

lemma price_agreement:
  "displayed f Price = error_map (draft_of f) Price \<longleftrightarrow> conforms f Price"
  using number_text_price_ok [of "price f"]
  by (auto simp: contract_defs field_messages_def price_ok_def)

lemma field_agreement: "displayed f k = error_map (draft_of f) k \<longleftrightarrow> conforms f k"
  by (cases k) (simp_all add: thumbnail_agreement text_agreement price_agreement, simp_all add: conforms_def)

section \<open>The whole draft\<close>

lemma validate_Inr_iff:
  "(\<exists>v. validate d = Inr v) \<longleftrightarrow> (\<forall>k. check_field d k = None)"
proof -
  have "(\<forall>k. check_field d k = None) \<longleftrightarrow>
      list_all (\<lambda>k. check_field d k = None) [Thumbnail, Company, Techs, Price]"
    by (auto intro: field.exhaust) (metis field.exhaust)
  then show ?thesis
    by (simp add: validate_def)
qed

lemma check_field_None:
  "check_field (draft_of f) k = None \<Longrightarrow> field_messages f k = []"
  using number_text_price_ok [of "price f"]
  by (cases k; cases "thumbnail f")
     (auto simp: contract_defs field_messages_def thumbnail_messages_def text_ok_def price_ok_def
        split: if_splits)

lemma result_of_valid:
  assumes "\<forall>k. field_messages f k = []" "conforms f Thumbnail" "trim (price f) = price f"
  shows "result_of (validation f) = Inr (normalized (draft_of f))"
proof -
  from assms(1) have "validation f = Success (parsed_data f)"
    by (simp add: validation_valid fields_ok_iff)
  moreover from assms(2) have "thumbnail f \<noteq> Null"
    by (auto simp: conforms_def)
  ultimately show ?thesis
    using assms(3)
    by (cases "thumbnail f")
       (simp_all add: result_of_def parsed_data_def get_def text_of_def normalized_def draft_of_def)
qed

lemma result_of_invalid:
  assumes "validation f = Failure iss"
  shows "result_of (validation f) = Inl (displayed f)"
proof -
  have "map_of (fieldErrors (flatten iss)) k = displayed f k" for k
    using validation_Failure(1) [OF assms] by (simp add: fieldErrors_flatten displayed_def)
  with assms show ?thesis
    by (simp add: result_of_def fun_eq_iff)
qed

section \<open>A draft that conforms and drafts that do not\<close>

lemma acme_conforms: "conforms acme_draft k"
  by (cases k) (simp_all add: conforms_def scenario_defs MAX_FILE_SIZE_def)

lemma trailing_text: "price_ok (js ''12abc'')" "\<not> number_text (js ''12abc'')"
  by (simp_all add: price_ok_def number_text_def parseFloat_defs literal_defs trim_defs ws_defs)

section \<open>Properties of the validation against the contract\<close>

text \<open>
  C5. The error map on display after a submit is the one of the contract,
  field by field, exactly on the drafts that conform: for the thumbnail, when
  the cell is not \<^verbatim>\<open>null\<close> and its file does not break both rules at once; for
  the price, when the text that the code accepts is empty or a number and
  nothing else; for the company and the technologies, always.
\<close>

theorem contract_agreement:
  "map_of (errors (form (step s Submit))) k = error_map (draft_of (form s)) k
     \<longleftrightarrow> conforms (form s) k"
  by (simp add: displayed_step field_agreement)

theorem contract_agreement_witness:
  "conforms (form acme_filled) Price \<and>
   map_of (errors (form (step acme_filled Submit))) Price = None \<and>
   \<not> conforms (form (acme_filled\<lparr>form := no_file_draft\<rparr>)) Thumbnail \<and>
   error_map (draft_of no_file_draft) Thumbnail = Some [msg_thumbnail_required] \<and>
   map_of (errors (form (step (acme_filled\<lparr>form := no_file_draft\<rparr>) Submit))) Thumbnail \<noteq>
     Some [msg_thumbnail_required] \<and>
   \<not> conforms (acme_draft\<lparr>price := js ''12abc''\<rparr>) Price"
  using contract_agreement [of "acme_filled\<lparr>form := no_file_draft\<rparr>" Thumbnail]
    contract_agreement [of acme_filled Price] trailing_text
  by (simp add: contract_defs no_file_draft_def acme_filled_def acme_draft_def del: js_Cons)

text \<open>
  C15. The validation of the code refines the validator of the contract: on a
  draft that conforms in every field and whose price has no white space
  around it, the result of \<^verbatim>\<open>safeParse\<close>, read as a result of the contract, is
  the result of the contract on the draft of the cells. A failure is the same
  error map, a success the same draft with the same trimmed company and
  technologies.
\<close>

theorem contract_refinement:
  assumes "\<forall>k. conforms f k" "trim (price f) = price f"
  shows "result_of (validation f) = validate (draft_of f)"
proof (cases f rule: validation_cases)
  case (valid d)
  from valid(2) assms(1) have "check_field (draft_of f) k = None" for k
    using field_agreement [of f k] by (simp add: displayed_def error_map_def)
  then obtain v where "validate (draft_of f) = Inr v"
    using validate_Inr_iff by blast
  then have "validate (draft_of f) = Inr (normalized (draft_of f))"
    by (simp add: validate_def split: if_splits)
  with valid(2) assms show ?thesis
    by (simp add: result_of_valid)
next
  case (invalid iss)
  from invalid(3) obtain k where "field_messages f k \<noteq> []"
    by blast
  then have "check_field (draft_of f) k \<noteq> None"
    using check_field_None by blast
  then have "\<nexists>v. validate (draft_of f) = Inr v"
    by (auto simp: validate_Inr_iff)
  then have "validate (draft_of f) = Inl (error_map (draft_of f))"
    by (simp add: validate_def split: if_splits)
  moreover from assms(1) have "displayed f = error_map (draft_of f)"
    by (simp add: fun_eq_iff field_agreement)
  ultimately show ?thesis
    by (simp add: result_of_invalid [OF invalid(1)])
qed

theorem contract_refinement_witness:
  "result_of (validation acme_draft) =
     Inr \<lparr>image = Some valid_jpeg, company_name = js ''Acme'', technologies = js ''React, Node'',
          price_text = []\<rparr> \<and>
   validate (draft_of acme_draft) = result_of (validation acme_draft)"
proof -
  have "trim (price acme_draft) = price acme_draft"
    by (simp add: acme_draft_def)
  from contract_refinement [OF _ this] acme_conforms show ?thesis
    by (simp add: validation_valid [OF acme_fields_ok])
       (simp add: result_of_def parsed_data_def get_def text_of_def acme_draft_def trim_defs ws_defs)
qed

text \<open>
  The code rejects no draft that the contract accepts: whenever the
  validator of the contract returns a valid draft, \<^verbatim>\<open>safeParse\<close> succeeds. The
  converse fails for the drafts that do not conform.
\<close>

theorem contract_accepted_is_accepted:
  assumes "validate (draft_of f) = Inr v"
  shows "validation f = Success (parsed_data f)"
proof -
  from assms have "\<forall>k. check_field (draft_of f) k = None"
    using validate_Inr_iff by blast
  then have "\<forall>k. field_messages f k = []"
    using check_field_None by blast
  then show ?thesis
    by (simp add: validation_valid fields_ok_iff)
qed

theorem contract_accepted_is_accepted_witness:
  "validate (draft_of acme_draft) = Inr (normalized (draft_of acme_draft)) \<and>
   validation acme_draft = Success (parsed_data acme_draft)"
proof -
  have v: "validate (draft_of acme_draft) = Inr (normalized (draft_of acme_draft))"
    by (simp add: contract_defs scenario_defs MAX_FILE_SIZE_def ACCEPTED_IMAGE_TYPES_def
        trim_defs ws_defs)
  from contract_accepted_is_accepted [OF this] v show ?thesis
    by simp
qed

end
