(* ===== verification/Independence.thy ===== *)
theory Independence
  imports Sessions "HOL-Library.Multiset"
begin

text \<open>
  The order in which the user fills in the form. Every input has its own
  state cell and its own listener (lines 92, 103, 112 and 124 of
  \<^verbatim>\<open>src/pages/New/index.jsx\<close>), so changes of different inputs do not
  interfere: they commute, and a run of changes of different inputs ends in
  the same state in whatever order the changes come. Two changes of the same
  text input do interfere: the later one wins.
\<close>

section \<open>Independent events\<close>

fun cell_of :: "event \<Rightarrow> field option" where
  "cell_of (ChangeThumbnail _) = Some Thumbnail"
| "cell_of (ChangeCompany _) = Some Company"
| "cell_of (ChangeTechs _) = Some Techs"
| "cell_of (ChangePrice _) = Some Price"
| "cell_of _ = None"

definition is_change :: "event \<Rightarrow> bool" where
  "is_change e \<longleftrightarrow> cell_of e \<noteq> None"

definition independent :: "event \<Rightarrow> event \<Rightarrow> bool" where
  "independent e f \<longleftrightarrow> is_change e \<and> is_change f \<and> (e = f \<or> cell_of e \<noteq> cell_of f)"

definition changes :: "event list \<Rightarrow> system \<Rightarrow> system" where
  "changes es = fold (\<lambda>e s. step s e) es"

section \<open>Changes of different inputs commute\<close>

lemma step_ChangeThumbnail_eq:
  "step s (ChangeThumbnail files) =
     (case files of
        [] \<Rightarrow> s\<lparr>form := (form s)\<lparr>thumbnail := Undefined\<rparr>,
                preview := (if thumbnail (form s) = Undefined then preview s else None)\<rparr>
      | f # _ \<Rightarrow>
          s\<lparr>form := (form s)\<lparr>thumbnail := File f\<rparr>,
            preview := Some (blob_url (length (object_urls s))),
            object_urls := object_urls s @ [(blob_url (length (object_urls s)), f)]\<rparr>)"
  by (cases files) (simp_all add: step_ChangeThumbnail)

lemmas change_steps = step_ChangeThumbnail_eq step.simps(2,3,4) onChange_defs

lemma is_change_cases:
  assumes "is_change e"
  obtains (thumbnail) files where "e = ChangeThumbnail files"
  | (company) v where "e = ChangeCompany v"
  | (techs) v where "e = ChangeTechs v"
  | (price) v where "e = ChangePrice v"
  using assms by (cases e) (simp_all add: is_change_def)

lemma change_frame:
  assumes "is_change e"
  shows "enabled s e = mounted s" "mounted (step s e) = mounted s"
  using assms
  by (cases e rule: is_change_cases;
      simp add: enabled_def mounted_def change_steps split: list.split)+

lemma independent_commute:
  assumes "independent e f"
  shows "step (step s e) f = step (step s f) e"
proof (cases "e = f")
  case False
  with assms show ?thesis
    by (cases e; cases f)
       (simp_all add: independent_def is_change_def change_steps split: list.split)
qed simp

lemma run_changes:
  assumes "list_all is_change es"
  shows "run s es = (if es = [] \<or> mounted s then Some (changes es s) else None)"
  using assms
  by (induction es arbitrary: s) (auto simp: changes_def change_frame)

section \<open>Any order of filling in\<close>

lemma changes_permuted:
  assumes "\<forall>e\<in>set es. \<forall>f\<in>set es. independent e f" "mset es = mset fs"
  shows "changes es = changes fs"
  unfolding changes_def
proof (rule fold_multiset_equiv [OF _ assms(2)])
  fix e f
  assume "e \<in> set es" "f \<in> set es"
  with assms(1) have ind: "independent e f"
    by blast
  show "(\<lambda>s. step s e) \<circ> (\<lambda>s. step s f) = (\<lambda>s. step s f) \<circ> (\<lambda>s. step s e)"
  proof (rule ext)
    fix s
    from independent_commute [OF ind, of s]
    show "((\<lambda>s. step s e) \<circ> (\<lambda>s. step s f)) s = ((\<lambda>s. step s f) \<circ> (\<lambda>s. step s e)) s"
      by simp
  qed
qed

text \<open>
  C18. The form can be filled in in any order: two runs of changes that differ
  only in the order of the changes, with no two different changes of the same
  input among them, are both possible or both impossible, and end in the same
  state, the cells, the preview and the object URLs included.
\<close>

theorem fill_order_irrelevant:
  assumes "\<forall>e\<in>set es. \<forall>f\<in>set es. independent e f" "mset es = mset fs"
  shows "run s es = run s fs"
proof -
  from assms(1) have "list_all is_change es"
    by (auto simp: list_all_iff independent_def)
  moreover from this assms(2) have "list_all is_change fs"
    by (auto simp: list_all_iff dest: mset_eq_setD)
  moreover from assms(2) have "es = [] \<longleftrightarrow> fs = []"
    by (metis mset_zero_iff)
  ultimately show ?thesis
    by (simp add: run_changes changes_permuted [OF assms])
qed

theorem fill_order_irrelevant_witness:
  "run session0
     [ChangeTechs (js ''React, Node''), ChangeThumbnail [valid_jpeg], ChangeCompany (js ''Acme'')] =
   Some acme_filled"
proof -
  have i: "\<forall>e\<in>set fill_in. \<forall>f\<in>set fill_in. independent e f"
    by (simp add: fill_in_def independent_def is_change_def)
  have m: "mset fill_in =
      mset [ChangeTechs (js ''React, Node''), ChangeThumbnail [valid_jpeg],
        ChangeCompany (js ''Acme'')]"
    by (simp add: fill_in_def)
  from fill_order_irrelevant [OF i m, of session0, symmetric] show ?thesis
    by (rule trans) (rule run_fill_in)
qed

text \<open>
  Two changes of the same text input do not commute: the later one wins, and
  nothing is left of the earlier one.
\<close>

lemma last_change_wins:
  assumes "is_change e" "is_change f" "cell_of e = cell_of f" "cell_of e \<noteq> Some Thumbnail"
  shows "step (step s e) f = step s f"
  using assms
  by (cases e; cases f) (simp_all add: is_change_def change_steps)

end
