(* ===== verification/Spec2Isabelle.thy ===== *)
theory Spec2Isabelle
  imports Interaction Attempts Environment Contract Independence
begin

text \<open>
  \<^bold>\<open>A verification development for the ``New Spot'' form\<close>
  (\<^verbatim>\<open>src/pages/New/index.jsx\<close>, the repository's one source file).

  \<^bold>\<open>The program.\<close> A React component that collects an image and three texts,
  shows a preview of the image, validates the inputs with a declarative
  schema when the form is submitted, and either stores the per-field error
  messages for display or posts the fields as a multipart request and, once
  the request is fulfilled, navigates to the dashboard. Its parts and the
  theories that model them, in import order:

  \<^item> \<open>Prelude\<close>: strings as lists of UTF-16 code units (\<open>jsstring\<close>), the
    embedding \<open>js\<close> of ASCII literals, the fact collections of the layers
    (\<open>js_defs\<close>, \<open>zod_defs\<close>, \<open>schema_defs\<close>, \<open>form_defs\<close>), and the list
    lemmas on stripping, prefixes and searching.
  \<^item> \<open>ECMAScript\<close>: the language built-ins the file calls: the values
    (\<open>jsval\<close>, \<open>jsfile\<close>), \<open>trim\<close>, \<open>array_includes\<close>, \<open>parseFloat\<close>,
    \<open>isNaN\<close>, \<open>ToString\<close>, and the grammar \<open>StrDecimalLiteral\<close> as the
    reference for \<open>parseFloat\<close>. Library behaviour, modelled after the
    language standard.
  \<^item> \<open>Literals\<close>: a recogniser that decides the grammar \<open>StrDecimalLiteral\<close>
    on a whole string (\<open>decimal_literal\<close>), for the price rule of the
    contract.
  \<^item> \<open>Zod\<close>: the validation combinators the schema is written with
    (\<open>z_instanceof\<close>, \<open>z_refine\<close>, \<open>z_nullable\<close>, \<open>z_string\<close>,
    \<open>z_object\<close>, \<open>safeParse\<close>, \<open>flatten\<close>). Library behaviour, modelled after
    the library's synchronous parser (versions in which a failed
    \<^verbatim>\<open>instanceof\<close> check is fatal, 3.20 and later).
  \<^item> \<open>Schema\<close>: lines 10 to 27: \<open>MAX_FILE_SIZE\<close>, \<open>ACCEPTED_IMAGE_TYPES\<close>,
    the six messages, the three predicates passed to \<^verbatim>\<open>refine\<close>, the four
    field schemas and \<open>spotSchema\<close>, composed as the code chains them; the
    keys \<open>field\<close> are a linear order, in the order of the object literal
    (\<open>field_index\<close>).
  \<^item> \<open>Form\<close>: lines 30 to 73 and the handlers of lines 92 to 124: the state
    cells (\<open>form_state\<close>, \<open>initial_state\<close>), their setters (\<open>setThumbnail\<close>
    to \<open>setErrors\<close>), the four \<open>onChange\<close> handlers, and \<open>handleSubmit\<close>, split at its one \<^verbatim>\<open>await\<close> into the synchronous part
    (a list of effects: \<open>PreventDefault\<close>, \<open>SetErrors\<close>, \<open>Post\<close>) and
    \<open>handleSubmit_resume\<close> (\<open>Navigate\<close> on fulfilment, nothing on
    rejection).
  \<^item> \<open>Preview\<close>: lines 39 to 41: the memoised preview (\<open>preview_of\<close>,
    \<open>useMemo_preview\<close>) over the browser's store of object URLs
    (\<open>createObjectURL\<close>).
  \<^item> \<open>Lifecycle\<close>: the component over time as a state machine: the state
    \<open>system\<close> (cells, preview, object URLs, \<^verbatim>\<open>localStorage\<close>, requests in
    flight, requests sent, navigations, rejections, effect trace, the place
    the router shows), the events (\<open>event\<close>: a change of an input, a submit,
    the settling of a request, a write to the storage, the removal of a key
    or of all keys, the user leaving the form and opening it again), the
    step function \<open>step\<close> that runs one
    handler to completion, the same as a relation (\<open>transition\<close>), runs
    (\<open>run\<close>) and reachability (\<open>reachable\<close>). \<open>user_id\<close> is the read of line
    61, \<open>mount\<close> the first render of a new instance; \<open>getItem\<close>,
    \<open>setItem\<close>, \<open>removeItem\<close> and \<open>clear\<close> are the operations of the
    storage.
  \<^item> \<open>Sessions\<close>: the sessions of the specification's scenarios, state by
    state (\<open>session0\<close>, \<open>acme_filled\<close>, \<open>acme_pending\<close>, \<open>acme_done\<close>,
    \<open>acme_failed\<close>, \<open>blank_filled\<close>), and the properties of the component
    over its runs.
  \<^item> \<open>Independence\<close>: which cell an input event changes (\<open>cell_of\<close>), when
    two events are independent (\<open>independent\<close>), and runs of changes as a
    fold (\<open>changes\<close>).
  \<^item> \<open>View\<close>: lines 84 to 130: the returned element tree (\<open>render\<close>,
    \<open>view\<close>) with its conditional error spans, the listeners it installs
    (\<open>listener_event\<close>), and queries that read a tree the way a user or a
    test does (\<open>error_texts\<close>, \<open>prop_by_id\<close>, \<open>listeners\<close>).
  \<^item> \<open>Interaction\<close>: what the user does on the screen (\<open>gesture\<close>: typing,
    choosing files, pressing the button, pressing Enter in a text input),
    the event that the listeners of lines 85 to 128 make of a gesture
    (\<open>gesture_event\<close>, \<open>submit_form\<close>), and sessions of gestures (\<open>act\<close>,
    \<open>acts\<close>).
  \<^item> \<open>Phases\<close>: the submission phases of the specification as an abstract
    machine whose transitions are labelled with what moves it (\<open>phase\<close>,
    \<open>stimulus\<close>, \<open>phase_step\<close>), the abstraction \<open>phase_of\<close> of a state and
    \<open>stimulus_of\<close> of an event, and the discipline \<open>single_flight\<close> under
    which the life cycle refines it.
  \<^item> \<open>Attempts\<close>: the submission attempts of a run one by one: a ledger
    with one entry per submit (\<open>attempt_state\<close>), kept along the events by
    \<open>track\<close> and \<open>history\<close>, related to the state by \<open>tracked\<close>, and the
    phase machine run by each attempt on its own (\<open>attempts_step\<close>);
    \<open>coherent\<close> relates the phase of the form to its last attempt.
  \<^item> \<open>Environment\<close>: the surroundings over time: what a visit of the form
    keeps and loses, the identity a request carries, and the settling of the
    requests in flight (\<open>drain\<close>, \<open>schedule\<close>).
  \<^item> \<open>Contract\<close>: the validator of the specification (section 4.2) as a
    reference (\<open>check_field\<close>, \<open>validate\<close>), the abstraction \<open>draft_of\<close> from
    the cells to a draft, and \<open>conforms\<close>, the drafts on which the code
    implements the contract.
  \<^item> \<open>Traces\<close>: the effect trace read back as a sequence of complete handler
    runs (\<open>attempts\<close>) and its projections (\<open>sent\<close>, \<open>redirects\<close>,
    \<open>submissions\<close>).
  \<^item> this theory: what spans gesture, handler, life cycle and view: the
    answer to a press of the button, the session of the specification's
    first scenario, and a repeated submit.

  The ledger of \<open>Attempts\<close> is a ghost of the model: the code keeps no such
  record, and no definition of the component reads it; its entries,
  outcomes apart, can be read off the effect trace.

  \<^bold>\<open>How state and operations correspond.\<close> Every \<^verbatim>\<open>useState\<close> cell is a field of
  \<open>form_state\<close>; a setter call is a record update of its cell. An object literal or a
  \<^verbatim>\<open>FormData\<close> is an association list in insertion order; reading a missing
  property gives \<open>Undefined\<close> (\<open>get\<close>); the error map \<^verbatim>\<open>{}\<close> is \<open>[]\<close>. The
  value of \<^verbatim>\<open>localStorage.getItem('user')\<close> is an argument of \<open>handleSubmit\<close>
  (\<open>None\<close> for \<^verbatim>\<open>null\<close>) and is read from the \<open>storage\<close> of the system by
  \<open>step\<close>. The browser runs one handler at a time, so a run is a list of
  events; the \<^verbatim>\<open>await\<close> ends the submit event, and the event \<open>Settle i b\<close>
  resumes the handler of the \<open>i\<close>-th request in flight, fulfilled or rejected.
  \<open>step\<close> and \<open>transition\<close> translate \<^verbatim>\<open>handleSubmit\<close> (lines 43 to 73, the
  events \<open>Submit\<close> and \<open>Settle\<close>) and the four \<^verbatim>\<open>onChange\<close> functions (lines
  92, 103, 112 and 124, the change events); the events of the storage and
  \<open>Leave\<close> and \<open>Return\<close> have no line in the source: they are what other
  code and the router do to the component, and \<open>enabled\<close> says when the
  platform lets an event happen.
  The router shows the form (\<open>FormPage\<close>) or another page; a call of
  \<^verbatim>\<open>navigate\<close> and the event \<open>Leave\<close> unmount the instance, the event
  \<open>Return\<close> mounts a new one with the initial cells, and the document with
  its object URLs, its storage and its requests in flight stays. File sizes
  are natural numbers: a size is a non-negative integer far below the range
  where binary64 loses integers, and the program only compares it.

  \<^bold>\<open>What the lemmas show.\<close>
  \<^item> \<open>ECMAScript\<close>: \<open>trim\<close> removes exactly a white-space prefix and suffix,
    is idempotent, and is empty exactly on all-white-space strings;
    \<open>parseFloat\<close> returns \<open>NaN\<close> exactly when no prefix of the trimmed input
    is a \<open>StrDecimalLiteral\<close>.
  \<^item> \<open>Literals\<close>: \<open>decimal_literal\<close> holds exactly of the strings of the
    grammar \<open>StrDecimalLiteral\<close>.
  \<^item> \<open>Zod\<close>: every parse result is well formed (status \<open>OK\<close> exactly when no
    issue was raised), so \<open>safeParse\<close> never fails without an issue; the
    flattened error map, read through \<open>map_of\<close>, lists for each key the
    messages of the issues under that key, in order; for the issues of an
    object schema, which come key by key, the map is the list of the keys
    that have issues with their messages (\<open>flatten_blocks\<close>); a well-formed
    error map (\<open>errors_wf\<close>: keys strictly ascending, no empty entry) is
    determined by what it holds for each key.
  \<^item> \<open>Schema\<close> and \<open>Form\<close>: the result of each field schema on every input;
    validation succeeds exactly when the four field rules hold; what
    \<open>handleSubmit\<close> does on each branch, and in closed form on every draft
    (\<open>error_entries\<close> is the error map it stores); the size limit at its
    boundary.
  \<^item> \<open>Preview\<close>: decimal numerals can be read back, so the URLs of the store
    are pairwise different and every new URL is fresh.
  \<^item> \<open>Lifecycle\<close>: the relation and the step function agree; the invariant
    \<open>invariant\<close> holds in every reachable state: the thumbnail cell never
    holds a string, no render has thrown, the preview is the URL of the file
    held, every request sent satisfies \<open>request_ok\<close>, every request is either
    in flight, navigated or rejected, and the trace agrees with the counters;
    the error map changes at a submit and at a new instance only and is well
    formed in every reachable state.
  \<^item> \<open>Sessions\<close>: the consequences of the invariant for every reachable
    state; further: object URLs are never released, a second submit sends a
    second request, a rejection is silent, and a valid draft can always be
    sent and completed.
  \<^item> \<open>Independence\<close>: changes of different inputs commute, so runs that
    differ in the order of such changes end in the same state (by the
    library's lemma on folds over equal multisets); of two changes of the
    same text input the later wins.
  \<^item> \<open>View\<close>: which messages the view shows after a submit, that the inputs
    show the cells, that the image well follows the thumbnail, that the
    tree is well formed (distinct \<^verbatim>\<open>id\<close>s, every label naming a text input),
    and that in every reachable state the spans are the entries of the error
    map, in order, each with its first message.
  \<^item> \<open>Interaction\<close>: a session of gestures on the screen is the run of the
    events behind them, and no gesture has an effect once the form is gone;
    what is typed into a text input is what that input shows; while the
    form is on the screen the user can always get a request sent
    (\<open>rescue\<close>).
  \<^item> \<open>Phases\<close>: under \<open>single_flight\<close> every event is the transition of
    the abstract machine that its stimulus labels. The guard of the machine
    is the result of validation: a submit is the transition to submitting
    only when \<open>validation\<close> of the cells passed and the transition to
    invalid only when it failed, so a post of an invalid draft, or a refusal
    of a valid one, would not refine the machine; an event without a
    stimulus leaves the phase unchanged. At most one request is sent; without
    the discipline the code leaves the phase failed.
  \<^item> \<open>Attempts\<close>: with no discipline at all, every event is the step of the
    abstract machine that its stimulus labels, for one attempt, and leaves
    the other attempts alone;
    the ledger stays in step with the requests in flight, the requests
    sent, the navigations, the rejections and the submits that the effect
    trace records; an attempt that has ended stays as it ended, so per
    attempt the phase failed is terminal; under \<open>single_flight\<close> the phase
    of the form is the phase of its last attempt.
  \<^item> \<open>Environment\<close>: leaving the form loses the draft and nothing else; a
    request outlives the instance that sent it and its fulfilment unmounts
    whatever instance is on screen; the storage read through \<open>getItem\<close> is
    a finite map that its operations update, cut and empty; the header of a
    request is the identity stored at the submit, \<^verbatim>\<open>null\<close> after the key was
    removed; a run of settlements, in any order and with any outcomes, is
    at most as long as the list of requests in flight, navigates once per
    fulfilled request, sends nothing and leaves the cells alone, and
    \<open>drain\<close> is such a run that leaves no request in flight.
  \<^item> \<open>Contract\<close>: field by field the stored error map is the one of the
    contract exactly on the conforming drafts; on these \<open>validation\<close> refines
    \<open>validate\<close>; the code rejects no draft that the contract accepts.
  \<^item> \<open>Traces\<close>: every reachable trace is a sequence of complete handler
    runs whose calls come in the order of the code.
  \<^item> this theory: a press of the button is answered by a request and a page
    without error messages, or by no request and a page with at least one.

  \<^bold>\<open>Bounds and fuel.\<close> No definition uses fuel: every function is structurally
  recursive, recursive on \<open>n div 10\<close> (\<open>decimal\<close>, terminating by size),
  recursive on a state with one request fewer in flight (\<open>drain\<close>, with a
  termination proof by the number of requests in flight) or not recursive,
  and all of them evaluate by \<open>simp\<close>. Runs are finite lists of events of any
  length; the invariants hold for all of them. The grammar of numeric strings
  is an inductive definition; \<open>decimal_literal\<close> decides it by computation,
  and the contract uses the recogniser. The component itself has no loop and
  no recursion, so no termination property is stated of it: \<open>drain\<close> is a
  schedule of the model, not code.

  \<^bold>\<open>Not modelled.\<close> These parts are not under \<^verbatim>\<open>src/\<close>, and the component
  observes nothing more of them than what is modelled:
  \<^item> the HTTP client behind \<^verbatim>\<open>api.post\<close> and the server: a request is recorded
    as it is handed over and its outcome is an event; how the client writes
    the header and encodes the body depends on a library and a version that
    the repository's source does not fix;
  \<^item> the router beyond the place it shows (history, the route table, route
    parameters);
  \<^item> a reload of the page: it ends the document, and nothing of the state
    survives it but the storage, so what follows a reload is a run from
    \<open>initial_system st\<close> with the storage \<open>st\<close> left behind; every property
    of reachable states holds for any \<open>st\<close>, only the counters of one
    document (requests sent, navigations, rejections, the trace) do not
    carry over;
  \<^item> React's scheduling of renders beyond ``a state change is followed by a
    render'', and the identity of objects: a file never counts as the same
    value as the file held before, because every change event delivers new
    \<^verbatim>\<open>File\<close> objects, and a render after another state change finds the same
    object and keeps the memo, so only a change of the thumbnail evaluates
    the memo again;
  \<^item> the number that a parsed price denotes and its rounding to binary64:
    the program only asks whether the parsed number is \<open>NaN\<close>, and sends the
    text;
  \<^item> the style sheet and the icon; object URLs are named by a counter in
    place of the browser's random identifier.

  With these, every line of the source that has behaviour is modelled: the
  lines outside the map are the imports, the comments (the block of lines 75
  to 82 among them), blank lines and the closing brace.
\<close>

section \<open>From the button to the page\<close>

text \<open>
  C19. Every submit is answered on the page or on the wire, never both and
  never neither: when the user presses the button of the mounted form, either
  the cells pass validation, one request built from them is handed to
  \<^verbatim>\<open>api.post\<close> and the page shows no error message, or they fail, no request
  is sent or put in flight and the page shows at least one error message.
\<close>

theorem submit_is_answered:
  assumes "mounted s"
  shows "\<exists>t. act camera s ClickSubmit = Some t \<and>
    (case validation (form s) of
       Success d \<Rightarrow>
         posted t = posted s @ [spot_request (user_id (storage s)) (form s)] \<and>
         error_texts (view camera t) = []
     | Failure iss \<Rightarrow>
         posted t = posted s \<and> pending t = pending s \<and> error_texts (view camera t) \<noteq> [])"
proof (cases "form s" rule: validation_cases)
  case (valid d)
  with assms error_texts_after_Submit [of camera s] show ?thesis
    by (simp add: act_eq form_event_def step_Submit_valid Let_def)
next
  case (invalid iss)
  with assms error_texts_after_Submit [of camera s] show ?thesis
    by (simp add: act_eq form_event_def) (simp add: step_Submit_invalid)
qed

theorem submit_is_answered_witness:
  "(\<exists>t. act (js ''camera.svg'') blank_filled ClickSubmit = Some t \<and> posted t = [] \<and>
      error_texts (view (js ''camera.svg'') t) \<noteq> []) \<and>
   (\<exists>t. act (js ''camera.svg'') acme_filled ClickSubmit = Some t \<and> posted t = [acme_request] \<and>
      error_texts (view (js ''camera.svg'') t) = [])"
proof -
  from validation_blank obtain iss where b: "validation (form blank_filled) = Failure iss"
    by blast
  have m: "mounted blank_filled" "mounted acme_filled"
    by (simp_all add: mounted_def blank_filled_def session_defs initial_system_def)
  have p: "posted blank_filled = []" "posted acme_filled = []"
    "spot_request (user_id (storage acme_filled)) (form acme_filled) = acme_request"
    by (simp_all add: blank_filled_def session_defs initial_system_def user_id_def getItem_def)
  from submit_is_answered [OF m(1), of "js ''camera.svg''"] b p(1)
  have "\<exists>t. act (js ''camera.svg'') blank_filled ClickSubmit = Some t \<and> posted t = [] \<and>
      error_texts (view (js ''camera.svg'') t) \<noteq> []"
    by (auto simp del: js_Cons)
  moreover from submit_is_answered [OF m(2), of "js ''camera.svg''"] validation_acme p(2,3)
  have "\<exists>t. act (js ''camera.svg'') acme_filled ClickSubmit = Some t \<and>
      posted t = [acme_request] \<and> error_texts (view (js ''camera.svg'') t) = []"
    by (auto simp del: js_Cons)
  ultimately show ?thesis ..
qed

section \<open>The first scenario of the specification\<close>

text \<open>
  The complete draft of the first scenario as a session of the mounted
  form: choosing the file and typing the texts, submitting and the request
  being fulfilled is a run; it passes through the phases idle, submitting and
  done, sends the one request with the stored user id, shows no error
  message at any point, and ends unmounted with one navigation.
\<close>

theorem scenario_session:
  "run session0 fill_in = Some acme_filled \<and>
   run acme_filled [Submit] = Some acme_pending \<and>
   run acme_pending [Settle 0 True] = Some acme_done \<and>
   map phase_of [session0, acme_filled, acme_pending, acme_done] =
     [Idle, Idle, Submitting, Done] \<and>
   posted acme_done = [acme_request] \<and> headers acme_request = [(js ''user_id'', Some (js ''7''))] \<and>
   map (\<lambda>s. error_texts (view camera s)) [session0, acme_filled, acme_pending, acme_done] =
     [[], [], [], []] \<and>
   navigations acme_done = [js ''/dashboard''] \<and> \<not> mounted acme_done"
  by (simp add: run_fill_in enabled_acme step_acme_filled step_acme_pending)
     (simp add: phase_of_def mounted_def view_def error_texts_render shown_message_def session_defs
        initial_system_def initial_state_def acme_draft_def spot_request_def)

section \<open>Submitting again\<close>

text \<open>
  Submitting is idempotent on an unmodified invalid draft: a second submit
  stores the same error map again, sends nothing, and only repeats the two
  effects in the trace.
\<close>

theorem resubmit_idempotent:
  assumes "validation (form s) = Failure iss"
  shows "step (step s Submit) Submit =
    (step s Submit)\<lparr>trace := trace (step s Submit) @
      [PreventDefault, SetErrors (fieldErrors (flatten iss))]\<rparr> \<and>
    form (step (step s Submit) Submit) = form (step s Submit) \<and>
    posted (step (step s Submit) Submit) = posted s"
proof -
  from assms have "validation (form (step s Submit)) = Failure iss"
    by (simp add: step_Submit_invalid)
  from step_Submit_invalid [OF this] show ?thesis
    by (simp add: step_Submit_invalid [OF assms])
qed

theorem resubmit_idempotent_witness:
  "errors (form (step (step blank_filled Submit) Submit)) = errors (form (step blank_filled Submit)) \<and>
   posted (step (step blank_filled Submit) Submit) = []"
proof -
  from validation_blank obtain iss where "validation (form blank_filled) = Failure iss"
    by blast
  moreover have "posted blank_filled = []"
    by (simp add: blank_filled_def session0_def initial_system_def)
  ultimately show ?thesis
    using resubmit_idempotent [of blank_filled iss, THEN conjunct2] by simp
qed

end
